(* ===== verification/Prelude.thy ===== *)
theory Prelude
  imports Main "HOL-Library.AList"
begin

text \<open>
  Shared vocabulary of the development.

  \<^item> Go errors as values (\<open>go_error\<close>), with the wrapping done by \<^verbatim>\<open>fmt.Errorf\<close> and the
    classification done by \<^verbatim>\<open>k8s.io/apimachinery/pkg/api/errors\<close>;
  \<^item> the world a handler runs in (\<open>world\<close>): the state of everything outside the process, of an
    arbitrary type, and the trace of the calls the handler has made. Every call to code that is
    not part of the repository (the Kubernetes client, the clock, the event recorder) goes through
    \<open>call\<close>, which runs a function supplied by the environment and appends what happened to the
    trace. The theorems quantify over these functions, so they hold for every answer the API
    server can give, and for every change other actors make between two calls;
  \<^item> Go strings as byte lists, Go maps as association lists in iteration order;
  \<^item> the generic lemmas the components share.
\<close>

section \<open>Errors\<close>

text \<open>
  \<open>ErrApi\<close> is an error of the API server with the reason the sources test for; \<open>ErrMsg\<close> is
  \<^verbatim>\<open>fmt.Errorf\<close> without \<^verbatim>\<open>%w\<close>; \<open>ErrWrap\<close> and \<open>ErrWrap2\<close> are \<^verbatim>\<open>fmt.Errorf\<close> with one and two
  \<^verbatim>\<open>%w\<close> verbs.
\<close>

datatype api_reason = ReasonNotFound | ReasonAlreadyExists | ReasonOther

datatype go_error =
    ErrApi api_reason string
  | ErrMsg string
  | ErrWrap string go_error
  | ErrWrap2 string go_error string go_error

fun err_string :: "go_error \<Rightarrow> string" where
  "err_string (ErrApi r m) = m"
| "err_string (ErrMsg m) = m"
| "err_string (ErrWrap m e) = m @ err_string e"
| "err_string (ErrWrap2 m e m' e') = m @ err_string e @ m' @ err_string e'"

fun err_reason :: "go_error \<Rightarrow> api_reason" where
  "err_reason (ErrApi r m) = r"
| "err_reason (ErrMsg m) = ReasonOther"
| "err_reason (ErrWrap m e) = err_reason e"
| "err_reason (ErrWrap2 m e m' e') =
     (if err_reason e = ReasonOther then err_reason e' else err_reason e)"

definition IsNotFound :: "go_error \<Rightarrow> bool" where
  "IsNotFound e \<longleftrightarrow> err_reason e = ReasonNotFound"

definition IsAlreadyExists :: "go_error \<Rightarrow> bool" where
  "IsAlreadyExists e \<longleftrightarrow> err_reason e = ReasonAlreadyExists"

text \<open>\<^verbatim>\<open>client.IgnoreNotFound\<close>: nil for a NotFound error, the error itself otherwise.\<close>

definition IgnoreNotFound :: "go_error \<Rightarrow> go_error option" where
  "IgnoreNotFound e = (if IsNotFound e then None else Some e)"

text \<open>The outcome of a call that may fail: \<open>Inl\<close> is a non-nil error.\<close>

type_synonym 'a result = "go_error + 'a"

text \<open>A failed call whose error is not NotFound, as in \<^verbatim>\<open>err != nil && !errors.IsNotFound(err)\<close>.\<close>

definition hard_error :: "'a result \<Rightarrow> go_error option" where
  "hard_error r = (case r of Inl e \<Rightarrow> IgnoreNotFound e | Inr _ \<Rightarrow> None)"

section \<open>The world and its calls\<close>

record ('s, 'e) world =
  srv :: 's
  trace :: "'e list"

definition call ::
  "('s \<Rightarrow> 'r \<times> 's) \<Rightarrow> ('r \<Rightarrow> 'e) \<Rightarrow> ('s, 'e, 'x) world_scheme \<Rightarrow> 'r \<times> ('s, 'e, 'x) world_scheme" where
  "call f ev w =
     (let (r, s') = f (srv w) in (r, w\<lparr>srv := s', trace := trace w @ [ev r]\<rparr>))"

text \<open>A call that leaves no event behind: reading the clock or a random source.\<close>

definition silent ::
  "('s \<Rightarrow> 'r \<times> 's) \<Rightarrow> ('s, 'e, 'x) world_scheme \<Rightarrow> 'r \<times> ('s, 'e, 'x) world_scheme" where
  "silent f w = (let (r, s') = f (srv w) in (r, w\<lparr>srv := s'\<rparr>))"

definition emit :: "'e \<Rightarrow> ('s, 'e, 'x) world_scheme \<Rightarrow> ('s, 'e, 'x) world_scheme" where
  "emit e w = w\<lparr>trace := trace w @ [e]\<rparr>"

text \<open>
  \<open>ordered_by P Q tr\<close>: in the trace \<open>tr\<close> no event that satisfies \<open>Q\<close> comes before the first
  event that satisfies \<open>P\<close>.
\<close>

fun ordered_by :: "('e \<Rightarrow> bool) \<Rightarrow> ('e \<Rightarrow> bool) \<Rightarrow> 'e list \<Rightarrow> bool" where
  "ordered_by P Q [] = True"
| "ordered_by P Q (x # xs) = (\<not> Q x \<and> (P x \<or> ordered_by P Q xs))"

text \<open>
  \<^verbatim>\<open>ctrl.Result\<close> with the one field the sources set; a duration is an \<open>int\<close> number of
  nanoseconds, 0 when unset. A reconciler returns a result and a possibly nil error.
\<close>

type_synonym time = int
type_synonym duration = int

record Result =
  RequeueAfter :: duration

definition noResult :: Result where
  "noResult = \<lparr>RequeueAfter = 0\<rparr>"

type_synonym reconcile_ret = "Result \<times> go_error option"

definition Second :: duration where
  "Second = 1000000000"

definition Minute :: duration where
  "Minute = 60 * Second"

text \<open>\<^verbatim>\<open>time.Time.Sub\<close>: the difference saturates at the range of a signed 64-bit duration.\<close>

definition time_Sub :: "time \<Rightarrow> time \<Rightarrow> duration" where
  "time_Sub t u = max (- (2 ^ 63)) (min (2 ^ 63 - 1) (t - u))"

section \<open>Strings and maps\<close>

type_synonym 'v gomap = "(string \<times> 'v) list"

text \<open>Reading a missing key of a \<^verbatim>\<open>map[string]string\<close> gives the empty string.\<close>

definition go_index :: "string gomap \<Rightarrow> string \<Rightarrow> string" where
  "go_index m k = (case map_of m k of None \<Rightarrow> [] | Some v \<Rightarrow> v)"

definition HasPrefix :: "string \<Rightarrow> string \<Rightarrow> bool" where
  "HasPrefix s p \<longleftrightarrow> take (length p) s = p"

definition TrimPrefix :: "string \<Rightarrow> string \<Rightarrow> string" where
  "TrimPrefix s p = (if HasPrefix s p then drop (length p) s else s)"

text \<open>\<^verbatim>\<open>strings.TrimRight\<close> with a one-character cut set.\<close>

definition TrimRightChar :: "string \<Rightarrow> char \<Rightarrow> string" where
  "TrimRightChar s c = rev (dropWhile (\<lambda>x. x = c) (rev s))"

fun Join :: "string list \<Rightarrow> string \<Rightarrow> string" where
  "Join [] sep = []"
| "Join [x] sep = x"
| "Join (x # y # xs) sep = x @ sep @ Join (y # xs) sep"

definition dquote :: char where
  "dquote = CHR 0x22"

definition squote :: char where
  "squote = CHR 0x27"

definition bslash :: char where
  "bslash = CHR 0x5C"

definition hex_digit :: "nat \<Rightarrow> char" where
  "hex_digit n = (if n < 10 then char_of (48 + n) else char_of (87 + n))"

text \<open>
  The \<^verbatim>\<open>%q\<close> verb on a string (\<^verbatim>\<open>strconv.Quote\<close>). Bytes from 0x80 on are part of a multi-byte
  character and are kept, which is what the library does for printable characters; the verb is
  only used in messages.
\<close>

definition quote_char :: "char \<Rightarrow> string" where
  "quote_char c = (let n = of_char c :: nat in
     if c = dquote \<or> c = bslash then [bslash, c]
     else if n = 7 then [bslash, CHR ''a'']
     else if n = 8 then [bslash, CHR ''b'']
     else if n = 9 then [bslash, CHR ''t'']
     else if n = 10 then [bslash, CHR ''n'']
     else if n = 11 then [bslash, CHR ''v'']
     else if n = 12 then [bslash, CHR ''f'']
     else if n = 13 then [bslash, CHR ''r'']
     else if n < 32 \<or> n = 127 then [bslash, CHR ''x'', hex_digit (n div 16), hex_digit (n mod 16)]
     else [c])"

definition go_quote :: "string \<Rightarrow> string" where
  "go_quote s = [dquote] @ concat (map quote_char s) @ [dquote]"

text \<open>Decimal digits of a non-negative \<^verbatim>\<open>int\<close> (\<^verbatim>\<open>%d\<close>, \<^verbatim>\<open>strconv.Itoa\<close>).\<close>

fun nat_dec :: "nat \<Rightarrow> string" where
  "nat_dec n = (if n < 10 then [char_of (48 + n)] else nat_dec (n div 10) @ [char_of (48 + n mod 10)])"

declare nat_dec.simps [simp del]

definition Itoa :: "int \<Rightarrow> string" where
  "Itoa i = (if i < 0 then ''-'' @ nat_dec (nat (- i)) else nat_dec (nat i))"

section \<open>Shared lemmas\<close>

named_theorems world_simps \<open>how the calls of a handler read and extend the world\<close>

lemma call_result [world_simps]: "fst (call f ev w) = fst (f (srv w))"
  by (simp add: call_def split: prod.split)

lemma call_srv [world_simps]: "srv (snd (call f ev w)) = snd (f (srv w))"
  by (simp add: call_def split: prod.split)

lemma call_trace [world_simps]: "trace (snd (call f ev w)) = trace w @ [ev (fst (f (srv w)))]"
  by (simp add: call_def split: prod.split)

lemma silent_result [world_simps]: "fst (silent f w) = fst (f (srv w))"
  by (simp add: silent_def split: prod.split)

lemma silent_srv [world_simps]: "srv (snd (silent f w)) = snd (f (srv w))"
  by (simp add: silent_def split: prod.split)

lemma silent_trace [world_simps]: "trace (snd (silent f w)) = trace w"
  by (simp add: silent_def split: prod.split)

lemma emit_srv [world_simps]: "srv (emit e w) = srv w"
  by (simp add: emit_def)

lemma emit_trace [world_simps]: "trace (emit e w) = trace w @ [e]"
  by (simp add: emit_def)

lemma call_eqD:
  "call f ev w = (r, w') \<Longrightarrow>
     r = fst (f (srv w)) \<and> srv w' = snd (f (srv w)) \<and> trace w' = trace w @ [ev r]"
  by (auto simp: call_def split: prod.splits)

lemma call_traceD: "call f ev w = (r, w') \<Longrightarrow> trace w' = trace w @ [ev r]"
  by (auto simp: call_def split: prod.splits)

lemma silent_traceD: "silent f w = (r, w') \<Longrightarrow> trace w' = trace w"
  by (auto simp: silent_def split: prod.splits)

lemma silent_eqD:
  "silent f w = (r, w') \<Longrightarrow>
     r = fst (f (srv w)) \<and> srv w' = snd (f (srv w)) \<and> trace w' = trace w"
  by (auto simp: silent_def split: prod.splits)

lemma ordered_by_snoc [simp]:
  "ordered_by P Q (xs @ [x]) \<longleftrightarrow> ordered_by P Q xs \<and> (Q x \<longrightarrow> (\<exists>y \<in> set xs. P y))"
  by (induction xs) auto

lemma ordered_byD:
  assumes "ordered_by P Q (pre @ x # post)" and "Q x"
  shows "\<exists>y \<in> set pre. P y"
  using assms by (induction pre) auto

text \<open>An event that is not among the first events of a trace happened after them.\<close>

lemma event_after:
  assumes "pre @ x # post = xs @ ys" and "x \<notin> set xs"
  obtains zs where "pre = xs @ zs" and "ys = zs @ x # post"
  using assms by (auto simp: append_eq_append_conv2 Cons_eq_append_conv)

text \<open>
  \<open>guarded G tr\<close>: every event of the trace satisfies \<open>G\<close> with the events before it. Handlers are
  shown to extend guarded traces by guarded traces, call by call.
\<close>

definition guarded :: "('e list \<Rightarrow> 'e \<Rightarrow> bool) \<Rightarrow> 'e list \<Rightarrow> bool" where
  "guarded G tr \<longleftrightarrow> (\<forall>pre x post. tr = pre @ x # post \<longrightarrow> G pre x)"

lemma guarded_Nil [simp]: "guarded G []"
  by (simp add: guarded_def)

lemma guarded_snoc [simp]: "guarded G (tr @ [x]) \<longleftrightarrow> guarded G tr \<and> G tr x"
  unfolding guarded_def
proof (intro iffI conjI allI impI)
  assume *: "\<forall>pre y post. tr @ [x] = pre @ y # post \<longrightarrow> G pre y"
  show "G pre y" if "tr = pre @ y # post" for pre y post using * that by auto
  show "G tr x" using * by blast
next
  fix pre y post
  assume *: "(\<forall>pre x post. tr = pre @ x # post \<longrightarrow> G pre x) \<and> G tr x" and "tr @ [x] = pre @ y # post"
  then show "G pre y" by (cases post rule: rev_cases) auto
qed

lemma guarded_append:
  assumes "guarded G tr" and "\<forall>x \<in> set evs. \<forall>pre. G pre x"
  shows "guarded G (tr @ evs)"
  using assms(2)
proof (induction evs rule: rev_induct)
  case Nil
  with assms(1) show ?case by simp
next
  case (snoc x evs)
  then show ?case by (simp flip: append_assoc)
qed

lemma guardedD: "guarded G tr \<Longrightarrow> tr = pre @ x # post \<Longrightarrow> G pre x"
  by (simp add: guarded_def)

lemma list_ex_split: "list_ex P xs \<Longrightarrow> \<exists>pre x post. xs = pre @ x # post \<and> P x"
  by (induction xs) (auto intro: exI [of _ "[]"], metis append_Cons)

lemmas trace_splits = append_eq_Cons_conv Cons_eq_append_conv

lemma hard_error_simps [simp]:
  "hard_error (Inr x) = None"
  "hard_error (Inl e) = IgnoreNotFound e"
  by (simp_all add: hard_error_def)

lemma IgnoreNotFound_None [simp]: "IgnoreNotFound e = None \<longleftrightarrow> IsNotFound e"
  by (simp add: IgnoreNotFound_def)

lemma HasPrefix_append [simp]: "HasPrefix (p @ s) p"
  by (simp add: HasPrefix_def)

lemma TrimPrefix_append [simp]: "TrimPrefix (p @ s) p = s"
  by (simp add: TrimPrefix_def)

lemma go_index_Some [simp]: "map_of m k = Some v \<Longrightarrow> go_index m k = v"
  by (simp add: go_index_def)

lemma TrimRightChar_take: "\<exists>n. TrimRightChar s c = take n s"
proof -
  obtain n where "dropWhile (\<lambda>x. x = c) (rev s) = drop n (rev s)"
    using dropWhile_eq_drop [of "\<lambda>x. x = c" "rev s"] by blast
  then have "TrimRightChar s c = take (length s - n) s"
    by (simp add: TrimRightChar_def rev_drop)
  then show ?thesis ..
qed

lemma length_TrimRightChar: "length (TrimRightChar s c) \<le> length s"
  by (simp add: TrimRightChar_def length_dropWhile_le [of _ "rev s", simplified])

lemma last_TrimRightChar: "TrimRightChar s c \<noteq> [] \<Longrightarrow> last (TrimRightChar s c) \<noteq> c"
  by (metis (full_types) TrimRightChar_def hd_dropWhile last_rev rev_is_Nil_conv)

end
