(* ===== verification/Kube.thy ===== *)
theory Kube
  imports Prelude
begin

text \<open>
  The part of the Kubernetes object model the controllers share: object metadata, status
  conditions and finalizers.

  The helper functions of \<^verbatim>\<open>k8s.io/apimachinery/pkg/api/meta\<close> and
  \<^verbatim>\<open>controllerutil\<close> are not part of the repository. They are the fields of \<open>meta_lib\<close>, an
  argument of every definition that uses them; \<open>meta_lib_ok\<close> states what their documentation
  promises and the sources rely on. \<open>plain_lib\<close> is a concrete set of such functions, used to
  show that the promises can be kept.
\<close>

section \<open>Object metadata\<close>

record OwnerReference =
  orAPIVersion :: string
  orKind :: string
  orName :: string
  orController :: bool

text \<open>
  The fields of \<^verbatim>\<open>metav1.ObjectMeta\<close> the sources read or write. A concrete kind of object is a
  record that extends this one, as the Go structs embed it. An unset timestamp is \<open>None\<close>.
\<close>

record ObjectMeta =
  Name :: string
  Namespace :: string
  UID :: string
  ResourceVersion :: string
  Generation :: int
  Labels :: "string gomap"
  Annotations :: "string gomap"
  Finalizers :: "string list"
  CreationTimestamp :: "time option"
  DeletionTimestamp :: "time option"
  OwnerReferences :: "OwnerReference list"

definition new_meta :: "string \<Rightarrow> string \<Rightarrow> ObjectMeta" where
  "new_meta ns n =
     \<lparr>Name = n, Namespace = ns, UID = [], ResourceVersion = [], Generation = 0, Labels = [],
      Annotations = [], Finalizers = [], CreationTimestamp = None, DeletionTimestamp = None,
      OwnerReferences = []\<rparr>"

text \<open>\<^verbatim>\<open>types.NamespacedName\<close> and its string form.\<close>

record NamespacedName =
  nnNamespace :: string
  nnName :: string

definition nsname :: "string \<Rightarrow> string \<Rightarrow> NamespacedName" where
  "nsname ns n = \<lparr>nnNamespace = ns, nnName = n\<rparr>"

definition nn_String :: "NamespacedName \<Rightarrow> string" where
  "nn_String k = nnNamespace k @ ''/'' @ nnName k"

section \<open>Conditions\<close>

datatype ConditionStatus = ConditionTrue | ConditionFalse | ConditionUnknown

record Condition =
  cType :: string
  cStatus :: ConditionStatus
  cReason :: string
  cMessage :: string
  cObservedGeneration :: int
  cLastTransitionTime :: "time option"

text \<open>
  The library functions. \<open>SetStatusCondition\<close> takes the current time as its first argument: the
  library stamps a condition whose transition time is unset.
\<close>

record meta_lib =
  SetStatusCondition :: "time \<Rightarrow> Condition list \<Rightarrow> Condition \<Rightarrow> Condition list"
  RemoveStatusCondition :: "Condition list \<Rightarrow> string \<Rightarrow> Condition list"
  FindStatusCondition :: "Condition list \<Rightarrow> string \<Rightarrow> Condition option"
  IsStatusConditionTrue :: "Condition list \<Rightarrow> string \<Rightarrow> bool"
  ContainsFinalizer :: "string list \<Rightarrow> string \<Rightarrow> bool"
  AddFinalizer :: "string list \<Rightarrow> string \<Rightarrow> string list"
  RemoveFinalizer :: "string list \<Rightarrow> string \<Rightarrow> string list"

text \<open>Two conditions that differ at most in their transition time.\<close>

definition same_cond :: "Condition \<Rightarrow> Condition \<Rightarrow> bool" where
  "same_cond c d \<longleftrightarrow>
     cType c = cType d \<and> cStatus c = cStatus d \<and> cReason c = cReason d \<and>
     cMessage c = cMessage d \<and> cObservedGeneration c = cObservedGeneration d"

definition meta_lib_ok :: "meta_lib \<Rightarrow> bool" where
  "meta_lib_ok L \<longleftrightarrow>
     (\<forall>t cs c. \<exists>c'. FindStatusCondition L (SetStatusCondition L t cs c) (cType c) = Some c' \<and> same_cond c' c) \<and>
     (\<forall>t cs c ty. ty \<noteq> cType c \<longrightarrow>
        FindStatusCondition L (SetStatusCondition L t cs c) ty = FindStatusCondition L cs ty) \<and>
     (\<forall>cs ty. FindStatusCondition L (RemoveStatusCondition L cs ty) ty = None) \<and>
     (\<forall>cs ty ty'. ty' \<noteq> ty \<longrightarrow>
        FindStatusCondition L (RemoveStatusCondition L cs ty) ty' = FindStatusCondition L cs ty') \<and>
     (\<forall>cs ty. IsStatusConditionTrue L cs ty =
        (case FindStatusCondition L cs ty of None \<Rightarrow> False | Some c \<Rightarrow> cStatus c = ConditionTrue)) \<and>
     (\<forall>fs f g. ContainsFinalizer L (AddFinalizer L fs f) g = (g = f \<or> ContainsFinalizer L fs g)) \<and>
     (\<forall>fs f g. ContainsFinalizer L (RemoveFinalizer L fs f) g = (g \<noteq> f \<and> ContainsFinalizer L fs g))"

text \<open>
  The constants of the Konfidence API module (\<^verbatim>\<open>konfidence/api/v1alpha1\<close>) the sources refer to by
  name: condition types and reasons. Their values are not part of the repository;
  \<open>konf_api_ok\<close> says that condition types that live on the same object differ.
\<close>

record konf_api =
  VectorDataReadyCondition :: string
  VectorDataReasonMaterialized :: string
  TaskFailed :: string
  TaskSucceeded :: string
  ActivationTaskExecutionInProgress :: string
  ActivationTaskExecutionSucceeded :: string
  ActivationTaskExecutionFailed :: string
  DeploymentTargetReadyCondition :: string
  ArtifactFetchedCondition :: string
  ArtifactDeployedCondition :: string
  AppHealthyCondition :: string
  DeploymentResultCreatedCondition :: string
  ArtifactDeploymentReadyCondition :: string
  StalledCondition :: string
  GroupVersionString :: string
  TaskExecutionKind :: string

definition konf_api_ok :: "konf_api \<Rightarrow> bool" where
  "konf_api_ok K \<longleftrightarrow>
     TaskFailed K \<noteq> TaskSucceeded K \<and>
     distinct [ActivationTaskExecutionInProgress K, ActivationTaskExecutionSucceeded K,
       ActivationTaskExecutionFailed K] \<and>
     distinct [ArtifactFetchedCondition K, ArtifactDeployedCondition K, AppHealthyCondition K,
       DeploymentResultCreatedCondition K, ArtifactDeploymentReadyCondition K, StalledCondition K]"

text \<open>
  What every reconciler is given besides its own client calls: the library functions, the API
  constants and the clock (\<^verbatim>\<open>metav1.Now()\<close>).
\<close>

record 's base_env =
  Lib :: meta_lib
  Api :: konf_api
  Now :: "'s \<Rightarrow> time \<times> 's"

text \<open>
  \<^verbatim>\<open>meta.SetStatusCondition(&conds, metav1.Condition{..., LastTransitionTime: metav1.Now()})\<close>,
  the form in which the sources set conditions.
\<close>

definition set_condition ::
  "('s, 'x) base_env_scheme \<Rightarrow> Condition list \<Rightarrow> string \<Rightarrow> ConditionStatus \<Rightarrow> string \<Rightarrow> string \<Rightarrow>
   int \<Rightarrow> ('s, 'e) world \<Rightarrow> Condition list \<times> ('s, 'e) world" where
  "set_condition E cs ty st reason msg gen w =
     (let (t, w1) = silent (Now E) w in
      (SetStatusCondition (Lib E) t cs
         \<lparr>cType = ty, cStatus = st, cReason = reason, cMessage = msg,
          cObservedGeneration = gen, cLastTransitionTime = Some t\<rparr>, w1))"

text \<open>
  The same for conditions that leave \<^verbatim>\<open>LastTransitionTime\<close> unset; the library fills it in.
\<close>

definition set_unstamped ::
  "('s, 'x) base_env_scheme \<Rightarrow> Condition list \<Rightarrow> string \<Rightarrow> ConditionStatus \<Rightarrow> string \<Rightarrow> string \<Rightarrow>
   int \<Rightarrow> ('s, 'e) world \<Rightarrow> Condition list \<times> ('s, 'e) world" where
  "set_unstamped E cs ty st reason msg gen w =
     (let (t, w1) = silent (Now E) w in
      (SetStatusCondition (Lib E) t cs
         \<lparr>cType = ty, cStatus = st, cReason = reason, cMessage = msg,
          cObservedGeneration = gen, cLastTransitionTime = None\<rparr>, w1))"

section \<open>Deployment results and times\<close>

text \<open>
  \<^verbatim>\<open>DeploymentResult\<close> of the API module: the name, the type and the raw JSON of the specification.
\<close>

record DeploymentResult =
  drName :: string
  drType :: string
  drSpec :: string

text \<open>
  \<^verbatim>\<open>metav1.Time\<close>: an unset timestamp reads as Go's zero time, the first of January of the year 1.
\<close>

definition zero_time :: time where
  "zero_time = - 62135596800 * Second"

definition time_of :: "time option \<Rightarrow> time" where
  "time_of t = (case t of None \<Rightarrow> zero_time | Some u \<Rightarrow> u)"

section \<open>A concrete library\<close>

fun plain_set :: "Condition list \<Rightarrow> Condition \<Rightarrow> Condition list" where
  "plain_set [] c = [c]"
| "plain_set (d # ds) c = (if cType d = cType c then c # ds else d # plain_set ds c)"

definition plain_stamp :: "time \<Rightarrow> Condition \<Rightarrow> Condition" where
  "plain_stamp t c =
     (case cLastTransitionTime c of None \<Rightarrow> c\<lparr>cLastTransitionTime := Some t\<rparr> | Some _ \<Rightarrow> c)"

definition plain_lib :: meta_lib where
  "plain_lib =
     \<lparr>SetStatusCondition = (\<lambda>t cs c. plain_set cs (plain_stamp t c)),
      RemoveStatusCondition = (\<lambda>cs ty. filter (\<lambda>c. cType c \<noteq> ty) cs),
      FindStatusCondition = (\<lambda>cs ty. find (\<lambda>c. cType c = ty) cs),
      IsStatusConditionTrue = (\<lambda>cs ty.
        case find (\<lambda>c. cType c = ty) cs of None \<Rightarrow> False | Some c \<Rightarrow> cStatus c = ConditionTrue),
      ContainsFinalizer = (\<lambda>fs f. f \<in> set fs),
      AddFinalizer = (\<lambda>fs f. if f \<in> set fs then fs else fs @ [f]),
      RemoveFinalizer = (\<lambda>fs f. filter (\<lambda>g. g \<noteq> f) fs)\<rparr>"

definition plain_api :: konf_api where
  "plain_api =
     \<lparr>VectorDataReadyCondition = ''Ready'', VectorDataReasonMaterialized = ''Materialized'',
      TaskFailed = ''Failed'', TaskSucceeded = ''Succeeded'',
      ActivationTaskExecutionInProgress = ''InProgress'', ActivationTaskExecutionSucceeded = ''Succeeded'',
      ActivationTaskExecutionFailed = ''Failed'', DeploymentTargetReadyCondition = ''Ready'',
      ArtifactFetchedCondition = ''ArtifactFetched'', ArtifactDeployedCondition = ''ArtifactDeployed'',
      AppHealthyCondition = ''AppHealthy'', DeploymentResultCreatedCondition = ''DeploymentResultCreated'',
      ArtifactDeploymentReadyCondition = ''Ready'', StalledCondition = ''Stalled'',
      GroupVersionString = ''konfidence.cloud/v1alpha1'', TaskExecutionKind = ''TaskExecution''\<rparr>"

section \<open>Consequences of the library's promises\<close>

lemma nsname_eq [simp]: "nsname a b = nsname c d \<longleftrightarrow> a = c \<and> b = d"
  by (simp add: nsname_def)

lemma nsname_sel [simp]: "nnNamespace (nsname a b) = a" "nnName (nsname a b) = b"
  by (simp_all add: nsname_def)

lemma same_cond_refl [simp]: "same_cond c c"
  by (simp add: same_cond_def)

lemma same_cond_status: "same_cond c d \<Longrightarrow> cStatus c = cStatus d"
  by (simp add: same_cond_def)

lemma find_set_same:
  assumes "meta_lib_ok L"
  obtains c' where "FindStatusCondition L (SetStatusCondition L t cs c) (cType c) = Some c'"
    and "same_cond c' c"
proof -
  have "\<exists>c'. FindStatusCondition L (SetStatusCondition L t cs c) (cType c) = Some c' \<and> same_cond c' c"
    using assms unfolding meta_lib_ok_def by (elim conjE) (blast)
  with that show thesis by blast
qed

lemma find_set_other:
  assumes "meta_lib_ok L" and "ty \<noteq> cType c"
  shows "FindStatusCondition L (SetStatusCondition L t cs c) ty = FindStatusCondition L cs ty"
  using assms unfolding meta_lib_ok_def by (elim conjE) simp

lemma find_remove:
  assumes "meta_lib_ok L"
  shows "FindStatusCondition L (RemoveStatusCondition L cs ty) ty' =
    (if ty' = ty then None else FindStatusCondition L cs ty')"
  using assms unfolding meta_lib_ok_def by (elim conjE) simp

lemma is_true_find:
  assumes "meta_lib_ok L"
  shows "IsStatusConditionTrue L cs ty =
    (case FindStatusCondition L cs ty of None \<Rightarrow> False | Some c \<Rightarrow> cStatus c = ConditionTrue)"
  using assms unfolding meta_lib_ok_def by (elim conjE) simp

lemma is_true_set:
  assumes "meta_lib_ok L"
  shows "IsStatusConditionTrue L (SetStatusCondition L t cs c) ty =
    (if ty = cType c then cStatus c = ConditionTrue else IsStatusConditionTrue L cs ty)"
proof (cases "ty = cType c")
  case True
  obtain c' where "FindStatusCondition L (SetStatusCondition L t cs c) (cType c) = Some c'"
    and "same_cond c' c" by (rule find_set_same [OF assms])
  with True assms show ?thesis by (simp add: is_true_find same_cond_status)
next
  case False
  with assms show ?thesis by (simp add: is_true_find find_set_other)
qed

lemma is_true_remove:
  assumes "meta_lib_ok L"
  shows "IsStatusConditionTrue L (RemoveStatusCondition L cs ty) ty' =
    (ty' \<noteq> ty \<and> IsStatusConditionTrue L cs ty')"
  using assms by (simp add: is_true_find find_remove)

lemma contains_add:
  assumes "meta_lib_ok L"
  shows "ContainsFinalizer L (AddFinalizer L fs f) g = (g = f \<or> ContainsFinalizer L fs g)"
  using assms unfolding meta_lib_ok_def by blast

lemma contains_remove:
  assumes "meta_lib_ok L"
  shows "ContainsFinalizer L (RemoveFinalizer L fs f) g = (g \<noteq> f \<and> ContainsFinalizer L fs g)"
  using assms unfolding meta_lib_ok_def by blast

lemmas meta_lib_simps = is_true_set is_true_remove contains_add contains_remove find_remove

lemma set_condition_eqD:
  assumes "set_condition E cs ty st reason msg gen w = (cs', w')"
  shows "trace w' = trace w"
    and "\<exists>t. cs' = SetStatusCondition (Lib E) t cs
      \<lparr>cType = ty, cStatus = st, cReason = reason, cMessage = msg,
       cObservedGeneration = gen, cLastTransitionTime = Some t\<rparr>"
  using assms by (auto simp: set_condition_def dest: silent_eqD split: prod.splits)

lemma is_true_set_condition:
  assumes "meta_lib_ok (Lib E)" and "set_condition E cs ty st reason msg gen w = (cs', w')"
  shows "IsStatusConditionTrue (Lib E) cs' ty' =
    (if ty' = ty then st = ConditionTrue else IsStatusConditionTrue (Lib E) cs ty')"
  using assms by (auto simp: is_true_set dest: set_condition_eqD(2))

lemma set_unstamped_eqD:
  assumes "set_unstamped E cs ty st reason msg gen w = (cs', w')"
  shows "trace w' = trace w"
    and "\<exists>t. cs' = SetStatusCondition (Lib E) t cs
      \<lparr>cType = ty, cStatus = st, cReason = reason, cMessage = msg,
       cObservedGeneration = gen, cLastTransitionTime = None\<rparr>"
  using assms by (auto simp: set_unstamped_def dest: silent_eqD split: prod.splits)

lemma is_true_set_unstamped:
  assumes "meta_lib_ok (Lib E)" and "set_unstamped E cs ty st reason msg gen w = (cs', w')"
  shows "IsStatusConditionTrue (Lib E) cs' ty' =
    (if ty' = ty then st = ConditionTrue else IsStatusConditionTrue (Lib E) cs ty')"
  using assms by (auto simp: is_true_set dest: set_unstamped_eqD(2))

lemma plain_set_find:
  "find (\<lambda>d. cType d = ty) (plain_set cs c) =
    (if ty = cType c then Some c else find (\<lambda>d. cType d = ty) cs)"
  by (induction cs c rule: plain_set.induct) auto

lemma find_filter_other:
  "find (\<lambda>d. cType d = ty') (filter (\<lambda>d. cType d \<noteq> ty) cs) =
    (if ty' = ty then None else find (\<lambda>d. cType d = ty') cs)"
  by (induction cs) auto

lemma plain_stamp_same: "cType (plain_stamp t c) = cType c" "same_cond (plain_stamp t c) c"
  by (simp_all add: plain_stamp_def same_cond_def split: option.split)

lemma plain_lib_ok: "meta_lib_ok plain_lib"
  unfolding meta_lib_ok_def plain_lib_def
  by (intro conjI allI impI) (simp_all add: plain_set_find find_filter_other plain_stamp_same, blast+)

lemma plain_api_ok: "konf_api_ok plain_api"
  by (simp add: konf_api_ok_def plain_api_def)

end
