(* ===== verification/VectorData_Controller.thy ===== *)
theory VectorData_Controller
  imports Kube "HOL-Library.Multiset"
begin

text \<open>
  The VectorData controller,
  \<^verbatim>\<open>internal/vectordata/internal/controller/vectordata_controller.go\<close>: it renders a VectorData
  object into the data of an immutable ConfigMap, creates that ConfigMap once, and removes it
  behind a finalizer when the VectorData goes away.

  The Kubernetes client is the environment record \<open>vd_env\<close>; \<open>MarshalResults\<close> is \<^verbatim>\<open>json.Marshal\<close>
  on the API module's result type, whose wire format is not part of the repository. Go iterates a
  map in an unspecified order: the entries of \<open>vdDeploymentResults\<close> are listed in the order the
  loop meets them, and \<open>renderData_order_irrelevant\<close> shows that the order does not matter.
\<close>

section \<open>Data\<close>

record VectorData = ObjectMeta +
  vdFeatures :: "string option"
  vdAuthored :: "string option"
  vdDeploymentResults :: "DeploymentResult list gomap"
  vdConditions :: "Condition list"

record ConfigMap = ObjectMeta +
  cmImmutable :: "bool option"
  cmData :: "string gomap"

definition VectorDataControllerName :: string where
  "VectorDataControllerName = ''vector-data-controller''"

definition VectorDataFinalizer :: string where
  "VectorDataFinalizer = ''konfidence.cloud/vector-data-configmap-cleanup''"

definition ConfigMapPrefix :: string where
  "ConfigMapPrefix = ''vector-data-''"

definition FeaturesConfigKey :: string where
  "FeaturesConfigKey = ''features.json''"

definition AuthoredConfigKey :: string where
  "AuthoredConfigKey = ''authored.json''"

definition DeploymentResultsPrefix :: string where
  "DeploymentResultsPrefix = ''deploymentResults.''"

definition JSONSuffix :: string where
  "JSONSuffix = ''.json''"

definition labelManagedBy :: string where
  "labelManagedBy = ''konfidence.cloud/managed-by''"

definition labelVectorDataName :: string where
  "labelVectorDataName = ''konfidence.cloud/vector-data-name''"

definition labelVectorDataUID :: string where
  "labelVectorDataUID = ''konfidence.cloud/vector-data-uid''"

definition jsonNullLiteral :: string where
  "jsonNullLiteral = ''null''"

section \<open>Rendering\<close>

text \<open>A nil extension and one with empty bytes both render as \<^verbatim>\<open>null\<close>.\<close>

definition rawOrNull :: "string option \<Rightarrow> string" where
  "rawOrNull r = (case r of None \<Rightarrow> jsonNullLiteral
     | Some raw \<Rightarrow> if raw = [] then jsonNullLiteral else raw)"

text \<open>\<^verbatim>\<open>strings.LastIndex\<close> for a one-byte substring; \<open>None\<close> is -1.\<close>

definition LastIndexByte :: "string \<Rightarrow> char \<Rightarrow> nat option" where
  "LastIndexByte s c =
     (if c \<in> set s then Some (length s - 1 - length (takeWhile (\<lambda>x. x \<noteq> c) (rev s))) else None)"

definition componentBasename :: "string \<Rightarrow> string" where
  "componentBasename component =
     (case LastIndexByte component (CHR ''/'') of
        Some idx \<Rightarrow> if idx < length component - 1 then drop (idx + 1) component else component
      | None \<Rightarrow> component)"

definition result_key :: "DeploymentResult \<Rightarrow> string" where
  "result_key r = drName r @ [CHR 0x00] @ drType r"

fun assertUnique_loop :: "string \<Rightarrow> string list \<Rightarrow> DeploymentResult list \<Rightarrow> go_error option" where
  "assertUnique_loop component seen [] = None"
| "assertUnique_loop component seen (r # rs) =
     (if result_key r \<in> set seen
      then Some (ErrMsg (''component '' @ go_quote component @ '' has duplicate deployment result (name=''
             @ go_quote (drName r) @ '', type='' @ go_quote (drType r) @ '')''))
      else assertUnique_loop component (result_key r # seen) rs)"

definition assertUniqueResults :: "string \<Rightarrow> DeploymentResult list \<Rightarrow> go_error option" where
  "assertUniqueResults component results = assertUnique_loop component [] results"

fun render_loop ::
  "(DeploymentResult list \<Rightarrow> string result) \<Rightarrow> string gomap \<Rightarrow> string gomap \<Rightarrow>
   DeploymentResult list gomap \<Rightarrow> string gomap result" where
  "render_loop marshal seenBasename data [] = Inr data"
| "render_loop marshal seenBasename data ((component, results) # rest) =
     (let basename = componentBasename component in
      if basename = [] then render_loop marshal seenBasename data rest
      else case map_of seenBasename basename of
        Some other \<Rightarrow> Inl (ErrMsg (''components '' @ go_quote other @ '' and '' @ go_quote component
          @ '' map to the same deployment-result key '' @ go_quote basename))
      | None \<Rightarrow>
          (case assertUniqueResults component results of
             Some e \<Rightarrow> Inl e
           | None \<Rightarrow>
               (case marshal results of
                  Inl e \<Rightarrow> Inl (ErrWrap (''marshal deployment results for component ''
                    @ go_quote component @ '': '') e)
                | Inr encoded \<Rightarrow>
                    render_loop marshal (AList.update basename component seenBasename)
                      (AList.update (DeploymentResultsPrefix @ basename @ JSONSuffix) encoded data) rest)))"

definition renderData :: "(DeploymentResult list \<Rightarrow> string result) \<Rightarrow> VectorData \<Rightarrow> string gomap result" where
  "renderData marshal vd =
     render_loop marshal []
       [(FeaturesConfigKey, rawOrNull (vdFeatures vd)), (AuthoredConfigKey, rawOrNull (vdAuthored vd))]
       (vdDeploymentResults vd)"

section \<open>The environment\<close>

record 's vd_env = "'s base_env" +
  MarshalResults :: "DeploymentResult list \<Rightarrow> string result"
  GetVectorData :: "NamespacedName \<Rightarrow> 's \<Rightarrow> VectorData result \<times> 's"
  PatchVectorData :: "VectorData \<Rightarrow> VectorData \<Rightarrow> 's \<Rightarrow> VectorData result \<times> 's"
  PatchVectorDataStatus :: "VectorData \<Rightarrow> VectorData \<Rightarrow> 's \<Rightarrow> VectorData result \<times> 's"
  GetConfigMap :: "NamespacedName \<Rightarrow> 's \<Rightarrow> ConfigMap result \<times> 's"
  CreateConfigMap :: "ConfigMap \<Rightarrow> 's \<Rightarrow> ConfigMap result \<times> 's"
  DeleteConfigMap :: "NamespacedName \<Rightarrow> 's \<Rightarrow> unit result \<times> 's"

text \<open>One event per call, with the arguments and the answer.\<close>

datatype vd_event =
    EvGetVectorData NamespacedName "VectorData result"
  | EvPatchVectorData VectorData VectorData "VectorData result"
  | EvPatchVectorDataStatus VectorData VectorData "VectorData result"
  | EvGetConfigMap NamespacedName "ConfigMap result"
  | EvCreateConfigMap ConfigMap "ConfigMap result"
  | EvDeleteConfigMap NamespacedName "unit result"
  | EvVectorDataRecorded string string

type_synonym 's vd_world = "('s, vd_event) world"

definition vd_cm_key :: "VectorData \<Rightarrow> NamespacedName" where
  "vd_cm_key vd = nsname (Namespace vd) (ConfigMapPrefix @ Name vd)"

section \<open>The handlers\<close>

text \<open>
  \<^verbatim>\<open>setReady\<close> mutates the object it is given; the object after the call is returned with the error.
  A successful patch leaves the object the API server answered with.
\<close>

definition setReady ::
  "'s vd_env \<Rightarrow> VectorData \<Rightarrow> ConditionStatus \<Rightarrow> string \<Rightarrow> string \<Rightarrow> 's vd_world \<Rightarrow>
   (go_error option \<times> VectorData) \<times> 's vd_world" where
  "setReady E vd status reason message w =
     (let (cs, w1) = set_condition E (vdConditions vd) (VectorDataReadyCondition (Api E)) status reason
            message (Generation vd) w;
          vd' = vd\<lparr>vdConditions := cs\<rparr>;
          (r, w2) = call (PatchVectorDataStatus E vd vd') (EvPatchVectorDataStatus vd vd') w1
      in case r of
           Inl e \<Rightarrow> ((Some (ErrWrap ''patch VectorData status: '' e), vd'), w2)
         | Inr stored \<Rightarrow> ((None, stored), w2))"

definition handleDeletion :: "'s vd_env \<Rightarrow> VectorData \<Rightarrow> 's vd_world \<Rightarrow> reconcile_ret \<times> 's vd_world" where
  "handleDeletion E vd w =
     (if \<not> ContainsFinalizer (Lib E) (Finalizers vd) VectorDataFinalizer then ((noResult, None), w)
      else
        let cmKey = vd_cm_key vd;
            (r, w1) = call (DeleteConfigMap E cmKey) (EvDeleteConfigMap cmKey) w
        in case hard_error r of
             Some e \<Rightarrow> ((noResult, Some (ErrWrap (''delete ConfigMap '' @ nn_String cmKey
               @ '' during teardown: '') e)), w1)
           | None \<Rightarrow>
               (let vd' = vd\<lparr>Finalizers := RemoveFinalizer (Lib E) (Finalizers vd) VectorDataFinalizer\<rparr>;
                    (p, w2) = call (PatchVectorData E vd vd') (EvPatchVectorData vd vd') w1
                in case p of
                     Inl e \<Rightarrow> ((noResult, Some (ErrWrap (''remove finalizer from VectorData ''
                       @ Namespace vd @ ''/'' @ Name vd @ '': '') e)), w2)
                   | Inr _ \<Rightarrow> ((noResult, None), w2)))"

definition new_ConfigMap :: "VectorData \<Rightarrow> string gomap \<Rightarrow> ConfigMap" where
  "new_ConfigMap vd data = ObjectMeta.extend
     ((new_meta (Namespace vd) (ConfigMapPrefix @ Name vd))
        \<lparr>Labels := [(labelManagedBy, VectorDataControllerName), (labelVectorDataName, Name vd),
           (labelVectorDataUID, UID vd)]\<rparr>)
     (ConfigMap.fields (Some True) data)"

text \<open>Lines 95 to 135: the part of \<^verbatim>\<open>Reconcile\<close> after the data has been rendered.\<close>

definition materialize ::
  "'s vd_env \<Rightarrow> VectorData \<Rightarrow> string gomap \<Rightarrow> 's vd_world \<Rightarrow> reconcile_ret \<times> 's vd_world" where
  "materialize E vd data w =
     (let cmName = ConfigMapPrefix @ Name vd;
          cmKey = vd_cm_key vd;
          (g, w1) = call (GetConfigMap E cmKey) (EvGetConfigMap cmKey) w
      in case g of
           Inr existing \<Rightarrow>
             (let ((e, _), w2) = setReady E vd ConditionTrue (VectorDataReasonMaterialized (Api E))
                    (''ConfigMap '' @ cmName @ '' already present'') w1
              in ((noResult, e), w2))
         | Inl err \<Rightarrow>
             if \<not> IsNotFound err then
               (let (_, w2) = setReady E vd ConditionFalse ''ConfigMapGetFailed'' (err_string err) w1
                in ((noResult, Some (ErrWrap (''get ConfigMap '' @ nn_String cmKey @ '': '') err)), w2))
             else
               (let cm = new_ConfigMap vd data;
                    (c, w2) = call (CreateConfigMap E cm) (EvCreateConfigMap cm) w1
                in case c of
                     Inl err' \<Rightarrow>
                       (let (_, w3) = setReady E vd ConditionFalse ''ConfigMapCreateFailed'' (err_string err') w2
                        in ((noResult, Some (ErrWrap (''create ConfigMap '' @ nn_String cmKey @ '': '') err')), w3))
                   | Inr _ \<Rightarrow>
                       (let ((e, _), w3) = setReady E vd ConditionTrue (VectorDataReasonMaterialized (Api E))
                              (''ConfigMap '' @ cmName @ '' materialized'') w2
                        in case e of
                             Some e' \<Rightarrow> ((noResult, Some e'), w3)
                           | None \<Rightarrow> ((noResult, None),
                               emit (EvVectorDataRecorded ''VectorDataMaterialized'' (''Materialized ConfigMap ''
                                 @ cmName @ '' in namespace '' @ Namespace vd)) w3))))"

text \<open>Lines 79 to 85: the object carries the finalizer before anything is created.\<close>

definition ensureFinalizer :: "'s vd_env \<Rightarrow> VectorData \<Rightarrow> 's vd_world \<Rightarrow> VectorData result \<times> 's vd_world" where
  "ensureFinalizer E vd w =
     (if \<not> ContainsFinalizer (Lib E) (Finalizers vd) VectorDataFinalizer then
        (let vd' = vd\<lparr>Finalizers := AddFinalizer (Lib E) (Finalizers vd) VectorDataFinalizer\<rparr>
         in call (PatchVectorData E vd vd') (EvPatchVectorData vd vd') w)
      else (Inr vd, w))"

definition VectorData_Reconcile ::
  "'s vd_env \<Rightarrow> NamespacedName \<Rightarrow> 's vd_world \<Rightarrow> reconcile_ret \<times> 's vd_world" where
  "VectorData_Reconcile E req w =
     (let (g, w1) = call (GetVectorData E req) (EvGetVectorData req) w in
      case g of
        Inl e \<Rightarrow> ((noResult, IgnoreNotFound e), w1)
      | Inr vd0 \<Rightarrow>
          if DeletionTimestamp vd0 \<noteq> None then handleDeletion E vd0 w1
          else
            (let (f, w2) = ensureFinalizer E vd0 w1 in
             case f of
               Inl e \<Rightarrow> ((noResult, Some (ErrWrap (''add finalizer to VectorData ''
                 @ Namespace vd0 @ ''/'' @ Name vd0 @ '': '') e)), w2)
             | Inr vd \<Rightarrow>
                 (case renderData (MarshalResults E) vd of
                    Inl err \<Rightarrow>
                      (let ((condErr, _), w3) = setReady E vd ConditionFalse ''RenderFailed'' (err_string err) w2
                       in case condErr of
                            Some ce \<Rightarrow> ((noResult, Some ce), w3)
                          | None \<Rightarrow> ((noResult, Some err), w3))
                  | Inr data \<Rightarrow> materialize E vd data w2)))"

text \<open>
  The update predicate the controller registers: the generation changed (the library's predicate,
  an argument) or the two deletion-timestamp pointers differ. Two nil pointers are equal; two
  non-nil pointers are equal only when the event carries the same object twice, as a resync does.
\<close>

definition VectorData_update_predicate ::
  "(int \<Rightarrow> int \<Rightarrow> bool) \<Rightarrow> bool \<Rightarrow> VectorData \<Rightarrow> VectorData \<Rightarrow> bool" where
  "VectorData_update_predicate generationChanged sameObject old new \<longleftrightarrow>
     generationChanged (Generation old) (Generation new) \<or>
     \<not> (sameObject \<or> (DeletionTimestamp old = None \<and> DeletionTimestamp new = None))"

section \<open>Rendering is correct\<close>

text \<open>The components that get a key of their own, and the key.\<close>

definition kept :: "DeploymentResult list gomap \<Rightarrow> DeploymentResult list gomap" where
  "kept es = filter (\<lambda>(c, _). componentBasename c \<noteq> []) es"

definition data_key :: "string \<Rightarrow> string" where
  "data_key component = DeploymentResultsPrefix @ componentBasename component @ JSONSuffix"

definition renderable :: "(DeploymentResult list \<Rightarrow> string result) \<Rightarrow> DeploymentResult list gomap \<Rightarrow> bool" where
  "renderable marshal es \<longleftrightarrow>
     distinct (map (componentBasename \<circ> fst) (kept es)) \<and>
     (\<forall>(c, rs) \<in> set (kept es). distinct (map result_key rs) \<and> \<not> isl (marshal rs))"

lemma data_key_eq [simp]: "data_key c = data_key d \<longleftrightarrow> componentBasename c = componentBasename d"
  by (simp add: data_key_def)

lemma data_key_other [simp]:
  "data_key c \<noteq> FeaturesConfigKey" "data_key c \<noteq> AuthoredConfigKey"
  by (simp_all add: data_key_def DeploymentResultsPrefix_def FeaturesConfigKey_def AuthoredConfigKey_def)

lemma config_keys_differ [simp]:
  "FeaturesConfigKey \<noteq> AuthoredConfigKey" "AuthoredConfigKey \<noteq> FeaturesConfigKey"
  by (simp_all add: FeaturesConfigKey_def AuthoredConfigKey_def)

lemma assertUnique_loop_None:
  "assertUnique_loop c seen rs = None \<longleftrightarrow>
     distinct (map result_key rs) \<and> set (map result_key rs) \<inter> set seen = {}"
  by (induction c seen rs rule: assertUnique_loop.induct) auto

lemma assertUniqueResults_None: "assertUniqueResults c rs = None \<longleftrightarrow> distinct (map result_key rs)"
  by (simp add: assertUniqueResults_def assertUnique_loop_None)

lemma result_key_inj:
  assumes "CHR 0x00 \<notin> set (drName r)" and "CHR 0x00 \<notin> set (drName s)"
  shows "result_key r = result_key s \<longleftrightarrow> drName r = drName s \<and> drType r = drType s"
proof -
  have "takeWhile (\<lambda>c. c \<noteq> CHR 0x00) (result_key r) = drName r"
    and "takeWhile (\<lambda>c. c \<noteq> CHR 0x00) (result_key s) = drName s"
    using assms by (auto simp: result_key_def takeWhile_append)
  then show ?thesis by (metis append_same_eq append_eq_append_conv result_key_def same_append_eq)
qed

lemma drop_LastIndexByte:
  assumes "LastIndexByte s c = Some i"
  shows "drop (Suc i) s = rev (takeWhile (\<lambda>x. x \<noteq> c) (rev s))" and "i < length s"
proof -
  let ?k = "length (takeWhile (\<lambda>x. x \<noteq> c) (rev s))"
  from assms have c: "c \<in> set (rev s)" and i: "i = length s - 1 - ?k"
    by (auto simp: LastIndexByte_def split: if_splits)
  have "?k < length s"
    using c length_takeWhile_le [of "\<lambda>x. x \<noteq> c" "rev s"] takeWhile_eq_all_conv [of "\<lambda>x. x \<noteq> c" "rev s"]
    by (metis le_neq_implies_less length_rev take_all_iff takeWhile_eq_take order_refl)
  with i show "i < length s" by arith
  have "drop (Suc i) s = rev (take ?k (rev s))"
    using i \<open>?k < length s\<close> by (simp add: rev_take Suc_diff_Suc)
  also have "take ?k (rev s) = takeWhile (\<lambda>x. x \<noteq> c) (rev s)"
    by (metis takeWhile_eq_take)
  finally show "drop (Suc i) s = rev (takeWhile (\<lambda>x. x \<noteq> c) (rev s))" .
qed

lemma componentBasename_suffix: "\<exists>p. component = p @ componentBasename component"
  unfolding componentBasename_def
  by (auto split: option.split intro: append_take_drop_id [symmetric])

lemma componentBasename_no_slash:
  assumes "component = [] \<or> last component \<noteq> CHR ''/''"
  shows "CHR ''/'' \<notin> set (componentBasename component)"
proof (cases "LastIndexByte component (CHR ''/'')")
  case None
  then show ?thesis by (auto simp: componentBasename_def LastIndexByte_def split: if_splits)
next
  case (Some i)
  note d = drop_LastIndexByte [OF Some]
  have "i < length component - 1"
  proof (rule ccontr)
    assume "\<not> ?thesis"
    with d(2) have "drop (Suc i) component = []" by simp
    with d(1) have "takeWhile (\<lambda>x. x \<noteq> CHR ''/'') (rev component) = []" by simp
    with d(2) assms show False by (cases component rule: rev_cases) (auto split: if_splits)
  qed
  with Some d(1) show ?thesis
    by (auto simp: componentBasename_def dest: set_takeWhileD)
qed

text \<open>The data the loop has written when it succeeds.\<close>

definition rendered ::
  "(DeploymentResult list \<Rightarrow> string result) \<Rightarrow> DeploymentResult list gomap \<Rightarrow> string gomap \<Rightarrow> string gomap" where
  "rendered marshal es data = fold (\<lambda>(c, rs). AList.update (data_key c) (projr (marshal rs))) (kept es) data"

lemma kept_simps [simp]:
  "kept [] = []"
  "kept ((c, rs) # es) = (if componentBasename c = [] then kept es else (c, rs) # kept es)"
  by (simp_all add: kept_def)

lemma render_loop_Inr:
  "render_loop marshal seen data es = Inr d \<longleftrightarrow>
     renderable marshal es \<and>
     (componentBasename \<circ> fst) ` set (kept es) \<inter> fst ` set seen = {} \<and>
     d = rendered marshal es data"
proof (induction marshal seen data es rule: render_loop.induct)
  case (1 marshal seen data)
  then show ?case by (auto simp: renderable_def rendered_def)
next
  case (2 marshal seen data component results rest)
  show ?case
  proof (cases "componentBasename component = []")
    case True
    with 2(1) show ?thesis by (simp add: renderable_def rendered_def)
  next
    case False
    show ?thesis
    proof (cases "map_of seen (componentBasename component)")
      case (Some other)
      then have "componentBasename component \<in> fst ` set seen"
        by (metis map_of_eq_None_iff option.distinct(1))
      with False Some show ?thesis by (auto simp: Let_def)
    next
      case None
      then have fresh: "componentBasename component \<notin> fst ` set seen"
        by (simp add: map_of_eq_None_iff)
      show ?thesis
      proof (cases "assertUniqueResults component results = None \<and> \<not> isl (marshal results)")
        case True
        then obtain encoded where e: "marshal results = Inr encoded"
          by (metis sum.collapse(2))
        have "render_loop marshal seen data ((component, results) # rest) =
          render_loop marshal (AList.update (componentBasename component) component seen)
            (AList.update (data_key component) encoded data) rest"
          using False None True e by (simp add: Let_def data_key_def)
        moreover note 2(2) [OF refl False None _ e]
        ultimately show ?thesis
          using False True fresh e
          by (auto simp: assertUniqueResults_None renderable_def rendered_def dom_update data_key_def)
      next
        case bad: False
        then show ?thesis
          using False None
          by (auto simp: assertUniqueResults_None renderable_def Let_def isl_def split: option.splits sum.splits)
      qed
    qed
  qed
qed

lemma rendered_simps [simp]:
  "rendered marshal [] data = data"
  "rendered marshal ((c, rs) # es) data =
     (if componentBasename c = [] then rendered marshal es data
      else rendered marshal es (AList.update (data_key c) (projr (marshal rs)) data))"
  by (simp_all add: rendered_def)

lemma map_of_rendered_other:
  "k \<notin> data_key ` fst ` set (kept es) \<Longrightarrow> map_of (rendered marshal es data) k = map_of data k"
proof (induction es arbitrary: data)
  case (Cons e es)
  then show ?case by (cases e) (auto simp: update_conv' split: if_splits)
qed simp

lemma map_of_rendered_key:
  assumes "distinct (map (componentBasename \<circ> fst) (kept es))" and "(c, rs) \<in> set (kept es)"
  shows "map_of (rendered marshal es data) (data_key c) = Some (projr (marshal rs))"
  using assms
proof (induction es arbitrary: data)
  case (Cons e es)
  obtain c' rs' where e: "e = (c', rs')" by (cases e)
  show ?case
  proof (cases "(c, rs) \<in> set (kept es)")
    case True
    with Cons e show ?thesis by (auto split: if_splits)
  next
    case False
    with Cons.prems e have "c' = c" "rs' = rs" "componentBasename c \<noteq> []" by (auto split: if_splits)
    with Cons.prems e have "data_key c \<notin> data_key ` fst ` set (kept es)" by force
    with e \<open>c' = c\<close> \<open>rs' = rs\<close> \<open>componentBasename c \<noteq> []\<close> show ?thesis
      by (simp add: map_of_rendered_other update_conv')
  qed
qed simp

lemma renderData_Inr:
  "renderData marshal vd = Inr d \<longleftrightarrow>
     renderable marshal (vdDeploymentResults vd) \<and>
     d = rendered marshal (vdDeploymentResults vd)
       [(FeaturesConfigKey, rawOrNull (vdFeatures vd)), (AuthoredConfigKey, rawOrNull (vdAuthored vd))]"
  by (simp add: renderData_def render_loop_Inr)

lemma set_kept: "(c, rs) \<in> set (kept es) \<longleftrightarrow> (c, rs) \<in> set es \<and> componentBasename c \<noteq> []"
  by (auto simp: kept_def)

text \<open>
  C5. Rendering succeeds exactly when no two components with a non-empty base name share it, the
  results of each such component have pairwise different (name, type) keys, and their encoding
  succeeds.
\<close>

theorem renderData_succeeds_iff:
  "(\<exists>d. renderData marshal vd = Inr d) \<longleftrightarrow>
     distinct (map (componentBasename \<circ> fst) (kept (vdDeploymentResults vd))) \<and>
     list_all (\<lambda>(c, rs). distinct (map result_key rs) \<and> \<not> isl (marshal rs)) (kept (vdDeploymentResults vd))"
  by (simp add: renderData_Inr renderable_def list_all_iff)

lemma renderData_keys:
  assumes "renderData marshal vd = Inr d"
  shows "map_of d FeaturesConfigKey = Some (rawOrNull (vdFeatures vd))"
    and "map_of d AuthoredConfigKey = Some (rawOrNull (vdAuthored vd))"
    and "list_all (\<lambda>(c, rs). map_option Inr (map_of d (data_key c)) = Some (marshal rs)) (kept (vdDeploymentResults vd))"
    and "dom (map_of d) = {FeaturesConfigKey, AuthoredConfigKey} \<union>
      data_key ` fst ` set (kept (vdDeploymentResults vd))"
proof -
  let ?es = "vdDeploymentResults vd"
  let ?init = "[(FeaturesConfigKey, rawOrNull (vdFeatures vd)), (AuthoredConfigKey, rawOrNull (vdAuthored vd))]"
  from assms have ok: "renderable marshal ?es" and d: "d = rendered marshal ?es ?init"
    by (simp_all add: renderData_Inr)
  have other: "map_of d k = map_of ?init k" if "k \<notin> data_key ` fst ` set (kept ?es)" for k
    using that by (simp add: d map_of_rendered_other)
  have key: "map_of d (data_key c) = Some (projr (marshal rs)) \<and> Inr (projr (marshal rs)) = marshal rs"
    if "(c, rs) \<in> set (kept ?es)" for c rs
    using ok that unfolding d renderable_def by (force intro: map_of_rendered_key)
  have keys: "k \<in> dom (map_of d) \<longleftrightarrow> k \<in> {FeaturesConfigKey, AuthoredConfigKey} \<union> data_key ` fst ` set (kept ?es)" for k
  proof (cases "k \<in> data_key ` fst ` set (kept ?es)")
    case True
    then obtain c rs where "(c, rs) \<in> set (kept ?es)" and "k = data_key c" by force
    then show ?thesis using key [of c rs] True by auto
  next
    case False
    then show ?thesis by (auto simp: other split: if_splits)
  qed
  have "FeaturesConfigKey \<notin> data_key ` fst ` set (kept ?es)" "AuthoredConfigKey \<notin> data_key ` fst ` set (kept ?es)"
    by (metis data_key_other imageE)+
  then show "map_of d FeaturesConfigKey = Some (rawOrNull (vdFeatures vd))"
    and "map_of d AuthoredConfigKey = Some (rawOrNull (vdAuthored vd))"
    by (simp_all add: other)
  show "list_all (\<lambda>(c, rs). map_option Inr (map_of d (data_key c)) = Some (marshal rs)) (kept ?es)"
    using key by (auto simp: list_all_iff)
  show "dom (map_of d) = {FeaturesConfigKey, AuthoredConfigKey} \<union> data_key ` fst ` set (kept ?es)"
    by (rule set_eqI) (rule keys)
qed


definition sample_VectorData :: VectorData where
  "sample_VectorData = ObjectMeta.extend (new_meta ''landscape'' ''vd-1'')
     (VectorData.fields (Some ''{}'') None
        [(''github.com/acme/shop'', [\<lparr>drName = ''api'', drType = ''http-k8s-service'', drSpec = ''{}''\<rparr>])] [])"

lemmas sample_VectorData_simps =
  sample_VectorData_def new_meta_def ObjectMeta.defs VectorData.defs

lemma sample_VectorData_sel [simp]:
  "vdFeatures sample_VectorData = Some ''{}''" "vdAuthored sample_VectorData = None"
  "vdDeploymentResults sample_VectorData =
     [(''github.com/acme/shop'', [\<lparr>drName = ''api'', drType = ''http-k8s-service'', drSpec = ''{}''\<rparr>])]"
  "vdConditions sample_VectorData = []"
  "Name sample_VectorData = ''vd-1''" "Namespace sample_VectorData = ''landscape''"
  "Finalizers sample_VectorData = []" "DeletionTimestamp sample_VectorData = None"
  by (simp_all add: sample_VectorData_simps)

definition pair_VectorData :: VectorData where
  "pair_VectorData = sample_VectorData\<lparr>vdDeploymentResults := [(''a'', []), (''b'', [])]\<rparr>"

lemma pair_VectorData_sel [simp]: "vdDeploymentResults pair_VectorData = [(''a'', []), (''b'', [])]"
  by (simp add: pair_VectorData_def)

lemma sample_basename [simp]:
  "componentBasename ''github.com/acme/shop'' = ''shop''"
  "componentBasename ''a'' = ''a''" "componentBasename ''b'' = ''b''"
  by code_simp+


lemma kept_perm:
  assumes "mset es = mset es'"
  shows "mset (kept es) = mset (kept es')" and "set (kept es) = set (kept es')"
proof -
  show *: "mset (kept es) = mset (kept es')"
    unfolding kept_def mset_filter by (simp add: assms)
  show "set (kept es) = set (kept es')" by (rule mset_eq_setD [OF *])
qed

lemma renderable_perm:
  assumes "mset es = mset es'"
  shows "renderable marshal es = renderable marshal es'"
proof -
  have "mset (map f (kept es)) = mset (map f (kept es'))" for f :: "string \<times> DeploymentResult list \<Rightarrow> string"
    by (simp add: kept_perm [OF assms])
  then have "distinct (map f (kept es)) = distinct (map f (kept es'))" for f :: "string \<times> DeploymentResult list \<Rightarrow> string"
    by (rule mset_eq_imp_distinct_iff)
  then show ?thesis unfolding renderable_def kept_perm(2) [OF assms] by simp
qed

lemma map_of_rendered_perm:
  assumes "mset es = mset es'" and "renderable marshal es"
  shows "map_of (rendered marshal es data) = map_of (rendered marshal es' data)"
proof
  fix k
  note kept = kept_perm(2) [OF assms(1)]
  show "map_of (rendered marshal es data) k = map_of (rendered marshal es' data) k"
  proof (cases "k \<in> data_key ` fst ` set (kept es)")
    case True
    then obtain c rs where c: "(c, rs) \<in> set (kept es)" and k: "k = data_key c" by force
    have "renderable marshal es'" using assms(2) by (simp only: renderable_perm [OF assms(1)])
    moreover from c have "(c, rs) \<in> set (kept es')" by (simp only: kept)
    ultimately show ?thesis
      using assms(2) c by (simp add: k renderable_def map_of_rendered_key)
  next
    case False
    with kept show ?thesis by (simp add: map_of_rendered_other)
  qed
qed

text \<open>
  C6. The unspecified iteration order of the deployment-results map affects neither whether
  rendering succeeds nor the data it produces.
\<close>

theorem renderData_order_irrelevant:
  assumes "mset es = mset (vdDeploymentResults vd)"
  shows "case renderData marshal vd of
      Inl _ \<Rightarrow> isl (renderData marshal (vd\<lparr>vdDeploymentResults := es\<rparr>))
    | Inr d \<Rightarrow> \<exists>d'. renderData marshal (vd\<lparr>vdDeploymentResults := es\<rparr>) = Inr d' \<and> map_of d' = map_of d"
proof (cases "renderData marshal vd")
  case (Inl e)
  have "renderData marshal (vd\<lparr>vdDeploymentResults := es\<rparr>) \<noteq> Inr d" for d
  proof
    assume "renderData marshal (vd\<lparr>vdDeploymentResults := es\<rparr>) = Inr d"
    then have "renderable marshal (vdDeploymentResults vd)"
      using renderable_perm [OF assms] by (simp add: renderData_Inr)
    then have "\<exists>d. renderData marshal vd = Inr d" by (simp add: renderData_Inr)
    with Inl show False by simp
  qed
  then have "isl (renderData marshal (vd\<lparr>vdDeploymentResults := es\<rparr>))" by (metis sum.collapse(2))
  with Inl show ?thesis by simp
next
  case (Inr d)
  let ?init = "[(FeaturesConfigKey, rawOrNull (vdFeatures vd)), (AuthoredConfigKey, rawOrNull (vdAuthored vd))]"
  from Inr have ok: "renderable marshal es" and d: "d = rendered marshal (vdDeploymentResults vd) ?init"
    by (simp_all add: renderData_Inr renderable_perm [OF assms])
  then have "renderData marshal (vd\<lparr>vdDeploymentResults := es\<rparr>) = Inr (rendered marshal es ?init)"
    by (simp add: renderData_Inr)
  moreover have "map_of (rendered marshal es ?init) = map_of d"
    unfolding d by (rule map_of_rendered_perm [OF assms ok])
  ultimately show ?thesis using Inr by simp
qed

theorem renderData_order_irrelevant_witness:
  "\<exists>d d'. renderData (\<lambda>rs. Inr ''[]'') pair_VectorData = Inr d \<and>
     renderData (\<lambda>rs. Inr ''[]'') (pair_VectorData\<lparr>vdDeploymentResults := [(''b'', []), (''a'', [])]\<rparr>) = Inr d' \<and>
     map_of d' = map_of d"
proof -
  have p: "mset [(''b'', []), (''a'', [])] = mset (vdDeploymentResults pair_VectorData)"
    by (simp add: add_mset_commute)
  have "\<exists>d. renderData (\<lambda>rs. Inr ''[]'') pair_VectorData = Inr d"
    by (simp add: renderData_Inr renderable_def)
  with renderData_order_irrelevant [OF p, of "\<lambda>rs. Inr ''[]''"] show ?thesis by auto
qed

section \<open>What a reconciliation does to the cluster\<close>

lemma setReady_trace:
  assumes "setReady E vd status reason message w = ((e, vd'), w')"
  shows "\<exists>new r. trace w' = trace w @ [EvPatchVectorDataStatus vd new r]"
  using assms unfolding setReady_def
  by (auto simp: Let_def dest!: call_traceD set_condition_eqD(1) split: prod.splits sum.splits)

lemma materialize_trace:
  assumes "materialize E vd data w = (ret, w')"
  shows "\<exists>g post. trace w' = trace w @ EvGetConfigMap (vd_cm_key vd) g # post \<and>
    ((\<exists>new r. post = [EvPatchVectorDataStatus vd new r]) \<or>
     (\<exists>err c new r rec. g = Inl err \<and> IsNotFound err \<and>
        post = EvCreateConfigMap (new_ConfigMap vd data) c # EvPatchVectorDataStatus vd new r # rec \<and>
        (rec = [] \<or> (\<exists>a b. rec = [EvVectorDataRecorded a b]))))"
  using assms unfolding materialize_def
  by (auto simp: Let_def emit_trace dest!: call_traceD setReady_trace split: prod.splits sum.splits option.splits if_splits)

lemma handleDeletion_trace:
  assumes "handleDeletion E vd w = (ret, w')"
  shows "trace w' = trace w \<and> \<not> ContainsFinalizer (Lib E) (Finalizers vd) VectorDataFinalizer \<or>
    ContainsFinalizer (Lib E) (Finalizers vd) VectorDataFinalizer \<and>
    (\<exists>r post. trace w' = trace w @ EvDeleteConfigMap (vd_cm_key vd) r # post \<and>
       (post = [] \<or> hard_error r = None \<and>
         (\<exists>p. post = [EvPatchVectorData vd
            (vd\<lparr>Finalizers := RemoveFinalizer (Lib E) (Finalizers vd) VectorDataFinalizer\<rparr>) p])))"
  using assms unfolding handleDeletion_def
  by (auto simp: Let_def dest!: call_traceD split: prod.splits sum.splits option.splits if_splits)

lemma ensureFinalizer_trace:
  assumes "ensureFinalizer E vd w = (f, w')"
  shows "trace w' = trace w \<and> f = Inr vd \<and> ContainsFinalizer (Lib E) (Finalizers vd) VectorDataFinalizer \<or>
    trace w' = trace w @ [EvPatchVectorData vd
      (vd\<lparr>Finalizers := AddFinalizer (Lib E) (Finalizers vd) VectorDataFinalizer\<rparr>) f]"
  using assms unfolding ensureFinalizer_def
  by (auto simp: Let_def dest!: call_traceD split: if_splits)

lemma VectorData_Reconcile_trace:
  assumes "VectorData_Reconcile E req w = (ret, w')"
  obtains (NoObject) e where "trace w' = trace w @ [EvGetVectorData req (Inl e)]"
    | (Deleting) vd w1 where "DeletionTimestamp vd \<noteq> None"
        "trace w1 = trace w @ [EvGetVectorData req (Inr vd)]" "handleDeletion E vd w1 = (ret, w')"
    | (NoFinalizer) vd w1 e where "DeletionTimestamp vd = None"
        "trace w1 = trace w @ [EvGetVectorData req (Inr vd)]" "ensureFinalizer E vd w1 = (Inl e, w')"
    | (RenderFailed) vd0 w1 vd w2 new r where "DeletionTimestamp vd0 = None"
        "trace w1 = trace w @ [EvGetVectorData req (Inr vd0)]" "ensureFinalizer E vd0 w1 = (Inr vd, w2)"
        "trace w' = trace w2 @ [EvPatchVectorDataStatus vd new r]"
    | (Rendered) vd0 w1 vd w2 d where "DeletionTimestamp vd0 = None"
        "trace w1 = trace w @ [EvGetVectorData req (Inr vd0)]" "ensureFinalizer E vd0 w1 = (Inr vd, w2)"
        "renderData (MarshalResults E) vd = Inr d" "materialize E vd d w2 = (ret, w')"
proof -
  obtain g w1 where c: "call (GetVectorData E req) (EvGetVectorData req) w = (g, w1)" by fastforce
  note t = call_traceD [OF c]
  show thesis
  proof (cases g)
    case (Inl e)
    with assms c t NoObject show ?thesis by (auto simp: VectorData_Reconcile_def)
  next
    case (Inr vd0)
    show ?thesis
    proof (cases "DeletionTimestamp vd0 = None")
      case False
      with Inr assms c t Deleting show ?thesis by (auto simp: VectorData_Reconcile_def)
    next
      case True
      obtain f w2 where f: "ensureFinalizer E vd0 w1 = (f, w2)" by fastforce
      with Inr assms c t True NoFinalizer RenderFailed Rendered show ?thesis
        by (cases f; cases "renderData (MarshalResults E) (projr f)")
          (auto simp: VectorData_Reconcile_def split: prod.splits option.splits dest: setReady_trace)
    qed
  qed
qed

text \<open>The object carried the finalizer when it was read, or the API server has just accepted it.\<close>

definition finalizer_held :: "'s vd_env \<Rightarrow> NamespacedName \<Rightarrow> VectorData \<Rightarrow> vd_event list \<Rightarrow> bool" where
  "finalizer_held E req vd tr \<longleftrightarrow>
     EvGetVectorData req (Inr vd) \<in> set tr \<and> ContainsFinalizer (Lib E) (Finalizers vd) VectorDataFinalizer \<or>
     (\<exists>old. EvPatchVectorData old
        (old\<lparr>Finalizers := AddFinalizer (Lib E) (Finalizers old) VectorDataFinalizer\<rparr>) (Inr vd) \<in> set tr)"

text \<open>
  C2. Whenever a reconciliation asks for a ConfigMap to be created, the request directly follows
  a read of that very key answered NotFound, the VectorData is protected by the finalizer by then,
  and the ConfigMap is the immutable, labelled object that holds the rendered data.
\<close>

theorem VectorData_create_guarded:
  assumes "VectorData_Reconcile E req w = (ret, w')" and "trace w = []"
    and "trace w' = pre @ EvCreateConfigMap cm r # post"
  shows "\<exists>vd d err pre'. pre = pre' @ [EvGetConfigMap (vd_cm_key vd) (Inl err)] \<and> IsNotFound err \<and>
    finalizer_held E req vd pre' \<and> renderData (MarshalResults E) vd = Inr d \<and> cm = new_ConfigMap vd d"
  using assms(1)
proof (cases rule: VectorData_Reconcile_trace)
  case (NoObject e)
  with assms show ?thesis by (auto simp: trace_splits)
next
  case (Deleting vd w1)
  with assms handleDeletion_trace [OF Deleting(3)] show ?thesis
    by (auto simp: trace_splits)
next
  case (NoFinalizer vd w1 e)
  with assms ensureFinalizer_trace [OF NoFinalizer(3)] show ?thesis
    by (auto simp: trace_splits)
next
  case (RenderFailed vd0 w1 vd w2 new r)
  with assms ensureFinalizer_trace [OF RenderFailed(3)] show ?thesis
    by (auto simp: trace_splits)
next
  case (Rendered vd0 w1 vd w2 d)
  have held: "finalizer_held E req vd (trace w2)"
    using Rendered(2) assms(2) ensureFinalizer_trace [OF Rendered(3)]
    by (auto simp: finalizer_held_def)
  have fresh: "EvCreateConfigMap cm r \<notin> set (trace w2)"
    using Rendered(2) assms(2) ensureFinalizer_trace [OF Rendered(3)] by auto
  from materialize_trace [OF Rendered(5)] obtain g rest where
    m: "trace w' = trace w2 @ EvGetConfigMap (vd_cm_key vd) g # rest" and rest:
      "(\<exists>new r. rest = [EvPatchVectorDataStatus vd new r]) \<or>
       (\<exists>err c new r rec. g = Inl err \<and> IsNotFound err \<and>
          rest = EvCreateConfigMap (new_ConfigMap vd d) c # EvPatchVectorDataStatus vd new r # rec \<and>
          (rec = [] \<or> (\<exists>a b. rec = [EvVectorDataRecorded a b])))" by blast
  from m assms(3) fresh obtain zs where pre: "pre = trace w2 @ zs"
    and zs: "EvGetConfigMap (vd_cm_key vd) g # rest = zs @ EvCreateConfigMap cm r # post"
    by (metis event_after)
  from zs rest have "zs = [EvGetConfigMap (vd_cm_key vd) g] \<and> cm = new_ConfigMap vd d \<and>
      (\<exists>err. g = Inl err \<and> IsNotFound err)"
    by (auto simp: trace_splits)
  with pre held Rendered(4) show ?thesis by blast
qed

text \<open>
  C3. A reconciliation takes the finalizer off a VectorData only after the API server has
  confirmed that the ConfigMap of that object is deleted or does not exist; and it deletes a
  ConfigMap only on behalf of a VectorData that is itself being deleted.
\<close>

theorem VectorData_finalizer_after_delete:
  assumes lib: "meta_lib_ok (Lib E)"
    and "VectorData_Reconcile E req w = (ret, w')" and "trace w = []"
    and "trace w' = pre @ ev # post"
  shows "case ev of
      EvPatchVectorData old new r \<Rightarrow>
        ContainsFinalizer (Lib E) (Finalizers new) VectorDataFinalizer \<or>
        DeletionTimestamp old \<noteq> None \<and>
        (\<exists>d. EvDeleteConfigMap (vd_cm_key old) d \<in> set pre \<and> hard_error d = None)
    | EvDeleteConfigMap key r \<Rightarrow>
        (\<exists>vd. pre = [EvGetVectorData req (Inr vd)] \<and> DeletionTimestamp vd \<noteq> None \<and> key = vd_cm_key vd \<and>
          ContainsFinalizer (Lib E) (Finalizers vd) VectorDataFinalizer)
    | _ \<Rightarrow> True"
  using assms(2)
proof (cases rule: VectorData_Reconcile_trace)
  case (NoObject e)
  with assms(3,4) show ?thesis by (auto simp: trace_splits)
next
  case (Deleting vd w1)
  with assms(3,4) handleDeletion_trace [OF Deleting(3)] show ?thesis
    by (auto simp: trace_splits)
next
  case (NoFinalizer vd w1 e)
  with assms(3,4) ensureFinalizer_trace [OF NoFinalizer(3)] show ?thesis
    by (auto simp: trace_splits contains_add [OF lib])
next
  case (RenderFailed vd0 w1 vd w2 new r)
  with assms(3,4) ensureFinalizer_trace [OF RenderFailed(3)] show ?thesis
    by (auto simp: trace_splits contains_add [OF lib])
next
  case (Rendered vd0 w1 vd w2 d)
  from assms(4) have "ev \<in> set (trace w')" by simp
  with Rendered(2) assms(3) ensureFinalizer_trace [OF Rendered(3)] materialize_trace [OF Rendered(5)]
  show ?thesis by (auto simp: contains_add [OF lib])
qed

section \<open>Convergence on a store\<close>

text \<open>
  What the API server documents about its ConfigMaps, when nobody else writes to them meanwhile:
  \<open>view s\<close> is the set of stored ConfigMaps in state \<open>s\<close>. A read answers from the store, a create
  that succeeds stores the object, a delete that succeeds removes it (the ConfigMaps carry no
  finalizer), and calls about other objects do not touch it. A patch of the VectorData keeps its
  name, its namespace and its spec.
\<close>

definition cm_store_ok :: "'s vd_env \<Rightarrow> ('s \<Rightarrow> NamespacedName \<Rightarrow> ConfigMap option) \<Rightarrow> bool" where
  "cm_store_ok E view \<longleftrightarrow>
     (\<forall>k s. view (snd (GetConfigMap E k s)) = view s \<and>
        (case fst (GetConfigMap E k s) of Inr cm \<Rightarrow> view s k = Some cm | Inl e \<Rightarrow> IsNotFound e \<longrightarrow> view s k = None)) \<and>
     (\<forall>cm s. case fst (CreateConfigMap E cm s) of
          Inr cm' \<Rightarrow> view (snd (CreateConfigMap E cm s)) = (view s)(nsname (Namespace cm) (Name cm) \<mapsto> cm') \<and>
            cmData cm' = cmData cm \<and> cmImmutable cm' = cmImmutable cm
        | Inl e \<Rightarrow> view (snd (CreateConfigMap E cm s)) = view s) \<and>
     (\<forall>k s. case fst (DeleteConfigMap E k s) of
          Inr _ \<Rightarrow> view (snd (DeleteConfigMap E k s)) = (view s)(k := None)
        | Inl e \<Rightarrow> view (snd (DeleteConfigMap E k s)) = view s \<and> (IsNotFound e \<longrightarrow> view s k = None)) \<and>
     (\<forall>s. view (snd (Now E s)) = view s) \<and>
     (\<forall>k s. view (snd (GetVectorData E k s)) = view s) \<and>
     (\<forall>a b s. view (snd (PatchVectorDataStatus E a b s)) = view s) \<and>
     (\<forall>a b s. view (snd (PatchVectorData E a b s)) = view s \<and>
        (case fst (PatchVectorData E a b s) of Inl _ \<Rightarrow> True
         | Inr vd \<Rightarrow> Name vd = Name b \<and> Namespace vd = Namespace b \<and> vdFeatures vd = vdFeatures b \<and>
             vdAuthored vd = vdAuthored b \<and> vdDeploymentResults vd = vdDeploymentResults b))"

lemma store_get:
  assumes "cm_store_ok E view" and "call (GetConfigMap E k) ev w = (g, w')"
  shows "view (srv w') = view (srv w)"
    and "case g of Inr cm \<Rightarrow> view (srv w) k = Some cm | Inl e \<Rightarrow> IsNotFound e \<longrightarrow> view (srv w) k = None"
  using assms call_eqD [OF assms(2)] by (simp_all add: cm_store_ok_def)

lemma store_create:
  assumes "cm_store_ok E view" and "call (CreateConfigMap E cm) ev w = (c, w')"
  shows "case c of
      Inr cm' \<Rightarrow> view (srv w') = (view (srv w))(nsname (Namespace cm) (Name cm) \<mapsto> cm') \<and>
        cmData cm' = cmData cm \<and> cmImmutable cm' = cmImmutable cm
    | Inl e \<Rightarrow> view (srv w') = view (srv w)"
proof -
  from call_eqD [OF assms(2)] have eqs: "c = fst (CreateConfigMap E cm (srv w))"
    "srv w' = snd (CreateConfigMap E cm (srv w))" by auto
  show ?thesis using assms(1) unfolding cm_store_ok_def eqs by (elim conjE) (rule spec, erule spec)
qed

lemma store_delete:
  assumes "cm_store_ok E view" and "call (DeleteConfigMap E k) ev w = (d, w')" and "hard_error d = None"
  shows "view (srv w') = (view (srv w))(k := None)"
proof -
  from call_eqD [OF assms(2)] have eqs: "d = fst (DeleteConfigMap E k (srv w))"
    "srv w' = snd (DeleteConfigMap E k (srv w))" by auto
  have "case d of
      Inr _ \<Rightarrow> view (srv w') = (view (srv w))(k := None)
    | Inl e \<Rightarrow> view (srv w') = view (srv w) \<and> (IsNotFound e \<longrightarrow> view (srv w) k = None)"
    using assms(1) unfolding cm_store_ok_def eqs by (elim conjE) (rule spec, erule spec)
  with assms(3) show ?thesis by (cases d) auto
qed

lemma store_others:
  assumes "cm_store_ok E view"
  shows "view (snd (Now E s)) = view s" "view (snd (GetVectorData E k s)) = view s"
    "view (snd (PatchVectorDataStatus E a b s)) = view s" "view (snd (PatchVectorData E a b s)) = view s"
  using assms unfolding cm_store_ok_def by (elim conjE, simp)+

lemma store_patch:
  assumes "cm_store_ok E view" and "fst (PatchVectorData E a b s) = Inr vd"
  shows "Name vd = Name b" "Namespace vd = Namespace b" "renderData m vd = renderData m b"
proof -
  from assms(1) have "case fst (PatchVectorData E a b s) of Inl _ \<Rightarrow> True
      | Inr vd \<Rightarrow> Name vd = Name b \<and> Namespace vd = Namespace b \<and> vdFeatures vd = vdFeatures b \<and>
          vdAuthored vd = vdAuthored b \<and> vdDeploymentResults vd = vdDeploymentResults b"
    unfolding cm_store_ok_def by (elim conjE) blast
  with assms(2) show "Name vd = Name b" "Namespace vd = Namespace b" "renderData m vd = renderData m b"
    by (simp_all add: renderData_def)
qed

lemma setReady_store:
  assumes "cm_store_ok E view" and "setReady E vd st reason msg w = (x, w')"
  shows "view (srv w') = view (srv w)"
  using assms(2) store_others [OF assms(1)] unfolding setReady_def set_condition_def
  by (auto simp: Let_def dest!: call_eqD silent_eqD split: prod.splits sum.splits)

lemma materialize_store:
  assumes ok: "cm_store_ok E view" and m: "materialize E vd d w = ((res, None), w')"
  shows "case view (srv w) (vd_cm_key vd) of
      Some cm \<Rightarrow> view (srv w') = view (srv w)
    | None \<Rightarrow> \<exists>cm. view (srv w') = (view (srv w))(vd_cm_key vd \<mapsto> cm) \<and>
        cmData cm = d \<and> cmImmutable cm = Some True"
proof -
  obtain g w1 where g: "call (GetConfigMap E (vd_cm_key vd)) (EvGetConfigMap (vd_cm_key vd)) w = (g, w1)"
    by fastforce
  note get = store_get [OF ok g]
  show ?thesis
  proof (cases g)
    case (Inr existing)
    with m g get show ?thesis
      by (auto simp: materialize_def split: prod.splits dest: setReady_store [OF ok])
  next
    case (Inl err)
    let ?cm = "new_ConfigMap vd d"
    obtain c w2 where c: "call (CreateConfigMap E ?cm) (EvCreateConfigMap ?cm) w1 = (c, w2)" by fastforce
    from m g Inl c have nf: "IsNotFound err"
      by (auto simp: materialize_def Let_def split: prod.splits if_splits)
    from m g Inl c nf obtain cm' where cm': "c = Inr cm'" and w': "view (srv w') = view (srv w2)"
      by (auto simp: materialize_def Let_def emit_srv split: prod.splits sum.splits option.splits dest!: setReady_store [OF ok])
    have "nsname (Namespace ?cm) (Name ?cm) = vd_cm_key vd" "cmData ?cm = d" "cmImmutable ?cm = Some True"
      by (simp_all add: new_ConfigMap_def vd_cm_key_def new_meta_def ObjectMeta.defs ConfigMap.defs)
    with store_create [OF ok c] cm' w' get Inl nf show ?thesis by auto
  qed
qed

lemma handleDeletion_store:
  assumes ok: "cm_store_ok E view" and h: "handleDeletion E vd w = ((res, None), w')"
    and f: "ContainsFinalizer (Lib E) (Finalizers vd) VectorDataFinalizer"
  shows "view (srv w') = (view (srv w))(vd_cm_key vd := None)"
proof -
  obtain r w1 where r: "call (DeleteConfigMap E (vd_cm_key vd)) (EvDeleteConfigMap (vd_cm_key vd)) w = (r, w1)"
    by fastforce
  with h f have "hard_error r = None"
    by (auto simp: handleDeletion_def split: option.splits)
  with r h f store_delete [OF ok r] store_others [OF ok] show ?thesis
    by (auto simp: handleDeletion_def Let_def split: prod.splits sum.splits dest!: call_eqD)
qed

lemma ensureFinalizer_store:
  assumes ok: "cm_store_ok E view" and e: "ensureFinalizer E vd w = (Inr vd', w')"
  shows "view (srv w') = view (srv w)" "vd_cm_key vd' = vd_cm_key vd"
    "renderData m vd' = renderData m vd"
proof -
  show "view (srv w') = view (srv w)"
    using e store_others [OF ok] by (auto simp: ensureFinalizer_def Let_def split: if_splits dest!: call_eqD)
  have "vd_cm_key vd' = vd_cm_key vd \<and> renderData m vd' = renderData m vd"
    using e store_patch [OF ok, of _ _ _ vd']
    by (auto simp: ensureFinalizer_def Let_def vd_cm_key_def renderData_def split: if_splits dest!: call_eqD)
  then show "vd_cm_key vd' = vd_cm_key vd" "renderData m vd' = renderData m vd" by simp_all
qed

text \<open>
  C1. A reconciliation that returns no error has done its work on the store: for a live VectorData
  an existing ConfigMap is left exactly as it is and a missing one now exists, immutable, with the
  rendered data; for a VectorData under deletion that holds the finalizer its ConfigMap is gone.
  No other ConfigMap has changed.
\<close>

theorem VectorData_Reconcile_converges:
  assumes ok: "cm_store_ok E view"
    and r: "VectorData_Reconcile E req w = ((res, None), w')"
    and g: "fst (GetVectorData E req (srv w)) = Inr vd"
    and f: "DeletionTimestamp vd \<noteq> None \<longrightarrow> ContainsFinalizer (Lib E) (Finalizers vd) VectorDataFinalizer"
  shows "if DeletionTimestamp vd \<noteq> None then view (srv w') = (view (srv w))(vd_cm_key vd := None)
    else case view (srv w) (vd_cm_key vd) of
        Some cm \<Rightarrow> view (srv w') = view (srv w)
      | None \<Rightarrow> \<exists>cm d. renderData (MarshalResults E) vd = Inr d \<and>
          view (srv w') = (view (srv w))(vd_cm_key vd \<mapsto> cm) \<and> cmData cm = d \<and> cmImmutable cm = Some True"
proof -
  obtain g' w1 where c: "call (GetVectorData E req) (EvGetVectorData req) w = (g', w1)" by fastforce
  from call_eqD [OF c] g store_others [OF ok]
  have g': "g' = Inr vd" and w1: "view (srv w1) = view (srv w)" by auto
  show ?thesis
  proof (cases "DeletionTimestamp vd = None")
    case False
    with r c g' have "handleDeletion E vd w1 = ((res, None), w')"
      by (simp add: VectorData_Reconcile_def)
    from handleDeletion_store [OF ok this] f False w1 show ?thesis by simp
  next
    case True
    obtain e w2 where e: "ensureFinalizer E vd w1 = (e, w2)" by fastforce
    with r c g' True obtain vd' d where vd': "e = Inr vd'"
      and d: "renderData (MarshalResults E) vd' = Inr d" and m: "materialize E vd' d w2 = ((res, None), w')"
      by (auto simp: VectorData_Reconcile_def split: sum.splits prod.splits option.splits)
    note st = ensureFinalizer_store [OF ok e [unfolded vd']]
    from materialize_store [OF ok m] d True w1 st show ?thesis
      by (auto split: option.splits)
  qed
qed

text \<open>A small cluster: one VectorData and a list of ConfigMaps.\<close>

record vd_cluster =
  clVectorData :: VectorData
  clConfigMaps :: "(NamespacedName \<times> ConfigMap) list"

definition plain_vd_env :: "vd_cluster vd_env" where
  "plain_vd_env =
     \<lparr>Lib = plain_lib, Api = plain_api, Now = (\<lambda>s. (0, s)),
      MarshalResults = (\<lambda>rs. Inr ''[]''),
      GetVectorData = (\<lambda>k s. (Inr (clVectorData s), s)),
      PatchVectorData = (\<lambda>old new s. (Inr new, s\<lparr>clVectorData := new\<rparr>)),
      PatchVectorDataStatus = (\<lambda>old new s. (Inr new, s\<lparr>clVectorData := new\<rparr>)),
      GetConfigMap = (\<lambda>k s. (case map_of (clConfigMaps s) k of
          Some cm \<Rightarrow> Inr cm | None \<Rightarrow> Inl (ErrApi ReasonNotFound ''not found''), s)),
      CreateConfigMap = (\<lambda>cm s.
        (Inr cm, s\<lparr>clConfigMaps := AList.update (nsname (Namespace cm) (Name cm)) cm (clConfigMaps s)\<rparr>)),
      DeleteConfigMap = (\<lambda>k s. (Inr (), s\<lparr>clConfigMaps := AList.delete k (clConfigMaps s)\<rparr>))\<rparr>"

lemma plain_vd_env_sel [simp]:
  "Lib plain_vd_env = plain_lib" "MarshalResults plain_vd_env = (\<lambda>rs. Inr ''[]'')"
  "GetVectorData plain_vd_env = (\<lambda>k s. (Inr (clVectorData s), s))"
  by (simp_all add: plain_vd_env_def)

lemma plain_vd_env_store: "cm_store_ok plain_vd_env (\<lambda>s. map_of (clConfigMaps s))"
  unfolding cm_store_ok_def plain_vd_env_def
  by (intro conjI allI) (simp_all add: update_conv' delete_conv' IsNotFound_def split: option.split)

definition sample_vd_world :: "vd_cluster vd_world" where
  "sample_vd_world = \<lparr>srv = \<lparr>clVectorData = sample_VectorData, clConfigMaps = []\<rparr>, trace = []\<rparr>"

definition dying_VectorData :: VectorData where
  "dying_VectorData = sample_VectorData\<lparr>Finalizers := [VectorDataFinalizer], DeletionTimestamp := Some 1\<rparr>"

definition dying_vd_world :: "vd_cluster vd_world" where
  "dying_vd_world = \<lparr>srv = \<lparr>clVectorData = dying_VectorData, clConfigMaps = []\<rparr>, trace = []\<rparr>"

definition is_create :: "vd_event \<Rightarrow> bool" where
  "is_create ev = (case ev of EvCreateConfigMap cm r \<Rightarrow> True | _ \<Rightarrow> False)"

definition is_patch :: "vd_event \<Rightarrow> bool" where
  "is_patch ev = (case ev of EvPatchVectorData old new r \<Rightarrow> True | _ \<Rightarrow> False)"

definition sample_req :: NamespacedName where
  "sample_req = nsname ''landscape'' ''vd-1''"

lemma is_create_iff: "is_create ev \<longleftrightarrow> (\<exists>cm r. ev = EvCreateConfigMap cm r)"
  by (cases ev) (simp_all add: is_create_def)

lemma is_patch_iff: "is_patch ev \<longleftrightarrow> (\<exists>old new r. ev = EvPatchVectorData old new r)"
  by (cases ev) (simp_all add: is_patch_def)

lemma sample_run:
  "snd (fst (VectorData_Reconcile plain_vd_env sample_req sample_vd_world)) = None"
  "list_ex is_create (trace (snd (VectorData_Reconcile plain_vd_env sample_req sample_vd_world)))"
  "snd (fst (VectorData_Reconcile plain_vd_env sample_req dying_vd_world)) = None"
  "list_ex is_patch (trace (snd (VectorData_Reconcile plain_vd_env sample_req dying_vd_world)))"
  by code_simp+

theorem VectorData_create_guarded_witness:
  "\<exists>w' pre cm r post vd d err pre'.
     w' = snd (VectorData_Reconcile plain_vd_env sample_req sample_vd_world) \<and>
     trace w' = pre @ EvCreateConfigMap cm r # post \<and>
     pre = pre' @ [EvGetConfigMap (vd_cm_key vd) (Inl err)] \<and> finalizer_held plain_vd_env sample_req vd pre' \<and>
     cm = new_ConfigMap vd d"
proof -
  obtain ret w' where run: "VectorData_Reconcile plain_vd_env sample_req sample_vd_world = (ret, w')"
    by fastforce
  with sample_run(2) obtain pre cm r post where t: "trace w' = pre @ EvCreateConfigMap cm r # post"
    by (auto simp: is_create_iff dest!: list_ex_split)
  have "trace sample_vd_world = []" by (simp add: sample_vd_world_def)
  from VectorData_create_guarded [OF run this t] run t show ?thesis by (metis snd_conv)
qed

theorem VectorData_finalizer_after_delete_witness:
  "\<exists>w' pre old new r post.
     w' = snd (VectorData_Reconcile plain_vd_env sample_req dying_vd_world) \<and>
     trace w' = pre @ EvPatchVectorData old new r # post \<and>
     (VectorDataFinalizer \<in> set (Finalizers new) \<or>
      (\<exists>d. EvDeleteConfigMap (vd_cm_key old) d \<in> set pre \<and> hard_error d = None))"
proof -
  obtain ret w' where run: "VectorData_Reconcile plain_vd_env sample_req dying_vd_world = (ret, w')"
    by fastforce
  with sample_run(4) obtain pre old new r post where t: "trace w' = pre @ EvPatchVectorData old new r # post"
    by (auto simp: is_patch_iff dest!: list_ex_split)
  have "trace dying_vd_world = []" "meta_lib_ok (Lib plain_vd_env)"
    by (simp_all add: dying_vd_world_def plain_lib_ok)
  from VectorData_finalizer_after_delete [OF this(2) run this(1) t] have
    "ContainsFinalizer (Lib plain_vd_env) (Finalizers new) VectorDataFinalizer \<or>
     (\<exists>d. EvDeleteConfigMap (vd_cm_key old) d \<in> set pre \<and> hard_error d = None)" by auto
  then have "VectorDataFinalizer \<in> set (Finalizers new) \<or>
     (\<exists>d. EvDeleteConfigMap (vd_cm_key old) d \<in> set pre \<and> hard_error d = None)"
    by (simp add: plain_lib_def)
  with run t show ?thesis by (metis snd_conv)
qed

theorem VectorData_Reconcile_converges_witness:
  "\<exists>cm. map_of (clConfigMaps (srv (snd (VectorData_Reconcile plain_vd_env sample_req sample_vd_world))))
      (nsname ''landscape'' ''vector-data-vd-1'') = Some cm \<and> cmImmutable cm = Some True"
proof -
  obtain res w' where run: "VectorData_Reconcile plain_vd_env sample_req sample_vd_world = ((res, None), w')"
    using sample_run(1) by (metis prod.collapse)
  have g: "fst (GetVectorData plain_vd_env sample_req (srv sample_vd_world)) = Inr sample_VectorData"
    by (simp add: sample_vd_world_def)
  have k: "vd_cm_key sample_VectorData = nsname ''landscape'' ''vector-data-vd-1''"
    by (simp add: vd_cm_key_def ConfigMapPrefix_def)
  from VectorData_Reconcile_converges [OF plain_vd_env_store run g]
  have "\<exists>cm. map_of (clConfigMaps (srv w')) (nsname ''landscape'' ''vector-data-vd-1'') = Some cm \<and>
    cmImmutable cm = Some True"
    by (auto simp: k sample_vd_world_def)
  then show ?thesis by (simp add: run)
qed

end
