(* ===== verification/Config_Cache.thy ===== *)
theory Config_Cache
  imports Kube
begin

text \<open>
  The configuration cache of the vector-data service: the interface \<^verbatim>\<open>Cache\<close>
  (\<^verbatim>\<open>cmd/vectordata/cache.go\<close>), its implementation \<^verbatim>\<open>InMemoryCache\<close>
  (\<^verbatim>\<open>cmd/vectordata/in_memory_cache.go\<close>) and the event handlers of the ConfigMap informer that
  invalidate entries (\<^verbatim>\<open>cmd/vectordata/informer.go\<close>).

  The Go interface is a record of operations, \<open>Cache\<close>, which the service and the informer are
  given. The locale \<open>cache_contract\<close> states what they rely on; it is interpreted on
  \<open>InMemoryCache\<close>. Both operations hold the cache's lock throughout, so each is one atomic step.
\<close>

section \<open>The interface and its implementation\<close>

record 'c Cache =
  Cache_Get :: "'c \<Rightarrow> string \<Rightarrow> string option"
  Cache_Set :: "'c \<Rightarrow> string \<Rightarrow> string \<Rightarrow> 'c"

record InMemoryCache =
  store :: "string gomap"

definition InMemoryCache_Get :: "InMemoryCache \<Rightarrow> string \<Rightarrow> string option" where
  "InMemoryCache_Get c key = map_of (store c) key"

text \<open>Setting the empty string removes the entry.\<close>

definition InMemoryCache_Set :: "InMemoryCache \<Rightarrow> string \<Rightarrow> string \<Rightarrow> InMemoryCache" where
  "InMemoryCache_Set c key val =
     (if val = [] then
        (case map_of (store c) key of
           Some _ \<Rightarrow> c\<lparr>store := AList.delete key (store c)\<rparr>
         | None \<Rightarrow> c)
      else c\<lparr>store := AList.update key val (store c)\<rparr>)"

definition in_memory :: "InMemoryCache Cache" where
  "in_memory = \<lparr>Cache_Get = InMemoryCache_Get, Cache_Set = InMemoryCache_Set\<rparr>"

definition new_InMemoryCache :: InMemoryCache where
  "new_InMemoryCache = \<lparr>store = []\<rparr>"

section \<open>The informer's handlers\<close>

definition cmPrefix :: string where
  "cmPrefix = ''vector-data-''"

text \<open>
  An object delivered to the delete handler: a ConfigMap, a tombstone that wraps one, a tombstone
  that wraps something else, or neither. Of a ConfigMap the handlers read the metadata only.
\<close>

datatype informer_object =
    ObjConfigMap ObjectMeta
  | ObjTombstone "ObjectMeta option"
  | ObjOther

definition informer_UpdateFunc :: "'c Cache \<Rightarrow> ObjectMeta \<Rightarrow> ObjectMeta \<Rightarrow> 'c \<Rightarrow> 'c" where
  "informer_UpdateFunc C old new c =
     (if ResourceVersion old = ResourceVersion new then c
      else Cache_Set C c (TrimPrefix (Name new) cmPrefix) [])"

definition informer_DeleteFunc :: "'c Cache \<Rightarrow> informer_object \<Rightarrow> 'c \<Rightarrow> 'c" where
  "informer_DeleteFunc C obj c =
     (case obj of
        ObjConfigMap cm \<Rightarrow> Cache_Set C c (TrimPrefix (Name cm) cmPrefix) []
      | ObjTombstone (Some cm) \<Rightarrow> Cache_Set C c (TrimPrefix (Name cm) cmPrefix) []
      | ObjTombstone None \<Rightarrow> c
      | ObjOther \<Rightarrow> c)"

text \<open>
  The goroutine that waits for the first sync: \<open>synced\<close> is the answer of
  \<^verbatim>\<open>cache.WaitForCacheSync\<close>, \<open>cancelled\<close> says whether the application's context is done,
  \<open>deadline\<close> whether the sync context ran into its deadline, \<open>err\<close> is that context's error.
  The result is the error sent to the error channel, if any.
\<close>

definition informer_await_sync :: "bool \<Rightarrow> bool \<Rightarrow> bool \<Rightarrow> go_error \<Rightarrow> go_error option" where
  "informer_await_sync synced cancelled deadline err =
     (if \<not> synced then
        if cancelled then None
        else if deadline then Some (ErrMsg ''kubernetes informer cache failed to sync within timeout'')
        else Some (ErrWrap ''kubernetes informer cache failed to sync: '' err)
      else None)"

section \<open>The contract\<close>

locale cache_contract =
  fixes C :: "'c Cache" and inv :: "'c \<Rightarrow> bool"
  assumes get_set: "inv c \<Longrightarrow>
      Cache_Get C (Cache_Set C c k v) k' =
        (if k' = k then (if v = [] then None else Some v) else Cache_Get C c k')"
    and inv_set: "inv c \<Longrightarrow> inv (Cache_Set C c k v)"
    and no_empty: "inv c \<Longrightarrow> Cache_Get C c k \<noteq> Some []"
begin

lemma update_handler:
  assumes "inv c"
  shows "inv (informer_UpdateFunc C old new c)"
    and "Cache_Get C (informer_UpdateFunc C old new c) k =
      (if ResourceVersion old \<noteq> ResourceVersion new \<and> k = TrimPrefix (Name new) cmPrefix then None
       else Cache_Get C c k)"
  using assms by (auto simp: informer_UpdateFunc_def get_set inv_set)

lemma delete_handler:
  assumes "inv c"
  shows "inv (informer_DeleteFunc C obj c)"
    and "Cache_Get C (informer_DeleteFunc C (ObjConfigMap cm) c) k =
      (if k = TrimPrefix (Name cm) cmPrefix then None else Cache_Get C c k)"
    and "informer_DeleteFunc C (ObjTombstone (Some cm)) c = informer_DeleteFunc C (ObjConfigMap cm) c"
  using assms by (auto simp: informer_DeleteFunc_def get_set inv_set split: informer_object.split option.split)

end

definition cache_inv :: "InMemoryCache \<Rightarrow> bool" where
  "cache_inv c \<longleftrightarrow> distinct (map fst (store c)) \<and> [] \<notin> snd ` set (store c)"

lemma cache_inv_new: "cache_inv new_InMemoryCache"
  by (simp add: cache_inv_def new_InMemoryCache_def)

lemma in_memory_sel [simp]:
  "Cache_Get in_memory = InMemoryCache_Get" "Cache_Set in_memory = InMemoryCache_Set"
  by (simp_all add: in_memory_def)

lemma set_update_subset: "snd ` set (AList.update k v al) \<subseteq> insert v (snd ` set al)"
  by (induction al) auto

lemma set_delete_subset: "set (AList.delete k al) \<subseteq> set al"
  by (induction al) auto

interpretation mem: cache_contract in_memory cache_inv
proof
  fix c k v k'
  assume inv: "cache_inv c"
  show "Cache_Get in_memory (Cache_Set in_memory c k v) k' =
      (if k' = k then (if v = [] then None else Some v) else Cache_Get in_memory c k')"
    by (auto simp: InMemoryCache_Get_def InMemoryCache_Set_def delete_conv' update_conv' split: option.split)
  show "cache_inv (Cache_Set in_memory c k v)"
    using inv set_update_subset [of k v "store c"] set_delete_subset [of k "store c"]
    by (auto simp: cache_inv_def InMemoryCache_Set_def distinct_delete distinct_update
        split: option.split)
  show "Cache_Get in_memory c k \<noteq> Some []"
    using inv by (force simp: cache_inv_def InMemoryCache_Get_def dest: map_of_SomeD)
qed

end
