(* ===== verification/Go_Strings.thy ===== *)
theory Go_Strings
  imports Prelude
begin

text \<open>
  What the sources use of Go's \<^verbatim>\<open>strings\<close>, \<^verbatim>\<open>unicode/utf8\<close> and \<^verbatim>\<open>strconv\<close> packages, on strings
  as byte lists: UTF-8 decoding and encoding of characters, trimming of white space, comparison
  and conversion up to letter case, splitting and searching, and decimal integers.

  Characters are their code points (\<open>nat\<close>). A byte that is not part of a valid encoding decodes
  to U+FFFD and is skipped alone, as \<^verbatim>\<open>for range\<close> over a string does.
\<close>

section \<open>UTF-8\<close>

definition byte :: "char \<Rightarrow> nat" where
  "byte c = of_char c"

definition RuneError :: nat where
  "RuneError = 0xFFFD"

definition cont :: "char \<Rightarrow> bool" where
  "cont c \<longleftrightarrow> 0x80 \<le> byte c \<and> byte c \<le> 0xBF"

definition payload :: "char \<Rightarrow> nat" where
  "payload c = byte c - 0x80"

text \<open>\<^verbatim>\<open>utf8.DecodeRune\<close> on a non-empty string: the character and its width in bytes.\<close>

fun DecodeRune :: "string \<Rightarrow> nat \<times> nat" where
  "DecodeRune [] = (RuneError, 0)"
| "DecodeRune (a # s) =
     (let n = byte a in
      if n < 0x80 then (n, 1)
      else if 0xC2 \<le> n \<and> n \<le> 0xDF then
        (case s of b # _ \<Rightarrow> if cont b then ((n - 0xC0) * 64 + payload b, 2) else (RuneError, 1)
         | _ \<Rightarrow> (RuneError, 1))
      else if 0xE0 \<le> n \<and> n \<le> 0xEF then
        (case s of b # c # _ \<Rightarrow>
           if cont b \<and> cont c \<and> (n = 0xE0 \<longrightarrow> 0xA0 \<le> byte b) \<and> (n = 0xED \<longrightarrow> byte b \<le> 0x9F)
           then ((n - 0xE0) * 4096 + payload b * 64 + payload c, 3) else (RuneError, 1)
         | _ \<Rightarrow> (RuneError, 1))
      else if 0xF0 \<le> n \<and> n \<le> 0xF4 then
        (case s of b # c # d # _ \<Rightarrow>
           if cont b \<and> cont c \<and> cont d \<and> (n = 0xF0 \<longrightarrow> 0x90 \<le> byte b) \<and> (n = 0xF4 \<longrightarrow> byte b \<le> 0x8F)
           then ((n - 0xF0) * 262144 + payload b * 4096 + payload c * 64 + payload d, 4)
           else (RuneError, 1)
         | _ \<Rightarrow> (RuneError, 1))
      else (RuneError, 1))"

text \<open>The characters \<^verbatim>\<open>for range\<close> visits.\<close>

fun runes :: "string \<Rightarrow> nat list" where
  "runes [] = []"
| "runes (a # s) = fst (DecodeRune (a # s)) # runes (drop (snd (DecodeRune (a # s)) - 1) s)"

definition valid_rune :: "nat \<Rightarrow> bool" where
  "valid_rune r \<longleftrightarrow> r < 0xD800 \<or> (0xE000 \<le> r \<and> r \<le> 0x10FFFF)"

text \<open>\<^verbatim>\<open>utf8.AppendRune\<close>: surrogates and values beyond U+10FFFF are written as U+FFFD.\<close>

definition enc_rune :: "nat \<Rightarrow> string" where
  "enc_rune r =
     (if r < 0x80 then [char_of r]
      else if r < 0x800 then [char_of (0xC0 + r div 64), char_of (0x80 + r mod 64)]
      else if r < 0x10000 then
        [char_of (0xE0 + r div 4096), char_of (0x80 + r div 64 mod 64), char_of (0x80 + r mod 64)]
      else [char_of (0xF0 + r div 262144), char_of (0x80 + r div 4096 mod 64),
            char_of (0x80 + r div 64 mod 64), char_of (0x80 + r mod 64)])"

definition EncodeRune :: "nat \<Rightarrow> string" where
  "EncodeRune r = enc_rune (if valid_rune r then r else RuneError)"

definition encode_runes :: "nat list \<Rightarrow> string" where
  "encode_runes rs = concat (map EncodeRune rs)"

text \<open>\<^verbatim>\<open>utf8.ValidString\<close>\<close>

definition ValidString :: "string \<Rightarrow> bool" where
  "ValidString s \<longleftrightarrow> encode_runes (runes s) = s"

section \<open>Trimming, folding and searching\<close>

text \<open>A string cut into its characters, each with the bytes it occupies.\<close>

fun segments :: "string \<Rightarrow> (nat \<times> string) list" where
  "segments [] = []"
| "segments (a # s) =
     (let (r, w) = DecodeRune (a # s) in (r, take w (a # s)) # segments (drop (w - 1) s))"

text \<open>\<^verbatim>\<open>unicode.IsSpace\<close>\<close>

definition IsSpace :: "nat \<Rightarrow> bool" where
  "IsSpace r \<longleftrightarrow>
     (9 \<le> r \<and> r \<le> 13) \<or> r = 32 \<or> r = 0x85 \<or> r = 0xA0 \<or> r = 0x1680 \<or> (0x2000 \<le> r \<and> r \<le> 0x200A) \<or>
     r = 0x2028 \<or> r = 0x2029 \<or> r = 0x202F \<or> r = 0x205F \<or> r = 0x3000"

definition TrimSpace :: "string \<Rightarrow> string" where
  "TrimSpace s =
     concat (map snd (rev (dropWhile (\<lambda>(r, _). IsSpace r)
       (rev (dropWhile (\<lambda>(r, _). IsSpace r) (segments s))))))"

text \<open>
  The representative of a character under Unicode simple case folding: ASCII letters, and the two
  characters outside ASCII that fold to ASCII letters, are written out; \<open>foldU\<close> is the Unicode
  table for all others.
\<close>

definition fold_rune :: "(nat \<Rightarrow> nat) \<Rightarrow> nat \<Rightarrow> nat" where
  "fold_rune foldU r =
     (if 65 \<le> r \<and> r \<le> 90 then r + 32
      else if r < 0x80 then r
      else if r = 0x17F then 115
      else if r = 0x212A then 107
      else foldU r)"

text \<open>\<^verbatim>\<open>strings.EqualFold\<close>\<close>

definition EqualFold :: "(nat \<Rightarrow> nat) \<Rightarrow> string \<Rightarrow> string \<Rightarrow> bool" where
  "EqualFold foldU s t \<longleftrightarrow> map (fold_rune foldU) (runes s) = map (fold_rune foldU) (runes t)"

text \<open>\<^verbatim>\<open>strings.Split\<close> at a single byte, and \<^verbatim>\<open>strings.SplitN(s, sep, 2)\<close>.\<close>

fun SplitChar :: "string \<Rightarrow> char \<Rightarrow> string list" where
  "SplitChar [] c = [[]]"
| "SplitChar (x # s) c =
     (if x = c then [] # SplitChar s c
      else case SplitChar s c of [] \<Rightarrow> [[x]] | p # ps \<Rightarrow> (x # p) # ps)"

fun cut_at :: "string \<Rightarrow> string \<Rightarrow> string \<Rightarrow> string list" where
  "cut_at sep acc [] = [rev acc]"
| "cut_at sep acc (x # s) =
     (if HasPrefix (x # s) sep then [rev acc, drop (length sep) (x # s)] else cut_at sep (x # acc) s)"

definition SplitN2 :: "string \<Rightarrow> string \<Rightarrow> string list" where
  "SplitN2 s sep = cut_at sep [] s"

section \<open>Paths\<close>

text \<open>Package \<^verbatim>\<open>path\<close>: the stack holds the cleaned components, the last one first.\<close>

fun clean_stack :: "bool \<Rightarrow> string list \<Rightarrow> string list \<Rightarrow> string list" where
  "clean_stack rooted stack [] = stack"
| "clean_stack rooted stack (p # ps) =
     (if p = [] \<or> p = ''.'' then clean_stack rooted stack ps
      else if p = ''..'' then
        (case stack of
           [] \<Rightarrow> clean_stack rooted (if rooted then [] else [''..'']) ps
         | last_p # below \<Rightarrow>
             if last_p = ''..'' then clean_stack rooted (''..'' # stack) ps
             else clean_stack rooted below ps)
      else clean_stack rooted (p # stack) ps)"

definition path_Clean :: "string \<Rightarrow> string" where
  "path_Clean p =
     (let rooted = HasPrefix p ''/'';
          body = Join (rev (clean_stack rooted [] (SplitChar p (CHR ''/'')))) ''/''
      in if rooted then ''/'' @ body else if body = [] then ''.'' else body)"

text \<open>\<^verbatim>\<open>path.Split\<close>: everything up to and including the last slash, and the rest.\<close>

definition path_Split :: "string \<Rightarrow> string \<times> string" where
  "path_Split p =
     (let file = rev (takeWhile (\<lambda>c. c \<noteq> CHR ''/'') (rev p)) in (take (length p - length file) p, file))"

definition path_Dir :: "string \<Rightarrow> string" where
  "path_Dir p = path_Clean (fst (path_Split p))"

definition path_Base :: "string \<Rightarrow> string" where
  "path_Base p =
     (if p = [] then ''.''
      else let b = snd (path_Split (TrimRightChar p (CHR ''/''))) in if b = [] then ''/'' else b)"

section \<open>Decimal integers\<close>

definition is_digit :: "char \<Rightarrow> bool" where
  "is_digit c \<longleftrightarrow> 48 \<le> byte c \<and> byte c \<le> 57"

definition digits_val :: "string \<Rightarrow> nat" where
  "digits_val s = foldl (\<lambda>n c. n * 10 + (byte c - 48)) 0 s"

text \<open>
  \<^verbatim>\<open>strconv.ParseInt(s, 10, 64)\<close>, and \<^verbatim>\<open>strconv.Atoi\<close> on a 64-bit platform; \<open>None\<close> is any error.
\<close>

definition ParseInt64 :: "string \<Rightarrow> int option" where
  "ParseInt64 s =
     (let neg = HasPrefix s ''-''; ds = (if neg \<or> HasPrefix s ''+'' then tl s else s);
          v = (if neg then - int (digits_val ds) else int (digits_val ds))
      in if ds = [] \<or> \<not> list_all is_digit ds \<or> v < - (2 ^ 63) \<or> 2 ^ 63 \<le> v then None else Some v)"

section \<open>Lemmas\<close>

lemma byte_char_of [simp]: "(n::nat) < 256 \<Longrightarrow> byte (char_of n) = n"
  by (simp add: byte_def)

lemma char_of_byte [simp]: "char_of (byte c) = c"
  by (simp add: byte_def)

lemma byte_inj [simp]: "byte c = byte d \<longleftrightarrow> c = d"
  by (simp add: byte_def)

lemma byte_less [simp]: "byte c < 256"
  by (simp add: byte_def)

lemma cont_char_of [simp]: "(n::nat) < 64 \<Longrightarrow> cont (char_of (0x80 + n))"
  by (simp add: cont_def)

lemma payload_char_of [simp]: "(n::nat) < 64 \<Longrightarrow> payload (char_of (0x80 + n)) = n"
  by (simp add: payload_def)

lemma DecodeRune_width:
  "s \<noteq> [] \<Longrightarrow> 1 \<le> snd (DecodeRune s) \<and> snd (DecodeRune s) \<le> length s"
  by (cases s rule: DecodeRune.cases) (auto simp: Let_def split: list.splits)

lemma DecodeRune_enc3:
  assumes a: "a < 16" and b: "b < 64" and c: "c < 64" and "a = 0 \<Longrightarrow> 32 \<le> b" and "a = 13 \<Longrightarrow> b < 32"
  shows "DecodeRune (char_of (0xE0 + a) # char_of (0x80 + b) # char_of (0x80 + c) # s) =
    (a * 4096 + b * 64 + c, 3)"
  using assms by (auto simp: Let_def)

lemma DecodeRune_enc4:
  assumes a: "a \<le> 4" and b: "b < 64" and c: "c < 64" and d: "d < 64"
    and "a = 0 \<Longrightarrow> 16 \<le> b" and "a = 4 \<Longrightarrow> b < 16"
  shows "DecodeRune (char_of (0xF0 + a) # char_of (0x80 + b) # char_of (0x80 + c) # char_of (0x80 + d) # s) =
    (a * 262144 + b * 4096 + c * 64 + d, 4)"
  using assms by (auto simp: Let_def)

lemma div_64_64: "r div 4096 = r div 64 div 64" for r :: nat
  by (simp add: div_mult2_eq [symmetric])

lemma div_64_64_64: "r div 262144 = r div 64 div 64 div 64" for r :: nat
  by (simp add: div_mult2_eq [symmetric])

lemma DecodeRune_enc_rune:
  assumes "valid_rune r"
  shows "DecodeRune (enc_rune r @ s) = (r, length (enc_rune r))"
proof -
  define d q where "d = r mod 64" and "q = r div 64"
  define c p where "c = q mod 64" and "p = q div 64"
  define b a where "b = p mod 64" and "a = p div 64"
  have r: "r = 64 * q + d" "q = 64 * p + c" "p = 64 * a + b"
    by (simp_all add: d_def q_def c_def p_def b_def a_def)
  have lt: "d < 64" "c < 64" "b < 64" by (simp_all add: d_def c_def b_def)
  have e: "r mod 64 = d" "r div 64 = q" "r div 4096 = p" "r div 262144 = a" "q mod 64 = c" "p mod 64 = b"
    by (simp_all add: d_def q_def c_def p_def b_def a_def div_64_64 div_64_64_64)
  consider "r < 0x80" | "0x80 \<le> r" "r < 0x800" | "0x800 \<le> r" "r < 0x10000" | "0x10000 \<le> r" "r \<le> 0x10FFFF"
    using assms by (force simp: valid_rune_def)
  then show ?thesis
  proof cases
    case 1
    then show ?thesis by (simp add: enc_rune_def)
  next
    case 2
    then have "2 \<le> q" "q < 32" "q * 64 + d = r" using r lt by linarith+
    with 2 lt show ?thesis by (simp add: enc_rune_def e)
  next
    case 3
    have "p < 16" "p = 0 \<Longrightarrow> 32 \<le> c" "p * 4096 + c * 64 + d = r" using 3 r lt by linarith+
    moreover have "c < 32" if "p = 13"
      using that 3 r lt assms unfolding valid_rune_def by linarith
    ultimately show ?thesis using 3 DecodeRune_enc3 [of p c d s] lt
      by (simp add: enc_rune_def e del: DecodeRune.simps)
  next
    case 4
    have "a \<le> 4" "a = 0 \<Longrightarrow> 16 \<le> b" "a = 4 \<Longrightarrow> b < 16" "a * 262144 + b * 4096 + c * 64 + d = r"
      using 4 r lt by linarith+
    with 4 DecodeRune_enc4 [of a b c d s] lt show ?thesis
      by (simp add: enc_rune_def e del: DecodeRune.simps)
  qed
qed

lemma enc_rune_nonempty [simp]: "enc_rune r \<noteq> []"
  by (simp add: enc_rune_def)

lemma runes_enc_rune:
  assumes "valid_rune r"
  shows "runes (enc_rune r @ s) = r # runes s"
proof -
  obtain a t where e: "enc_rune r = a # t" by (cases "enc_rune r") auto
  with DecodeRune_enc_rune [OF assms, of s] show ?thesis by simp
qed

lemma runes_encode:
  assumes "list_all valid_rune rs"
  shows "runes (encode_runes rs) = rs"
  using assms by (induction rs) (auto simp: encode_runes_def EncodeRune_def runes_enc_rune)

lemma runes_ascii:
  assumes "list_all (\<lambda>c. byte c < 0x80) s"
  shows "runes s = map byte s"
  using assms by (induction s) auto

lemma segments_concat: "concat (map snd (segments s)) = s"
proof (induction s rule: segments.induct)
  case (2 a s)
  obtain r w where d: "DecodeRune (a # s) = (r, w)" by fastforce
  with DecodeRune_width [of "a # s"] have "1 \<le> w" by simp
  then have "take w (a # s) @ drop (w - 1) s = a # s" by (cases w) auto
  with 2 [of "(r, w)" r w] d show ?case by (simp add: Let_def)
qed simp

lemma TrimSpace_infix: "\<exists>p q. s = p @ TrimSpace s @ q"
proof -
  let ?P = "\<lambda>(r :: nat, _ :: string). IsSpace r"
  define t where "t = dropWhile ?P (segments s)"
  have s: "segments s = takeWhile ?P (segments s) @ t" by (simp add: t_def)
  have t: "t = rev (dropWhile ?P (rev t)) @ rev (takeWhile ?P (rev t))"
    by (metis rev_append rev_rev_ident takeWhile_dropWhile_id)
  have "s = concat (map snd (takeWhile ?P (segments s))) @ concat (map snd t)"
    by (metis s concat_append map_append segments_concat)
  also have "concat (map snd t) = TrimSpace s @ concat (map snd (rev (takeWhile ?P (rev t))))"
    by (subst t) (simp add: TrimSpace_def t_def)
  finally show ?thesis by blast
qed

lemma SplitChar_nonempty [simp]: "SplitChar s c \<noteq> []"
  by (induction s c rule: SplitChar.induct) (auto split: list.splits)

lemma Join_SplitChar: "Join (SplitChar s c) [c] = s"
proof (induction s c rule: SplitChar.induct)
  case (2 x s c)
  obtain p ps where p: "SplitChar s c = p # ps" by (cases "SplitChar s c") auto
  show ?case
  proof (cases "x = c")
    case True
    with 2 p show ?thesis by simp
  next
    case False
    with 2 p show ?thesis by (cases ps) auto
  qed
qed simp

lemma digits_val_snoc: "digits_val (s @ [c]) = digits_val s * 10 + (byte c - 48)"
  by (simp add: digits_val_def)

lemma nat_dec_digits: "list_all is_digit (nat_dec n) \<and> nat_dec n \<noteq> [] \<and> digits_val (nat_dec n) = n"
proof (induction n rule: nat_dec.induct)
  case (1 n)
  have d: "is_digit (char_of (48 + k)) \<and> byte (char_of (48 + k)) - 48 = k" if "k < 10" for k :: nat
    using that by (simp add: is_digit_def)
  show ?case
  proof (cases "n < 10")
    case True
    with d [of n] show ?thesis by (simp add: nat_dec.simps [of n] digits_val_def)
  next
    case False
    with 1 d [of "n mod 10"] show ?thesis
      by (simp add: nat_dec.simps [of n] digits_val_snoc)
  qed
qed

text \<open>Printing and reading back a 64-bit integer.\<close>

lemma ParseInt64_Itoa:
  "ParseInt64 (Itoa i) = (if - (2 ^ 63) \<le> i \<and> i < 2 ^ 63 then Some i else None)"
proof -
  have "\<not> HasPrefix (nat_dec n) ''-'' \<and> \<not> HasPrefix (nat_dec n) ''+''" for n
    using nat_dec_digits [of n] by (cases "nat_dec n") (auto simp: HasPrefix_def is_digit_def byte_def)
  with nat_dec_digits show ?thesis
    by (auto simp: ParseInt64_def Itoa_def Let_def HasPrefix_def)
qed

end
