(* ===== verification/JSON.thy ===== *)
theory JSON
  imports Go_Strings "HOL-Library.Char_ord" "HOL-Library.List_Lexorder" "HOL-Library.Multiset"
begin

text \<open>
  What the sources use of \<^verbatim>\<open>encoding/json\<close>.

  \<^item> \<open>json\<close> is a JSON text up to white space: strings and numbers are kept as they are written,
    so printing gives back what \<^verbatim>\<open>json.Compact\<close> gives;
  \<^item> \<open>jstep\<close> is the package's scanner, a push-down automaton that reads one byte at a time; the
    values it has read are built on its stack. \<open>json_parse\<close> reads a whole text
    (\<^verbatim>\<open>json.Unmarshal\<close>, \<^verbatim>\<open>json.Valid\<close>), \<open>json_first\<close> the first value of a stream
    (\<^verbatim>\<open>json.Decoder\<close>);
  \<^item> \<open>unquote\<close> and \<open>quote_string\<close> decode and encode string literals;
  \<^item> \<open>goval\<close> is the dynamic value an \<^verbatim>\<open>any\<close> holds; \<open>to_any\<close> is decoding into \<^verbatim>\<open>any\<close>, \<open>marshal\<close>
    is \<^verbatim>\<open>json.Marshal\<close> on such values. A float64 is represented by the text \<^verbatim>\<open>json.Marshal\<close>
    prints for it; the conversion from a literal to that text is the argument \<open>float\<close>, which is
    \<open>None\<close> for literals beyond the range of a float64.

  The main results: printing and parsing are inverse to each other, every text accepted by the
  scanner denotes a well-formed value, and decoding inverts encoding.
\<close>

section \<open>Values as written\<close>

datatype json =
    JNull
  | JBool bool
  | JNum string
  | JStr string
  | JArr "json list"
  | JObj "(string \<times> json) list"

fun json_print :: "json \<Rightarrow> string" where
  "json_print JNull = ''null''"
| "json_print (JBool b) = (if b then ''true'' else ''false'')"
| "json_print (JNum n) = n"
| "json_print (JStr s) = [dquote] @ s @ [dquote]"
| "json_print (JArr xs) = ''['' @ Join (map json_print xs) '','' @ '']''"
| "json_print (JObj kvs) =
     ''{'' @ Join (map (\<lambda>(k, v). [dquote] @ k @ [dquote] @ '':'' @ json_print v) kvs) '','' @ ''}''"

section \<open>The scanner\<close>

datatype strst = SPlain | SEsc | SHex nat

datatype numst = NNeg | NZero | NInt | NDot | NFrac | NExp | NExpSign | NExpDig

text \<open>What has been read of the enclosing values; elements and members are held last first.\<close>

datatype frame =
    FArr "json list"
  | FKey "(string \<times> json) list"
  | FVal "(string \<times> json) list" string

datatype mode =
    BeginValue
  | BeginValueOrEmpty
  | BeginKey
  | BeginKeyOrEmpty
  | InStr bool string strst
  | InNum string numst
  | InLit string json
  | EndKey string
  | EndValue json

type_synonym jstate = "mode \<times> frame list"

definition is_space :: "char \<Rightarrow> bool" where
  "is_space c \<longleftrightarrow> byte c = 32 \<or> byte c = 9 \<or> byte c = 10 \<or> byte c = 13"

definition is_hex :: "char \<Rightarrow> bool" where
  "is_hex c \<longleftrightarrow> is_digit c \<or> (97 \<le> byte c \<and> byte c \<le> 102) \<or> (65 \<le> byte c \<and> byte c \<le> 70)"

definition maxNestingDepth :: nat where
  "maxNestingDepth = 10000"

definition push :: "frame \<Rightarrow> mode \<Rightarrow> frame list \<Rightarrow> jstate option" where
  "push f m st = (if length st < maxNestingDepth then Some (m, f # st) else None)"

text \<open>The next state inside a number, or \<open>None\<close> if \<open>c\<close> does not continue it.\<close>

fun num_step :: "numst \<Rightarrow> char \<Rightarrow> numst option" where
  "num_step NNeg c = (if c = CHR ''0'' then Some NZero else if is_digit c then Some NInt else None)"
| "num_step NZero c =
     (if c = CHR ''.'' then Some NDot else if c = CHR ''e'' \<or> c = CHR ''E'' then Some NExp else None)"
| "num_step NInt c =
     (if is_digit c then Some NInt else if c = CHR ''.'' then Some NDot
      else if c = CHR ''e'' \<or> c = CHR ''E'' then Some NExp else None)"
| "num_step NDot c = (if is_digit c then Some NFrac else None)"
| "num_step NFrac c =
     (if is_digit c then Some NFrac else if c = CHR ''e'' \<or> c = CHR ''E'' then Some NExp else None)"
| "num_step NExp c =
     (if c = CHR ''+'' \<or> c = CHR ''-'' then Some NExpSign else if is_digit c then Some NExpDig else None)"
| "num_step NExpSign c = (if is_digit c then Some NExpDig else None)"
| "num_step NExpDig c = (if is_digit c then Some NExpDig else None)"

definition num_done :: "numst \<Rightarrow> bool" where
  "num_done n \<longleftrightarrow> n = NZero \<or> n = NInt \<or> n = NFrac \<or> n = NExpDig"

text \<open>A byte after a complete value.\<close>

fun end_value :: "json \<Rightarrow> frame list \<Rightarrow> char \<Rightarrow> jstate option" where
  "end_value v st c =
     (if is_space c then Some (EndValue v, st)
      else case st of
          FArr xs # st' \<Rightarrow>
            if c = CHR '','' then Some (BeginValue, FArr (v # xs) # st')
            else if c = CHR '']'' then Some (EndValue (JArr (rev (v # xs))), st')
            else None
        | FVal kvs k # st' \<Rightarrow>
            if c = CHR '','' then Some (BeginKey, FKey ((k, v) # kvs) # st')
            else if c = CHR ''}'' then Some (EndValue (JObj (rev ((k, v) # kvs))), st')
            else None
        | _ \<Rightarrow> None)"

fun begin_value :: "frame list \<Rightarrow> char \<Rightarrow> jstate option" where
  "begin_value st c =
     (if c = CHR ''{'' then push (FKey []) BeginKeyOrEmpty st
      else if c = CHR ''['' then push (FArr []) BeginValueOrEmpty st
      else if c = dquote then Some (InStr False [] SPlain, st)
      else if c = CHR ''-'' then Some (InNum [c] NNeg, st)
      else if c = CHR ''0'' then Some (InNum [c] NZero, st)
      else if is_digit c then Some (InNum [c] NInt, st)
      else if c = CHR ''t'' then Some (InLit ''rue'' (JBool True), st)
      else if c = CHR ''f'' then Some (InLit ''alse'' (JBool False), st)
      else if c = CHR ''n'' then Some (InLit ''ull'' JNull, st)
      else None)"

text \<open>Inside a string literal; \<open>raw\<close> is what has been read of it, last byte first.\<close>

fun in_string :: "bool \<Rightarrow> string \<Rightarrow> strst \<Rightarrow> char \<Rightarrow> mode option" where
  "in_string key raw SPlain c =
     (if c = dquote then Some (if key then EndKey (rev raw) else EndValue (JStr (rev raw)))
      else if c = bslash then Some (InStr key (c # raw) SEsc)
      else if byte c < 0x20 then None
      else Some (InStr key (c # raw) SPlain))"
| "in_string key raw SEsc c =
     (if c \<in> {CHR ''b'', CHR ''f'', CHR ''n'', CHR ''r'', CHR ''t'', bslash, CHR ''/'', dquote}
      then Some (InStr key (c # raw) SPlain)
      else if c = CHR ''u'' then Some (InStr key (c # raw) (SHex 4))
      else None)"
| "in_string key raw (SHex n) c =
     (if is_hex c then Some (InStr key (c # raw) (if n \<le> 1 then SPlain else SHex (n - 1))) else None)"

fun jstep :: "jstate \<Rightarrow> char \<Rightarrow> jstate option" where
  "jstep (BeginValue, st) c = (if is_space c then Some (BeginValue, st) else begin_value st c)"
| "jstep (BeginValueOrEmpty, st) c =
     (if is_space c then Some (BeginValueOrEmpty, st)
      else if c = CHR '']'' then (case st of FArr xs # st' \<Rightarrow> Some (EndValue (JArr []), st') | _ \<Rightarrow> None)
      else begin_value st c)"
| "jstep (BeginKeyOrEmpty, st) c =
     (if is_space c then Some (BeginKeyOrEmpty, st)
      else if c = CHR ''}'' then (case st of FKey kvs # st' \<Rightarrow> Some (EndValue (JObj []), st') | _ \<Rightarrow> None)
      else if c = dquote then Some (InStr True [] SPlain, st)
      else None)"
| "jstep (BeginKey, st) c =
     (if is_space c then Some (BeginKey, st)
      else if c = dquote then Some (InStr True [] SPlain, st)
      else None)"
| "jstep (InStr key raw s, st) c = map_option (\<lambda>m. (m, st)) (in_string key raw s c)"
| "jstep (InNum raw n, st) c =
     (case num_step n c of
        Some n' \<Rightarrow> Some (InNum (c # raw) n', st)
      | None \<Rightarrow> if num_done n then end_value (JNum (rev raw)) st c else None)"
| "jstep (InLit cs v, st) c =
     (case cs of
        [] \<Rightarrow> None
      | [d] \<Rightarrow> if c = d then Some (EndValue v, st) else None
      | d # ds \<Rightarrow> if c = d then Some (InLit ds v, st) else None)"
| "jstep (EndKey k, st) c =
     (if is_space c then Some (EndKey k, st)
      else if c = CHR '':'' then (case st of FKey kvs # st' \<Rightarrow> Some (BeginValue, FVal kvs k # st') | _ \<Rightarrow> None)
      else None)"
| "jstep (EndValue v, st) c = end_value v st c"

fun jrun :: "jstate \<Rightarrow> string \<Rightarrow> jstate option" where
  "jrun s [] = Some s"
| "jrun s (c # cs) = (case jstep s c of None \<Rightarrow> None | Some s' \<Rightarrow> jrun s' cs)"

definition jstart :: jstate where
  "jstart = (BeginValue, [])"

text \<open>At the end of the input the scanner is given one blank and must then hold one value.\<close>

definition jfinish :: "jstate \<Rightarrow> json option" where
  "jfinish s = (case jstep s (CHR '' '') of Some (EndValue v, []) \<Rightarrow> Some v | _ \<Rightarrow> None)"

definition json_parse :: "string \<Rightarrow> json option" where
  "json_parse s = Option.bind (jrun jstart s) jfinish"

definition Valid :: "string \<Rightarrow> bool" where
  "Valid s \<longleftrightarrow> json_parse s \<noteq> None"

section \<open>The first value of a stream\<close>

text \<open>
  Errors of \<^verbatim>\<open>json.Decoder.Decode\<close>: a syntax error with the number of bytes read, a stream that
  ends before or inside a value, or a value that does not fit the Go type.
\<close>

datatype json_error = SyntaxError nat | StreamEOF | UnexpectedEOF | UnmarshalTypeError

text \<open>The value that is complete when the next byte is \<open>c\<close>.\<close>

fun value_done :: "jstate \<Rightarrow> char \<Rightarrow> json option" where
  "value_done (EndValue v, []) c = Some v"
| "value_done (InNum raw n, []) c =
     (if num_step n c = None \<and> num_done n then Some (JNum (rev raw)) else None)"
| "value_done _ c = None"

fun jfirst :: "jstate \<Rightarrow> nat \<Rightarrow> string \<Rightarrow> json_error + json" where
  "jfirst s n [] =
     (case jfinish s of
        Some v \<Rightarrow> Inr v
      | None \<Rightarrow> Inl (if s = jstart then StreamEOF else UnexpectedEOF))"
| "jfirst s n (c # cs) =
     (case value_done s c of
        Some v \<Rightarrow> Inr v
      | None \<Rightarrow> (case jstep s c of None \<Rightarrow> Inl (SyntaxError (n + 1)) | Some s' \<Rightarrow> jfirst s' (n + 1) cs))"

definition json_first :: "string \<Rightarrow> json_error + json" where
  "json_first s = jfirst jstart 0 s"

declare begin_value.simps [simp del] end_value.simps [simp del]

section \<open>Well-formed values\<close>

fun str_scan :: "strst \<Rightarrow> string \<Rightarrow> strst option" where
  "str_scan s [] = Some s"
| "str_scan s (c # cs) =
     (case in_string False [] s c of Some (InStr _ _ s') \<Rightarrow> str_scan s' cs | _ \<Rightarrow> None)"

definition raw_ok :: "string \<Rightarrow> bool" where
  "raw_ok raw \<longleftrightarrow> str_scan SPlain raw = Some SPlain"

fun num_scan :: "numst \<Rightarrow> string \<Rightarrow> numst option" where
  "num_scan n [] = Some n"
| "num_scan n (c # cs) = (case num_step n c of None \<Rightarrow> None | Some n' \<Rightarrow> num_scan n' cs)"

definition num_begin :: "char \<Rightarrow> numst option" where
  "num_begin c =
     (if c = CHR ''-'' then Some NNeg else if c = CHR ''0'' then Some NZero
      else if is_digit c then Some NInt else None)"

fun num_ok :: "string \<Rightarrow> bool" where
  "num_ok [] = False"
| "num_ok (c # cs) =
     (case num_begin c of None \<Rightarrow> False
      | Some n \<Rightarrow> (case num_scan n cs of None \<Rightarrow> False | Some n' \<Rightarrow> num_done n'))"

fun json_depth :: "json \<Rightarrow> nat" where
  "json_depth (JArr xs) = Suc (fold max (map json_depth xs) 0)"
| "json_depth (JObj kvs) = Suc (fold max (map (\<lambda>(k, v). json_depth v) kvs) 0)"
| "json_depth _ = 0"

fun json_wf :: "json \<Rightarrow> bool" where
  "json_wf (JNum n) = num_ok n"
| "json_wf (JStr s) = raw_ok s"
| "json_wf (JArr xs) = list_all json_wf xs"
| "json_wf (JObj kvs) = list_all (\<lambda>(k, v). raw_ok k \<and> json_wf v) kvs"
| "json_wf _ = True"

section \<open>Printing and parsing\<close>

lemma push_code [code]:
  "push f m st = (if int (length st) < 10000 then Some (m, f # st) else None)"
  by (simp add: push_def maxNestingDepth_def)

lemma jrun_append: "jrun s (xs @ ys) = Option.bind (jrun s xs) (\<lambda>s'. jrun s' ys)"
  by (induction s xs rule: jrun.induct) (auto split: option.splits)

lemma json_parse_blank:
  "json_parse s = (case jrun jstart (s @ '' '') of Some (EndValue v, []) \<Rightarrow> Some v | _ \<Rightarrow> None)"
  by (cases "jrun jstart s") (auto simp: json_parse_def jfinish_def jrun_append split: option.splits)

lemma in_string_cases:
  assumes "in_string False [] s c = Some (InStr b r s')"
  shows "in_string key raw s c = Some (InStr key (c # raw) s')"
  using assms by (cases s) (auto split: if_splits)

lemma str_scan_run:
  "str_scan s raw = Some s' \<Longrightarrow> jrun (InStr key acc s, st) (raw @ rest) = jrun (InStr key (rev raw @ acc) s', st) rest"
proof (induction s raw arbitrary: acc rule: str_scan.induct)
  case (2 s c cs)
  from 2(2) obtain b r s1 where c: "in_string False [] s c = Some (InStr b r s1)" and cs: "str_scan s1 cs = Some s'"
    by (auto split: option.splits mode.splits)
  have "jrun (InStr key (c # acc) s1, st) (cs @ rest) = jrun (InStr key (rev cs @ c # acc) s', st) rest"
    by (rule 2(1) [OF c refl cs])
  with in_string_cases [OF c, of key acc] show ?case by simp
qed simp

lemma string_run:
  assumes "raw_ok raw"
  shows "jrun (InStr key [] SPlain, st) (raw @ dquote # rest) =
    jrun (if key then EndKey raw else EndValue (JStr raw), st) rest"
  using str_scan_run [of SPlain raw SPlain key "[]" st "dquote # rest"] assms
  by (simp add: raw_ok_def)

lemma num_scan_run:
  "num_scan n cs = Some n' \<Longrightarrow> jrun (InNum acc n, st) (cs @ rest) = jrun (InNum (rev cs @ acc) n', st) rest"
  by (induction n cs arbitrary: acc rule: num_scan.induct) (auto split: option.splits)

text \<open>The bytes that can follow a value.\<close>

definition stop :: "char \<Rightarrow> bool" where
  "stop c \<longleftrightarrow> c = CHR '','' \<or> c = CHR '']'' \<or> c = CHR ''}'' \<or> c = CHR '' ''"

lemma stop_no_digit: "stop c \<Longrightarrow> \<not> is_digit c"
  by (auto simp: stop_def is_digit_def byte_def)

lemma stop_num:
  assumes "stop c"
  shows "num_step n c = None"
proof -
  have "c \<noteq> CHR ''0'' \<and> c \<noteq> CHR ''.'' \<and> c \<noteq> CHR ''e'' \<and> c \<noteq> CHR ''E'' \<and> c \<noteq> CHR ''+'' \<and> c \<noteq> CHR ''-''"
    using assms by (auto simp: stop_def)
  with stop_no_digit [OF assms] show ?thesis by (cases n) simp_all
qed

lemma digit_neq:
  assumes "is_digit c"
  shows "c \<noteq> CHR ''{'' \<and> c \<noteq> CHR ''['' \<and> c \<noteq> dquote \<and> c \<noteq> CHR ''-'' \<and> \<not> is_space c"
  using assms by (auto simp: is_digit_def is_space_def byte_def dquote_def)

lemma begin_value_number:
  assumes "num_begin c = Some n"
  shows "begin_value st c = Some (InNum [c] n, st) \<and> \<not> is_space c"
proof (cases "is_digit c")
  case True
  with digit_neq [OF True] assms show ?thesis by (auto simp: num_begin_def begin_value.simps)
next
  case False
  with assms have "c = CHR ''-'' \<and> n = NNeg"
    by (auto simp: num_begin_def is_digit_def byte_def split: if_splits)
  then show ?thesis by (auto simp: begin_value.simps dquote_def is_space_def byte_def)
qed

definition after_value :: "json \<Rightarrow> frame list \<Rightarrow> char \<Rightarrow> string \<Rightarrow> jstate option" where
  "after_value v st c rest = Option.bind (end_value v st c) (\<lambda>s. jrun s rest)"

lemma number_run:
  assumes "num_ok lit" and "stop c"
  shows "jrun (BeginValue, st) (lit @ c # rest) = after_value (JNum lit) st c rest"
proof -
  from assms(1) obtain d ds n n' where lit: "lit = d # ds" and n: "num_begin d = Some n"
    and ds: "num_scan n ds = Some n'" and n': "num_done n'"
    by (cases lit) (auto split: option.splits)
  note b = begin_value_number [OF n, of st]
  have "jrun (BeginValue, st) (lit @ c # rest) = jrun (InNum (rev lit) n', st) (c # rest)"
    using b num_scan_run [OF ds, of "[d]" st "c # rest"] by (simp add: lit)
  also have "\<dots> = after_value (JNum lit) st c rest"
    using stop_num [OF assms(2), of n'] n'
    by (simp add: after_value_def Option.bind_def split: option.split)
  finally show ?thesis .
qed

lemma punctuation [simp]:
  "\<not> is_space (CHR '','')" "\<not> is_space (CHR '']'')" "\<not> is_space (CHR ''}'')" "\<not> is_space (CHR '':'')"
  "\<not> is_space (CHR ''['')" "\<not> is_space (CHR ''{'')" "\<not> is_space dquote" "is_space (CHR '' '')"
  "stop (CHR '','')" "stop (CHR '']'')" "stop (CHR ''}'')" "stop (CHR '' '')"
  by (simp_all add: is_space_def byte_def dquote_def stop_def)

lemma dquote_neq [simp]: "dquote \<noteq> CHR ''}''" "dquote \<noteq> CHR '']''" "dquote \<noteq> CHR ''{''" "dquote \<noteq> CHR ''[''"
  by (simp_all add: dquote_def)

lemma end_value_simps [simp]:
  "end_value v (FArr xs # st) (CHR '','') = Some (BeginValue, FArr (v # xs) # st)"
  "end_value v (FArr xs # st) (CHR '']'') = Some (EndValue (JArr (rev xs @ [v])), st)"
  "end_value v (FVal kvs k # st) (CHR '','') = Some (BeginKey, FKey ((k, v) # kvs) # st)"
  "end_value v (FVal kvs k # st) (CHR ''}'') = Some (EndValue (JObj (rev kvs @ [(k, v)])), st)"
  "end_value v st (CHR '' '') = Some (EndValue v, st)"
  by (simp_all add: end_value.simps)

lemma jrun_EndValue: "jrun (EndValue v, st) (c # rest) = after_value v st c rest"
  by (simp add: after_value_def split: option.split)

lemma after_value_simps [simp]:
  "after_value v (FArr xs # st) (CHR '','') rest = jrun (BeginValue, FArr (v # xs) # st) rest"
  "after_value v (FArr xs # st) (CHR '']'') rest = jrun (EndValue (JArr (rev xs @ [v])), st) rest"
  "after_value v (FVal kvs k # st) (CHR '','') rest = jrun (BeginKey, FKey ((k, v) # kvs) # st) rest"
  "after_value v (FVal kvs k # st) (CHR ''}'') rest = jrun (EndValue (JObj (rev kvs @ [(k, v)])), st) rest"
  "after_value v st (CHR '' '') rest = jrun (EndValue v, st) rest"
  by (simp_all add: after_value_def)

lemma array_run:
  assumes "\<And>y acc c rest. y \<in> set (x # xs) \<Longrightarrow> stop c \<Longrightarrow>
      jrun (BeginValue, FArr acc # st) (json_print y @ c # rest) = after_value y (FArr acc # st) c rest"
  shows "jrun (BeginValue, FArr acc # st) (Join (map json_print (x # xs)) '','' @ CHR '']'' # c # rest) =
    after_value (JArr (rev acc @ x # xs)) st c rest"
  using assms
proof (induction xs arbitrary: x acc)
  case Nil
  then show ?case by (simp add: jrun_EndValue del: jrun.simps)
next
  case (Cons y ys)
  have "jrun (BeginValue, FArr (x # acc) # st) (Join (map json_print (y # ys)) '','' @ CHR '']'' # c # rest) =
      after_value (JArr (rev (x # acc) @ y # ys)) st c rest"
    by (rule Cons.IH) (auto intro: Cons.prems)
  then show ?case by (simp add: Cons.prems)
qed

definition print_member :: "string \<times> json \<Rightarrow> string" where
  "print_member kv = [dquote] @ fst kv @ [dquote] @ '':'' @ json_print (snd kv)"

lemma json_print_object: "json_print (JObj kvs) = ''{'' @ Join (map print_member kvs) '','' @ ''}''"
  by (simp add: print_member_def [abs_def] case_prod_unfold)

lemma member_run:
  assumes "raw_ok k"
    and "jrun (BeginValue, FVal acc k # st) (json_print v @ c # rest) = after_value v (FVal acc k # st) c rest"
  shows "jrun (BeginKey, FKey acc # st) (print_member (k, v) @ c # rest) = after_value v (FVal acc k # st) c rest"
    and "jrun (BeginKeyOrEmpty, FKey acc # st) (print_member (k, v) @ c # rest) = after_value v (FVal acc k # st) c rest"
  using string_run [OF assms(1), of True] assms(2)
  by (simp_all add: print_member_def)

lemma object_run:
  assumes "\<And>k v. (k, v) \<in> set (kv # kvs) \<Longrightarrow> raw_ok k"
    and "\<And>k v acc c rest. (k, v) \<in> set (kv # kvs) \<Longrightarrow> stop c \<Longrightarrow>
      jrun (BeginValue, FVal acc k # st) (json_print v @ c # rest) = after_value v (FVal acc k # st) c rest"
    and "m = BeginKey \<or> m = BeginKeyOrEmpty"
  shows "jrun (m, FKey acc # st) (Join (map print_member (kv # kvs)) '','' @ CHR ''}'' # c # rest) =
    after_value (JObj (rev acc @ kv # kvs)) st c rest"
  using assms
proof (induction kvs arbitrary: kv acc m)
  case Nil
  obtain k v where kv: "kv = (k, v)" by fastforce
  with Nil(1) [of k v] Nil(2) [of k v "CHR ''}''" acc "c # rest"] Nil(3) show ?case
    by (auto simp: jrun_EndValue member_run simp del: jrun.simps)
next
  case (Cons y ys)
  obtain k v where kv: "kv = (k, v)" by fastforce
  have "jrun (BeginKey, FKey (kv # acc) # st) (Join (map print_member (y # ys)) '','' @ CHR ''}'' # c # rest) =
      after_value (JObj (rev (kv # acc) @ y # ys)) st c rest"
  proof (rule Cons.IH)
    show "raw_ok k'" if "(k', v') \<in> set (y # ys)" for k' v'
      using that Cons.prems(1) [of k' v'] by auto
  qed (simp_all add: Cons.prems(2))
  with Cons.prems(1) [of k v] Cons.prems(2) [of k v "CHR '',''" acc] Cons.prems(3) kv show ?case
    by (auto simp: member_run simp del: jrun.simps)
qed

lemma print_first:
  assumes "json_wf v"
  obtains d ds where "json_print v = d # ds" and "d \<noteq> CHR '']''" and "\<not> is_space d"
proof (cases v)
  case (JNum lit)
  with assms obtain d ds n where "lit = d # ds" and n: "num_begin d = Some n"
    by (cases lit) (auto split: option.splits)
  moreover from begin_value_number [OF n, of "[]"] have "\<not> is_space d" by simp
  moreover from n have "d \<noteq> CHR '']''" by (auto simp: num_begin_def is_digit_def byte_def split: if_splits)
  ultimately show thesis using JNum that by simp
next
  case (JBool b)
  with that show thesis by (cases b) (auto simp: is_space_def byte_def)
next
  case JNull
  with that show thesis by (auto simp: is_space_def byte_def)
qed (use that in auto)

lemma fold_max_le: "fold max xs a \<le> (b :: nat) \<longleftrightarrow> a \<le> b \<and> list_all (\<lambda>x. x \<le> b) xs"
  by (induction xs arbitrary: a) auto

lemma member_le_fold_max: "x \<in> set xs \<Longrightarrow> f x \<le> fold max (map f xs) (a :: nat)"
  using fold_max_le [of "map f xs" a "fold max (map f xs) a"] by (simp add: list_all_iff)

lemma literal_run:
  assumes "stop c"
  shows "jrun (BeginValue, st) (''null'' @ c # rest) = after_value JNull st c rest"
    "jrun (BeginValue, st) (''true'' @ c # rest) = after_value (JBool True) st c rest"
    "jrun (BeginValue, st) (''false'' @ c # rest) = after_value (JBool False) st c rest"
proof -
  have s: "\<not> is_space (CHR ''n'')" "\<not> is_space (CHR ''t'')" "\<not> is_space (CHR ''f'')"
    "\<not> is_digit (CHR ''n'')" "\<not> is_digit (CHR ''t'')" "\<not> is_digit (CHR ''f'')"
    by (simp_all add: is_space_def is_digit_def byte_def)
  show "jrun (BeginValue, st) (''null'' @ c # rest) = after_value JNull st c rest"
    "jrun (BeginValue, st) (''true'' @ c # rest) = after_value (JBool True) st c rest"
    "jrun (BeginValue, st) (''false'' @ c # rest) = after_value (JBool False) st c rest"
    by (simp_all add: s begin_value.simps dquote_def after_value_def split: option.split)
qed

lemma value_run:
  assumes "json_wf v" and "json_depth v + length st \<le> maxNestingDepth" and "stop c"
  shows "jrun (BeginValue, st) (json_print v @ c # rest) = after_value v st c rest"
  using assms
proof (induction v arbitrary: st c rest rule: json_print.induct)
  case 1
  then show ?case using literal_run(1) by simp
next
  case (2 b)
  then show ?case using literal_run(2,3) by (cases b) simp_all
next
  case (3 n)
  then show ?case by (simp add: number_run)
next
  case (4 s)
  have b: "begin_value st dquote = Some (InStr False [] SPlain, st)"
    by (simp add: begin_value.simps)
  from 4 string_run [of s False st "c # rest"] show ?case
    by (simp add: b after_value_def split: option.split)
next
  case (5 xs)
  have b: "jrun (BeginValue, st) (CHR ''['' # t) = jrun (BeginValueOrEmpty, FArr [] # st) t" for t
    using 5(3) by (simp add: begin_value.simps push_def)
  show ?case
  proof (cases xs)
    case Nil
    then show ?thesis by (simp add: b jrun_EndValue del: jrun.simps(2)) (simp add: jrun_EndValue [symmetric])
  next
    case (Cons y ys)
    have each: "jrun (BeginValue, FArr acc # st) (json_print x @ d # r) = after_value x (FArr acc # st) d r"
      if "x \<in> set xs" and "stop d" for x acc d r
      using that 5(2,3) member_le_fold_max [of x xs json_depth 0] by (intro 5(1)) (auto simp: list_all_iff)
    obtain d ds where d: "json_print y = d # ds" "d \<noteq> CHR '']''" "\<not> is_space d"
      using print_first [of y] 5(2) Cons by auto
    have "jrun (BeginValueOrEmpty, FArr [] # st) (Join (map json_print (y # ys)) '','' @ CHR '']'' # c # rest) =
        jrun (BeginValue, FArr [] # st) (Join (map json_print (y # ys)) '','' @ CHR '']'' # c # rest)"
      using d by (cases ys) simp_all
    also have "\<dots> = after_value (JArr xs) st c rest"
      using array_run [of y ys st "[]" c rest] each Cons by simp
    finally show ?thesis using Cons by (simp add: b del: jrun.simps)
  qed
next
  case (6 kvs)
  have b: "jrun (BeginValue, st) (CHR ''{'' # t) = jrun (BeginKeyOrEmpty, FKey [] # st) t" for t
    using 6(3) by (simp add: begin_value.simps push_def)
  show ?case
  proof (cases kvs)
    case Nil
    then show ?thesis by (simp add: b jrun_EndValue del: jrun.simps(2)) (simp add: jrun_EndValue [symmetric])
  next
    case (Cons y ys)
    have key: "raw_ok k" if "(k, v) \<in> set kvs" for k v
      using that 6(2) by (auto simp: list_all_iff)
    have each: "jrun (BeginValue, FVal acc k # st) (json_print v @ d # r) = after_value v (FVal acc k # st) d r"
      if "(k, v) \<in> set kvs" and "stop d" for k v acc d r
      using that 6(2,3) member_le_fold_max [of "(k, v)" kvs "\<lambda>(k, v). json_depth v" 0]
      by (intro 6(1) [of "(k, v)"]) (auto simp: list_all_iff)
    have "jrun (BeginKeyOrEmpty, FKey [] # st) (Join (map print_member (y # ys)) '','' @ CHR ''}'' # c # rest) =
        after_value (JObj kvs) st c rest"
      using object_run [of y ys st BeginKeyOrEmpty "[]" c rest] key each Cons by simp
    then show ?thesis using Cons by (simp add: b json_print_object del: jrun.simps json_print.simps)
  qed
qed

lemma parse_print:
  assumes "json_wf v" and "json_depth v \<le> maxNestingDepth"
  shows "json_parse (json_print v) = Some v"
  using value_run [OF assms(1), of "[]" "CHR '' ''" "[]"] assms(2)
  by (simp add: json_parse_blank jstart_def)

section \<open>Every accepted text denotes a well-formed value\<close>

definition value_ok :: "nat \<Rightarrow> json \<Rightarrow> bool" where
  "value_ok n v \<longleftrightarrow> json_wf v \<and> json_depth v + n \<le> maxNestingDepth"

definition members_ok :: "nat \<Rightarrow> (string \<times> json) list \<Rightarrow> bool" where
  "members_ok n kvs \<longleftrightarrow> list_all (\<lambda>(k, v). raw_ok k \<and> value_ok n v) kvs"

fun frame_ok :: "nat \<Rightarrow> frame \<Rightarrow> bool" where
  "frame_ok n (FArr xs) = list_all (value_ok n) xs"
| "frame_ok n (FKey kvs) = members_ok n kvs"
| "frame_ok n (FVal kvs k) = (members_ok n kvs \<and> raw_ok k)"

fun stack_ok :: "frame list \<Rightarrow> bool" where
  "stack_ok [] = True"
| "stack_ok (f # st) \<longleftrightarrow> frame_ok (Suc (length st)) f \<and> length st < maxNestingDepth \<and> stack_ok st"

fun mode_ok :: "nat \<Rightarrow> mode \<Rightarrow> bool" where
  "mode_ok n (InStr key raw s) = (str_scan SPlain (rev raw) = Some s)"
| "mode_ok n (InNum raw m) =
     (\<exists>d ds m0. rev raw = d # ds \<and> num_begin d = Some m0 \<and> num_scan m0 ds = Some m)"
| "mode_ok n (InLit cs v) = (json_wf v \<and> json_depth v = 0)"
| "mode_ok n (EndKey k) = raw_ok k"
| "mode_ok n (EndValue v) = value_ok n v"
| "mode_ok n _ = True"

definition state_ok :: "jstate \<Rightarrow> bool" where
  "state_ok s \<longleftrightarrow> stack_ok (snd s) \<and> length (snd s) \<le> maxNestingDepth \<and> mode_ok (length (snd s)) (fst s)"

lemma str_scan_append: "str_scan s (xs @ ys) = Option.bind (str_scan s xs) (\<lambda>s'. str_scan s' ys)"
  by (induction s xs rule: str_scan.induct) (auto split: option.splits mode.splits)

lemma num_scan_append: "num_scan n (xs @ ys) = Option.bind (num_scan n xs) (\<lambda>n'. num_scan n' ys)"
  by (induction n xs rule: num_scan.induct) (auto split: option.splits)

lemma fold_max_less: "fold max xs a + n < (b :: nat) \<longleftrightarrow> a + n < b \<and> (\<forall>x \<in> set xs. x + n < b)"
  by (induction xs arbitrary: a) auto

lemma value_ok_JArr:
  "value_ok n (JArr xs) \<longleftrightarrow> list_all (value_ok (Suc n)) xs \<and> n < maxNestingDepth"
  by (auto simp: value_ok_def list_all_iff Suc_le_eq fold_max_less)

lemma value_ok_JObj:
  "value_ok n (JObj kvs) \<longleftrightarrow> members_ok (Suc n) kvs \<and> n < maxNestingDepth"
  by (auto simp: value_ok_def members_ok_def list_all_iff Suc_le_eq fold_max_less)

lemma end_value_ok:
  assumes "end_value v st c = Some s" and "stack_ok st" and "value_ok (length st) v"
  shows "state_ok s"
  using assms value_ok_def [of "length st" v]
  by (auto simp: end_value.simps state_ok_def value_ok_JArr value_ok_JObj members_ok_def list_all_iff
      split: if_splits list.splits frame.splits)

lemma begin_value_ok:
  assumes "begin_value st c = Some s" and "stack_ok st" and "length st \<le> maxNestingDepth"
  shows "state_ok s"
  using assms
  by (auto simp: begin_value.simps state_ok_def push_def num_begin_def members_ok_def split: if_splits)

lemma in_string_ok:
  assumes "in_string key raw st c = Some m" and "str_scan SPlain (rev raw) = Some st"
    and "n \<le> maxNestingDepth"
  shows "mode_ok n m"
proof (cases "\<exists>b r s'. in_string False [] st c = Some (InStr b r s')")
  case True
  then obtain b r s' where i: "in_string False [] st c = Some (InStr b r s')" by blast
  with assms(1) in_string_cases [OF i, of key raw] have "m = InStr key (c # raw) s'" by simp
  with i assms(2) show ?thesis by (simp add: str_scan_append)
next
  case False
  with assms show ?thesis
    by (cases st) (auto simp: raw_ok_def value_ok_def split: if_splits)
qed

lemma jstep_ok:
  assumes "state_ok s" and "jstep s c = Some s'"
  shows "state_ok s'"
proof -
  obtain m st where s: "s = (m, st)" by fastforce
  with assms(1) have st: "stack_ok st" "length st \<le> maxNestingDepth" by (simp_all add: state_ok_def)
  have bv: "state_ok s'" if "begin_value st c = Some s'"
    using that st by (rule begin_value_ok)
  have ev: "state_ok s'" if "end_value v st c = Some s'" "value_ok (length st) v" for v
    using that(1) st(1) that(2) by (rule end_value_ok)
  show ?thesis
  proof (cases m)
    case (InStr key raw q)
    with assms s show ?thesis by (auto simp: state_ok_def intro: in_string_ok)
  next
    case (InNum raw n)
    show ?thesis
    proof (cases "num_step n c")
      case None
      with InNum assms s have "end_value (JNum (rev raw)) st c = Some s'" and "num_done n"
        by (auto split: if_splits)
      moreover from InNum assms(1) s \<open>num_done n\<close> have "value_ok (length st) (JNum (rev raw))"
        by (auto simp: state_ok_def value_ok_def)
      ultimately show ?thesis by (blast intro: ev)
    next
      case (Some n')
      with InNum assms s show ?thesis by (auto simp: state_ok_def num_scan_append)
    qed
  next
    case (InLit cs v)
    with assms s show ?thesis by (auto simp: state_ok_def value_ok_def split: list.splits if_splits)
  next
    case (EndValue v)
    with assms s have "end_value v st c = Some s'" "value_ok (length st) v" by (simp_all add: state_ok_def)
    then show ?thesis by (rule ev)
  qed (use assms s st bv in \<open>auto simp: state_ok_def value_ok_JArr value_ok_JObj members_ok_def raw_ok_def
      split: if_splits list.splits frame.splits\<close>)
qed

lemma jrun_ok: "state_ok s \<Longrightarrow> jrun s cs = Some s' \<Longrightarrow> state_ok s'"
  by (induction s cs rule: jrun.induct) (auto split: option.splits intro: jstep_ok)

lemma json_parse_wf:
  assumes "json_parse s = Some v"
  shows "json_wf v" and "json_depth v \<le> maxNestingDepth"
proof -
  from assms obtain q where q: "jrun jstart (s @ '' '') = Some q" and v: "q = (EndValue v, [])"
    by (auto simp: json_parse_blank split: option.splits prod.splits mode.splits list.splits)
  have "state_ok jstart" by (simp add: state_ok_def jstart_def)
  from jrun_ok [OF this q] show "json_wf v" and "json_depth v \<le> maxNestingDepth"
    by (simp_all add: v state_ok_def value_ok_def)
qed

text \<open>Compacting a valid text changes nothing about the value it denotes.\<close>

lemma parse_print_parse:
  assumes "json_parse s = Some v"
  shows "json_parse (json_print v) = Some v"
  by (rule parse_print) (rule json_parse_wf [OF assms])+

section \<open>String literals\<close>

definition hex_val :: "char \<Rightarrow> nat" where
  "hex_val c = (if is_digit c then byte c - 48 else if 97 \<le> byte c then byte c - 87 else byte c - 55)"

definition hex4 :: "string \<Rightarrow> nat" where
  "hex4 s = foldl (\<lambda>n c. n * 16 + hex_val c) 0 (take 4 s)"

definition is_surrogate :: "nat \<Rightarrow> bool" where
  "is_surrogate r \<longleftrightarrow> 0xD800 \<le> r \<and> r < 0xE000"

text \<open>The low surrogate written as a \<^verbatim>\<open>\uXXXX\<close> escape at the start of \<open>s\<close>, if there is one.\<close>

definition low_surrogate :: "string \<Rightarrow> nat option" where
  "low_surrogate s =
     (if take 2 s = [bslash, CHR ''u''] \<and> 6 \<le> length s \<and> 0xDC00 \<le> hex4 (drop 2 s) \<and> hex4 (drop 2 s) < 0xE000
      then Some (hex4 (drop 2 s)) else None)"

definition unescape_char :: "char \<Rightarrow> char" where
  "unescape_char c =
     (if c = CHR ''b'' then CHR 0x08 else if c = CHR ''f'' then CHR 0x0C else if c = CHR ''n'' then CHR 0x0A
      else if c = CHR ''r'' then CHR 0x0D else if c = CHR ''t'' then CHR 0x09 else c)"

fun unquote :: "string \<Rightarrow> string" where
  "unquote [] = []"
| "unquote (c # s) =
     (if c = bslash then
        (case s of
           [] \<Rightarrow> []
         | e # s' \<Rightarrow>
             if e = CHR ''u'' then
               (let r = hex4 s'; s'' = drop 4 s' in
                if is_surrogate r then
                  (case low_surrogate s'' of
                     Some r' \<Rightarrow>
                       if r < 0xDC00
                       then EncodeRune ((r - 0xD800) * 1024 + (r' - 0xDC00) + 0x10000) @ unquote (drop 6 s'')
                       else EncodeRune RuneError @ unquote s''
                   | None \<Rightarrow> EncodeRune RuneError @ unquote s'')
                else EncodeRune r @ unquote s'')
             else unescape_char e # unquote s')
      else EncodeRune (fst (DecodeRune (c # s))) @ unquote (drop (snd (DecodeRune (c # s)) - 1) s))"

declare unquote.simps(2) [simp del]

definition u_escape :: "nat \<Rightarrow> string" where
  "u_escape r =
     [bslash, CHR ''u'', hex_digit (r div 4096 mod 16), hex_digit (r div 256 mod 16),
      hex_digit (r div 16 mod 16), hex_digit (r mod 16)]"

definition html_special :: "char \<Rightarrow> bool" where
  "html_special c \<longleftrightarrow> c = CHR ''<'' \<or> c = CHR ''>'' \<or> c = CHR ''&''"

definition quote_ascii :: "char \<Rightarrow> string" where
  "quote_ascii c =
     (if c = dquote \<or> c = bslash then [bslash, c]
      else if byte c = 8 then [bslash, CHR ''b''] else if byte c = 12 then [bslash, CHR ''f'']
      else if byte c = 10 then [bslash, CHR ''n''] else if byte c = 13 then [bslash, CHR ''r'']
      else if byte c = 9 then [bslash, CHR ''t'']
      else if byte c < 0x20 \<or> html_special c then u_escape (byte c)
      else [c])"

text \<open>The body of the literal \<^verbatim>\<open>json.Marshal\<close> writes for a string.\<close>

fun quote_string :: "string \<Rightarrow> string" where
  "quote_string [] = []"
| "quote_string (c # s) =
     (if byte c < 0x80 then quote_ascii c @ quote_string s
      else let (r, w) = DecodeRune (c # s) in
        (if r = RuneError \<and> w = 1 then u_escape RuneError
         else if r = 0x2028 \<or> r = 0x2029 then u_escape r
         else take w (c # s)) @ quote_string (drop (w - 1) s))"

declare quote_string.simps(2) [simp del]

text \<open>
  The escaping \<^verbatim>\<open>json.Marshal\<close> applies to the literals of a \<^verbatim>\<open>json.RawMessage\<close> while it
  compacts it.
\<close>

fun escape_raw :: "string \<Rightarrow> string" where
  "escape_raw [] = []"
| "escape_raw (c # s) =
     (if html_special c then u_escape (byte c) @ escape_raw s
      else if byte c = 0xE2 \<and> map byte (take 2 s) = [0x80, 0xA8] then u_escape 0x2028 @ escape_raw (drop 2 s)
      else if byte c = 0xE2 \<and> map byte (take 2 s) = [0x80, 0xA9] then u_escape 0x2029 @ escape_raw (drop 2 s)
      else c # escape_raw s)"

declare escape_raw.simps(2) [simp del]

fun json_escape :: "json \<Rightarrow> json" where
  "json_escape (JStr s) = JStr (escape_raw s)"
| "json_escape (JArr xs) = JArr (map json_escape xs)"
| "json_escape (JObj kvs) = JObj (map (\<lambda>(k, v). (escape_raw k, json_escape v)) kvs)"
| "json_escape j = j"

text \<open>\<^verbatim>\<open>json.RawMessage.MarshalJSON\<close> followed by compaction; \<open>None\<close> for invalid JSON.\<close>

definition marshal_raw :: "string \<Rightarrow> json option" where
  "marshal_raw raw = map_option json_escape (json_parse raw)"

section \<open>Dynamic values\<close>

datatype goval =
    GNil
  | GBool bool
  | GInt int
  | GFloat string
  | GNumber string
  | GString string
  | GSlice "goval list"
  | GMap "goval gomap"

text \<open>
  Decoding into \<^verbatim>\<open>any\<close>. \<open>num\<close> converts a number literal; \<open>None\<close> is a conversion error, which
  fails the whole decoding. A later member overrides an earlier one with the same key.
\<close>

definition put_all :: "(string \<times> 'v) list \<Rightarrow> 'v gomap \<Rightarrow> 'v gomap" where
  "put_all kvs m = fold (\<lambda>(k, v). AList.update k v) kvs m"

fun to_any :: "(string \<Rightarrow> goval option) \<Rightarrow> json \<Rightarrow> goval option" where
  "to_any num JNull = Some GNil"
| "to_any num (JBool b) = Some (GBool b)"
| "to_any num (JNum n) = num n"
| "to_any num (JStr s) = Some (GString (unquote s))"
| "to_any num (JArr xs) = map_option GSlice (those (map (to_any num) xs))"
| "to_any num (JObj kvs) =
     map_option (\<lambda>ps. GMap (put_all ps []))
       (those (map (\<lambda>(k, v). map_option (Pair (unquote k)) (to_any num v)) kvs))"

text \<open>Encoding: map keys are written in increasing byte order.\<close>

fun of_any :: "goval \<Rightarrow> json" where
  "of_any GNil = JNull"
| "of_any (GBool b) = JBool b"
| "of_any (GInt i) = JNum (Itoa i)"
| "of_any (GFloat t) = JNum t"
| "of_any (GNumber n) = JNum (if n = [] then ''0'' else n)"
| "of_any (GString s) = JStr (quote_string s)"
| "of_any (GSlice xs) = JArr (map of_any xs)"
| "of_any (GMap m) = JObj (map (\<lambda>(k, j). (quote_string k, j)) (sort_key fst (map (\<lambda>(k, v). (k, of_any v)) m)))"

definition marshal :: "goval \<Rightarrow> string" where
  "marshal v = json_print (of_any v)"

section \<open>Decoding inverts encoding\<close>

lemma hex_digit_val [simp]: "n < 16 \<Longrightarrow> hex_val (hex_digit n) = n" "n < 16 \<Longrightarrow> is_hex (hex_digit n)"
  by (auto simp: hex_val_def hex_digit_def is_hex_def is_digit_def)

lemma div_16_16: "r div 256 = r div 16 div 16" "r div 4096 = r div 16 div 16 div 16" for r :: nat
  by (simp_all add: div_mult2_eq [symmetric])

lemma hex4_u_escape:
  assumes "r < 65536"
  shows "hex4 (drop 2 (u_escape r) @ s) = r"
proof -
  define d p where "d = r mod 16" and "p = r div 16"
  define c q where "c = p mod 16" and "q = p div 16"
  define b a where "b = q mod 16" and "a = q div 16"
  have r: "r = 16 * p + d" "p = 16 * q + c" "q = 16 * a + b"
    by (simp_all add: d_def p_def c_def q_def b_def a_def)
  have e: "r mod 16 = d" "r div 16 = p" "r div 256 = q" "r div 4096 = a" "p mod 16 = c" "q mod 16 = b"
    by (simp_all add: d_def p_def c_def q_def b_def a_def div_16_16)
  have "b < 16" "c < 16" "d < 16" by (simp_all add: b_def c_def d_def)
  moreover have "a < 16" using assms r by linarith
  ultimately have "hex4 (drop 2 (u_escape r) @ s) = ((a * 16 + b) * 16 + c) * 16 + d"
    by (simp add: hex4_def u_escape_def e)
  also have "\<dots> = r" using r by (simp add: algebra_simps)
  finally show ?thesis .
qed

lemma bslash_neq [simp]: "bslash \<noteq> dquote" "dquote \<noteq> bslash" "byte bslash = 0x5C" "byte dquote = 0x22"
  by (simp_all add: bslash_def dquote_def byte_def)

lemma unquote_u_escape:
  assumes "r < 65536" and "\<not> is_surrogate r"
  shows "unquote (u_escape r @ s) = EncodeRune r @ unquote s"
proof -
  obtain h1 h2 h3 h4 where u: "u_escape r = [bslash, CHR ''u'', h1, h2, h3, h4]"
    by (simp add: u_escape_def)
  with hex4_u_escape [OF assms(1), of s] have "hex4 (h1 # h2 # h3 # h4 # s) = r" by simp
  with assms(2) u show ?thesis by (simp add: unquote.simps(2) [of bslash] Let_def)
qed

lemma EncodeRune_ascii [simp]: "byte c < 0x80 \<Longrightarrow> EncodeRune (byte c) = [c]"
  by (simp add: EncodeRune_def enc_rune_def valid_rune_def)

lemma unquote_ascii: "byte c < 0x80 \<Longrightarrow> c \<noteq> bslash \<Longrightarrow> unquote (c # s) = c # unquote s"
  by (simp add: unquote.simps(2))

lemma unquote_escape: "e \<noteq> CHR ''u'' \<Longrightarrow> unquote (bslash # e # s) = unescape_char e # unquote s"
  by (simp add: unquote.simps(2))

lemma control_char:
  "byte c = 8 \<Longrightarrow> c = CHR 0x08" "byte c = 9 \<Longrightarrow> c = CHR 0x09" "byte c = 10 \<Longrightarrow> c = CHR 0x0A"
  "byte c = 12 \<Longrightarrow> c = CHR 0x0C" "byte c = 13 \<Longrightarrow> c = CHR 0x0D"
  by (rule byte_inj [THEN iffD1], simp add: byte_def)+

lemma unquote_quote_ascii:
  assumes "byte c < 0x80"
  shows "unquote (quote_ascii c @ s) = c # unquote s"
proof -
  consider "c = dquote \<or> c = bslash" | "byte c \<in> {8, 9, 10, 12, 13}"
    | "c \<noteq> dquote" "c \<noteq> bslash" "byte c \<notin> {8, 9, 10, 12, 13}" "byte c < 0x20 \<or> html_special c"
    | "c \<noteq> dquote" "c \<noteq> bslash" "byte c \<notin> {8, 9, 10, 12, 13}" "\<not> (byte c < 0x20 \<or> html_special c)"
    by blast
  then show ?thesis
  proof cases
    case 1
    moreover have "unescape_char dquote = dquote" "unescape_char bslash = bslash"
      "dquote \<noteq> CHR ''u''" "bslash \<noteq> CHR ''u''"
      by (simp_all add: unescape_char_def dquote_def bslash_def)
    ultimately show ?thesis by (auto simp: quote_ascii_def unquote_escape)
  next
    case 2
    then consider "c = CHR 0x08" | "c = CHR 0x09" | "c = CHR 0x0A" | "c = CHR 0x0C" | "c = CHR 0x0D"
      using control_char [of c] by auto
    then show ?thesis
      by cases (simp_all add: quote_ascii_def unquote_escape unescape_char_def dquote_def bslash_def [symmetric]
          byte_def, simp_all add: bslash_def)
  next
    case 3
    then show ?thesis
      using assms by (simp add: quote_ascii_def unquote_u_escape is_surrogate_def)
  next
    case 4
    then show ?thesis using assms by (simp add: quote_ascii_def unquote_ascii)
  qed
qed

lemma DecodeRune_prefix:
  assumes "DecodeRune (c # s) = (r, w)" and "\<not> (r = RuneError \<and> w = 1)"
  shows "DecodeRune (take w (c # s) @ t) = (r, w)"
  using assms by (auto simp: Let_def split: if_splits list.splits)

lemma DecodeRune_high:
  assumes "DecodeRune (c # s) = (r, w)" and "0x80 \<le> byte c" and "d \<in> set (take w (c # s))"
  shows "0x80 \<le> byte d"
  using assms by (auto simp: Let_def cont_def split: if_splits list.splits)

lemma unquote_multibyte:
  assumes "DecodeRune (c # s) = (r, w)" and "0x80 \<le> byte c" and "\<not> (r = RuneError \<and> w = 1)"
  shows "unquote (take w (c # s) @ t) = EncodeRune r @ unquote t"
proof -
  from DecodeRune_width [of "c # s"] assms(1) have w: "1 \<le> w" "w \<le> length (c # s)" by auto
  then have t: "take w (c # s) @ t = c # (take (w - 1) s @ t)" by (cases w) auto
  from assms(2) have "c \<noteq> bslash" by auto
  moreover have "DecodeRune (c # (take (w - 1) s @ t)) = (r, w)"
    using DecodeRune_prefix [OF assms(1,3), of t] by (simp add: t)
  moreover have "drop (w - 1) (take (w - 1) s @ t) = t" using w by auto
  ultimately show ?thesis unfolding t by (simp add: unquote.simps(2) del: DecodeRune.simps)
qed

lemma unquote_quote_string: "unquote (quote_string s) = encode_runes (runes s)"
proof (induction s rule: quote_string.induct)
  case 1
  then show ?case by (simp add: encode_runes_def)
next
  case (2 c s)
  obtain r w where d: "DecodeRune (c # s) = (r, w)" by fastforce
  show ?case
  proof (cases "byte c < 0x80")
    case True
    with 2(1) show ?thesis
      by (simp add: quote_string.simps(2) unquote_quote_ascii encode_runes_def)
  next
    case False
    have IH: "unquote (quote_string (drop (w - 1) s)) = encode_runes (runes (drop (w - 1) s))"
      using 2(2) [OF False refl] d by simp
    have e: "encode_runes (runes (c # s)) = EncodeRune r @ encode_runes (runes (drop (w - 1) s))"
      using d by (simp add: encode_runes_def del: DecodeRune.simps)
    consider "r = RuneError" "w = 1" | "\<not> (r = RuneError \<and> w = 1)" "r = 0x2028 \<or> r = 0x2029"
      | "\<not> (r = RuneError \<and> w = 1)" "r \<noteq> 0x2028" "r \<noteq> 0x2029" by blast
    then show ?thesis
    proof cases
      case 3
      with False d unquote_multibyte [OF d _ 3(1)] IH e show ?thesis
        by (auto simp: quote_string.simps(2) simp del: DecodeRune.simps)
    qed (use False d IH e in \<open>auto simp: quote_string.simps(2) unquote_u_escape is_surrogate_def RuneError_def
        simp del: DecodeRune.simps\<close>)
  qed
qed

lemma unquote_quote_valid: "ValidString s \<Longrightarrow> unquote (quote_string s) = s"
  by (simp add: unquote_quote_string ValidString_def)

text \<open>The literals the encoder writes are well-formed.\<close>

lemma str_scan_plain:
  "c \<noteq> dquote \<Longrightarrow> c \<noteq> bslash \<Longrightarrow> 0x20 \<le> byte c \<Longrightarrow> str_scan SPlain (c # s) = str_scan SPlain s"
  by simp

lemma str_scan_plains:
  "list_all (\<lambda>c. 0x80 \<le> byte c) cs \<Longrightarrow> str_scan SPlain (cs @ s) = str_scan SPlain s"
proof (induction cs)
  case (Cons c cs)
  then have "c \<noteq> dquote" "c \<noteq> bslash" "0x20 \<le> byte c" by auto
  with Cons show ?case by simp
qed simp

lemma str_scan_u_escape: "str_scan SPlain (u_escape r @ s) = str_scan SPlain s"
proof -
  have "is_hex (hex_digit (n mod 16))" for n by simp
  moreover have "bslash \<noteq> CHR ''u''" "dquote \<noteq> CHR ''u''" by (simp_all add: bslash_def dquote_def)
  ultimately show ?thesis by (simp add: u_escape_def)
qed

lemma str_scan_quote_ascii: "str_scan SPlain (quote_ascii c @ s) = str_scan SPlain s"
  by (auto simp: quote_ascii_def str_scan_u_escape)

lemma raw_ok_quote_string: "raw_ok (quote_string s)"
proof (induction s rule: quote_string.induct)
  case 1
  then show ?case by (simp add: raw_ok_def)
next
  case (2 c s)
  obtain r w where d: "DecodeRune (c # s) = (r, w)" by fastforce
  show ?case
  proof (cases "byte c < 0x80")
    case True
    with 2(1) show ?thesis by (simp add: quote_string.simps(2) raw_ok_def str_scan_quote_ascii)
  next
    case False
    then have "list_all (\<lambda>c. 0x80 \<le> byte c) (take w (c # s))"
      using DecodeRune_high [OF d] by (auto simp: list_all_iff)
    with 2(2) [OF False refl] False d show ?thesis
      by (auto simp: quote_string.simps(2) raw_ok_def str_scan_u_escape str_scan_plains
          simp del: DecodeRune.simps take_Cons')
  qed
qed

text \<open>Escaping a literal keeps it well-formed and keeps its meaning.\<close>

lemma escape_raw_plain:
  "\<not> html_special c \<Longrightarrow> byte c < 0x80 \<Longrightarrow> escape_raw (c # s) = c # escape_raw s"
  by (simp add: escape_raw.simps(2))

lemma hex_plain: "is_hex c \<Longrightarrow> \<not> html_special c \<and> byte c < 0x80"
  by (auto simp: is_hex_def is_digit_def html_special_def byte_def)

lemma escape_raw_conts: "list_all cont cs \<Longrightarrow> escape_raw (cs @ s) = cs @ escape_raw s"
proof (induction cs)
  case (Cons c cs)
  then have "\<not> html_special c" "byte c \<noteq> 0xE2"
    by (auto simp: cont_def html_special_def byte_def)
  with Cons show ?case by (simp add: escape_raw.simps(2))
qed simp

lemma escape_raw_not_cont:
  assumes "\<not> cont b"
  shows "\<exists>b' t'. escape_raw (b # t) = b' # t' \<and> \<not> cont b'"
proof -
  have "\<not> cont bslash" by (simp add: cont_def)
  with assms show ?thesis by (simp add: escape_raw.simps(2) u_escape_def)
qed

lemma DecodeRune_conts:
  assumes "DecodeRune (c # s) = (r, w)" and "0x80 \<le> byte c"
  shows "list_all cont (take (w - 1) s)"
  using assms by (auto simp: Let_def split: if_splits list.splits)

lemma escape_raw_cont: "cont b \<Longrightarrow> escape_raw (b # t) = b # escape_raw t"
  using escape_raw_conts [of "[b]" t] by simp

text \<open>Decoding looks at continuation bytes only, and at most three of them.\<close>

lemma DecodeRune_stop:
  assumes "\<not> cont b" and "\<not> cont b'"
  shows "DecodeRune (c # b # u) = DecodeRune (c # b' # u')"
    and "DecodeRune (c # x # b # u) = DecodeRune (c # x # b' # u')"
    and "DecodeRune (c # x # y # b # u) = DecodeRune (c # x # y # b' # u')"
  using assms by (simp_all add: Let_def split: list.split)

lemma escape_raw_head:
  assumes "t = [] \<or> \<not> cont (hd t)"
  obtains (Empty) "t = []" "escape_raw t = []"
    | (Head) b u b' u' where "t = b # u" "escape_raw t = b' # u'" "\<not> cont b" "\<not> cont b'"
  using assms escape_raw_not_cont by (cases t) fastforce+

lemma DecodeRune_escape_raw: "DecodeRune (c # escape_raw s) = DecodeRune (c # s)"
proof (cases "s = [] \<or> \<not> cont (hd s)")
  case True
  then show ?thesis
    by (cases rule: escape_raw_head) (simp_all add: DecodeRune_stop(1) del: DecodeRune.simps)
next
  case False
  then obtain b t where s: "s = b # t" "cont b" by (cases s) auto
  show ?thesis
  proof (cases "t = [] \<or> \<not> cont (hd t)")
    case True
    then show ?thesis using s
      by (cases rule: escape_raw_head) (simp_all add: escape_raw_cont DecodeRune_stop(2) del: DecodeRune.simps)
  next
    case False
    then obtain d u where t: "t = d # u" "cont d" by (cases t) auto
    show ?thesis
    proof (cases "u = [] \<or> \<not> cont (hd u)")
      case True
      then show ?thesis using s t
        by (cases rule: escape_raw_head) (simp_all add: escape_raw_cont DecodeRune_stop(3) del: DecodeRune.simps)
    next
      case False
      then obtain e v where "u = e # v" "cont e" by (cases u) auto
      with s t show ?thesis by (simp add: escape_raw_cont Let_def)
    qed
  qed
qed

text \<open>The bytes of U+2028 and U+2029.\<close>

definition line_sep :: "char \<Rightarrow> string \<Rightarrow> bool" where
  "line_sep c s \<longleftrightarrow> byte c = 0xE2 \<and> (map byte (take 2 s) = [0x80, 0xA8] \<or> map byte (take 2 s) = [0x80, 0xA9])"

lemma line_sepE:
  assumes "line_sep c s"
  obtains b d t where "s = b # d # t" "byte c = 0xE2" "byte b = 0x80" "byte d = 0xA8 \<or> byte d = 0xA9"
    "escape_raw (c # s) = u_escape (0x2028 + (byte d - 0xA8)) @ escape_raw t"
proof -
  from assms obtain b d t where "s = b # d # t" "byte b = 0x80" "byte d = 0xA8 \<or> byte d = 0xA9" and c: "byte c = 0xE2"
    by (cases s; cases "tl s") (auto simp: line_sep_def)
  moreover from c have "\<not> html_special c" by (auto simp: html_special_def byte_def)
  ultimately show thesis using that by (auto simp: escape_raw.simps(2))
qed

lemma escape_raw_other:
  "\<not> html_special c \<Longrightarrow> \<not> line_sep c s \<Longrightarrow> escape_raw (c # s) = c # escape_raw s"
  by (auto simp: escape_raw.simps(2) line_sep_def)

lemma str_scan_escape_raw:
  "str_scan st raw = Some st' \<Longrightarrow> str_scan st (escape_raw raw) = Some st'"
proof (induction "length raw" arbitrary: raw st rule: less_induct)
  case less
  show ?case
  proof (cases raw)
    case Nil
    with less show ?thesis by simp
  next
    case raw: (Cons c s)
    consider "html_special c" | "line_sep c s" | "\<not> html_special c" "\<not> line_sep c s" by blast
    then show ?thesis
    proof cases
      case 1
      with less.prems raw have "st = SPlain \<and> str_scan SPlain s = Some st'"
        by (cases st) (auto simp: html_special_def dquote_def bslash_def byte_def is_hex_def is_digit_def
            split: if_splits)
      with 1 less.hyps [of s SPlain] raw show ?thesis
        by (simp add: escape_raw.simps(2) str_scan_u_escape)
    next
      case 2
      then obtain b d t where s: "s = b # d # t" "byte c = 0xE2" "byte b = 0x80" "byte d = 0xA8 \<or> byte d = 0xA9"
        and e: "escape_raw (c # s) = u_escape (0x2028 + (byte d - 0xA8)) @ escape_raw t" by (rule line_sepE)
      have st: "st = SPlain" using less.prems raw s(2)
        by (cases st) (auto simp: dquote_def bslash_def byte_def is_hex_def is_digit_def split: if_splits)
      have "str_scan SPlain ([c, b, d] @ t) = str_scan SPlain t"
        using s by (intro str_scan_plains) auto
      with less.hyps [of t SPlain] less.prems raw s(1) st e show ?thesis by (simp add: str_scan_u_escape)
    next
      case 3
      with less.prems raw less.hyps [of s] show ?thesis
        by (auto simp: escape_raw_other split: option.splits mode.splits)
    qed
  qed
qed

lemma is_hex_special: "is_hex c \<Longrightarrow> \<not> html_special c \<and> \<not> line_sep c s"
  by (auto dest: hex_plain simp: line_sep_def)

lemma escape_raw_hexs: "list_all is_hex hs \<Longrightarrow> escape_raw (hs @ s) = hs @ escape_raw s"
  by (induction hs) (auto simp: escape_raw_other is_hex_special)

lemma bslash_special [simp]: "\<not> html_special bslash" "\<not> line_sep bslash s"
  by (auto simp: html_special_def bslash_def line_sep_def byte_def)

lemma letter_u [simp]: "\<not> html_special (CHR ''u'')" "\<not> line_sep (CHR ''u'') s"
  "CHR ''u'' \<noteq> bslash" "CHR ''u'' \<noteq> dquote"
  by (auto simp: html_special_def line_sep_def byte_def bslash_def dquote_def)

lemma scan_hex:
  assumes "str_scan (SHex n) s = Some SPlain" and "0 < n"
  shows "\<exists>hs t. s = hs @ t \<and> length hs = n \<and> list_all is_hex hs \<and> str_scan SPlain t = Some SPlain"
  using assms
proof (induction n arbitrary: s)
  case (Suc n)
  then obtain h t where s: "s = h # t" by (cases s) auto
  with Suc.prems have h: "is_hex h" and t: "str_scan (if n = 0 then SPlain else SHex n) t = Some SPlain"
    by (auto split: if_splits)
  show ?case
  proof (cases "n = 0")
    case True
    with s h t show ?thesis by (intro exI [of _ "[h]"] exI [of _ t]) simp
  next
    case False
    with Suc.IH [of t] t obtain hs u where "t = hs @ u" "length hs = n" "list_all is_hex hs"
      "str_scan SPlain u = Some SPlain" by auto
    with s h show ?thesis by (intro exI [of _ "h # hs"] exI [of _ u]) simp
  qed
qed simp

lemma scan_escape:
  assumes "str_scan SPlain (bslash # s) = Some SPlain"
  obtains (Unicode) hs t where "s = CHR ''u'' # hs @ t" "length hs = 4" "list_all is_hex hs"
      "str_scan SPlain t = Some SPlain" "escape_raw (bslash # s) = bslash # CHR ''u'' # hs @ escape_raw t"
    | (Simple) e t where "s = e # t" "e \<noteq> CHR ''u''" "str_scan SPlain t = Some SPlain"
      "escape_raw (bslash # s) = bslash # e # escape_raw t"
proof (cases s)
  case Nil
  with assms show thesis by simp
next
  case (Cons e t)
  show thesis
  proof (cases "e = CHR ''u''")
    case True
    with assms Cons have "str_scan (SHex 4) t = Some SPlain" by simp
    from scan_hex [OF this] obtain hs u where "t = hs @ u" "length hs = 4" "list_all is_hex hs"
      "str_scan SPlain u = Some SPlain" by auto
    with True Cons Unicode show thesis by (simp add: escape_raw_other escape_raw_hexs)
  next
    case False
    with assms Cons have e: "e \<in> {CHR ''b'', CHR ''f'', CHR ''n'', CHR ''r'', CHR ''t'', bslash, CHR ''/'', dquote}"
      and t: "str_scan SPlain t = Some SPlain" by (auto split: if_splits)
    from e have "\<not> html_special e" "byte e < 0x80"
      by (auto simp: html_special_def byte_def bslash_def dquote_def)
    with False Cons t Simple show thesis by (simp add: escape_raw_other escape_raw_plain)
  qed
qed

lemma low_surrogate_u_escape: "r < 0xDC00 \<Longrightarrow> low_surrogate (u_escape r @ s) = None"
  using hex4_u_escape [of r s] by (simp add: low_surrogate_def u_escape_def)

lemma low_surrogate_other: "c \<noteq> bslash \<Longrightarrow> low_surrogate (c # s) = None"
  by (simp add: low_surrogate_def)

lemma low_surrogate_escape_raw:
  assumes "str_scan SPlain t = Some SPlain"
  shows "low_surrogate t = None \<and> low_surrogate (escape_raw t) = None \<or>
    low_surrogate (escape_raw t) = low_surrogate t \<and> drop 6 (escape_raw t) = escape_raw (drop 6 t) \<and>
    str_scan SPlain (drop 6 t) = Some SPlain"
proof (cases t)
  case Nil
  then show ?thesis by (simp add: low_surrogate_def)
next
  case (Cons c s)
  show ?thesis
  proof (cases "c = bslash")
    case False
    have "low_surrogate (escape_raw t) = None"
    proof (cases "line_sep c s")
      case True
      then show ?thesis using Cons by (auto elim!: line_sepE simp: low_surrogate_u_escape)
    next
      case n: False
      show ?thesis
      proof (cases "html_special c")
        case True
        then have "byte c < 0x80" by (auto simp: html_special_def byte_def)
        with True Cons show ?thesis by (simp add: escape_raw.simps(2) low_surrogate_u_escape)
      next
        case False
        with n \<open>c \<noteq> bslash\<close> Cons show ?thesis by (simp add: escape_raw_other low_surrogate_other)
      qed
    qed
    with False Cons show ?thesis by (simp add: low_surrogate_other)
  next
    case True
    with assms Cons have "str_scan SPlain (bslash # s) = Some SPlain" by simp
    then show ?thesis
    proof (cases rule: scan_escape)
      case (Unicode hs u)
      then obtain a b d e where "hs = [a, b, d, e]" by (auto simp: numeral_eq_Suc length_Suc_conv)
      with Unicode True Cons show ?thesis by (simp add: low_surrogate_def hex4_def)
    next
      case (Simple e u)
      with True Cons show ?thesis by (simp add: low_surrogate_def)
    qed
  qed
qed

lemma unquote_escape_raw:
  "str_scan SPlain raw = Some SPlain \<Longrightarrow> unquote (escape_raw raw) = unquote raw"
proof (induction "length raw" arbitrary: raw rule: less_induct)
  case less
  show ?case
  proof (cases raw)
    case raw: (Cons c s)
    consider "c = bslash" | "html_special c" | "line_sep c s"
      | "c \<noteq> bslash" "\<not> html_special c" "\<not> line_sep c s" by blast
    then show ?thesis
    proof cases
      case 1
      with less.prems raw have "str_scan SPlain (bslash # s) = Some SPlain" by simp
      then show ?thesis
      proof (cases rule: scan_escape)
        case (Unicode hs t)
        then obtain h1 h2 h3 h4 where hs: "hs = [h1, h2, h3, h4]" by (auto simp: numeral_eq_Suc length_Suc_conv)
        have "hex4 (h1 # h2 # h3 # h4 # escape_raw t) = hex4 (h1 # h2 # h3 # h4 # t)" by (simp add: hex4_def)
        moreover have "unquote (escape_raw t) = unquote t" using less.hyps [of t] Unicode raw 1 by simp
        moreover have "low_surrogate t = None \<and> low_surrogate (escape_raw t) = None \<or>
            low_surrogate (escape_raw t) = low_surrogate t \<and>
            unquote (drop 6 (escape_raw t)) = unquote (drop 6 t)"
          using low_surrogate_escape_raw [OF Unicode(4)] less.hyps [of "drop 6 t"] Unicode raw 1 by auto
        ultimately show ?thesis
          using Unicode(1,5) raw 1 hs
          by (auto simp: unquote.simps(2) [of bslash] Let_def split: option.splits)
      next
        case (Simple e t)
        with less.hyps [of t] raw 1 show ?thesis by (simp add: unquote_escape)
      qed
    next
      case 2
      then have c: "byte c < 0x80" "c \<noteq> bslash" "c \<noteq> dquote" "0x20 \<le> byte c"
        by (auto simp: html_special_def byte_def bslash_def dquote_def)
      with less.prems raw have "str_scan SPlain s = Some SPlain" by simp
      with less.hyps [of s] raw 2 c show ?thesis
        by (simp add: escape_raw.simps(2) unquote_u_escape unquote_ascii is_surrogate_def)
    next
      case 3
      then obtain b d t where s: "s = b # d # t" "byte c = 0xE2" "byte b = 0x80" "byte d = 0xA8 \<or> byte d = 0xA9"
        and e: "escape_raw (c # s) = u_escape (0x2028 + (byte d - 0xA8)) @ escape_raw t" by (rule line_sepE)
      have "str_scan SPlain ([c, b, d] @ t) = str_scan SPlain t" using s by (intro str_scan_plains) auto
      with less.prems raw s have t: "unquote (escape_raw t) = unquote t" using less.hyps [of t] by simp
      have "c \<noteq> bslash" using s(2) by auto
      moreover have "DecodeRune (c # s) = (0x2028 + (byte d - 0xA8), 3)"
        using s by (auto simp: cont_def payload_def)
      ultimately have "unquote raw = EncodeRune (0x2028 + (byte d - 0xA8)) @ unquote t"
        using s(1) raw by (simp add: unquote.simps(2) del: DecodeRune.simps)
      moreover have "unquote (escape_raw raw) = EncodeRune (0x2028 + (byte d - 0xA8)) @ unquote (escape_raw t)"
        unfolding raw e using s(4) by (intro unquote_u_escape) (auto simp: is_surrogate_def)
      ultimately show ?thesis using t by simp
    next
      case 4
      obtain r w where d: "DecodeRune (c # s) = (r, w)" by fastforce
      have w: "1 \<le> w" "w \<le> Suc (length s)" using DecodeRune_width [of "c # s"] d by auto
      have conts: "list_all cont (take (w - 1) s)"
      proof (cases "byte c < 0x80")
        case True
        with d show ?thesis by simp
      next
        case False
        with DecodeRune_conts [OF d] show ?thesis by simp
      qed
      have split: "take (w - 1) s @ drop (w - 1) s = s" by simp
      have "drop (w - 1) (escape_raw s) = escape_raw (drop (w - 1) s)"
        using escape_raw_conts [OF conts, of "drop (w - 1) s"] w by simp
      moreover have "str_scan SPlain s = Some SPlain"
        using less.prems raw 4(1) by (auto split: if_splits)
      then have "str_scan SPlain (drop (w - 1) s) = Some SPlain"
        using str_scan_plains [of "take (w - 1) s" "drop (w - 1) s"] conts
        by (auto simp: cont_def list_all_iff)
      moreover have "length (drop (w - 1) s) < length raw" using raw by simp
      ultimately show ?thesis
        using raw 4 d less.hyps [of "drop (w - 1) s"] DecodeRune_escape_raw [of c s]
        by (simp add: escape_raw_other unquote.simps(2) del: DecodeRune.simps)
    qed
  qed simp
qed

section \<open>Values\<close>

lemma json_escape_wf: "json_wf j \<Longrightarrow> json_wf (json_escape j)"
  by (induction j rule: json_escape.induct)
    (auto simp: raw_ok_def str_scan_escape_raw list_all_iff)

lemma json_escape_depth [simp]: "json_depth (json_escape j) = json_depth j"
proof (induction j rule: json_escape.induct)
  case (2 xs)
  then have "map (json_depth \<circ> json_escape) xs = map json_depth xs" by simp
  then show ?case by (simp only: json_escape.simps json_depth.simps map_map)
next
  case (3 kvs)
  have "map ((\<lambda>(k, v). json_depth v) \<circ> (\<lambda>(k, v). (escape_raw k, json_escape v))) kvs =
      map (\<lambda>(k, v). json_depth v) kvs"
    using 3 by (auto simp: case_prod_beta)
  then show ?case by (simp only: json_escape.simps json_depth.simps map_map)
qed simp_all

lemma json_escape_to_any: "json_wf j \<Longrightarrow> to_any num (json_escape j) = to_any num j"
proof (induction j rule: json_escape.induct)
  case (1 s)
  then show ?case by (simp add: raw_ok_def unquote_escape_raw)
next
  case (2 xs)
  then have "map (to_any num \<circ> json_escape) xs = map (to_any num) xs" by (simp add: list_all_iff)
  then show ?case by (simp only: json_escape.simps to_any.simps map_map)
next
  case (3 kvs)
  have "map ((\<lambda>(k, v). map_option (Pair (unquote k)) (to_any num v)) \<circ> (\<lambda>(k, v). (escape_raw k, json_escape v))) kvs =
      map (\<lambda>(k, v). map_option (Pair (unquote k)) (to_any num v)) kvs"
    using 3 by (auto simp: list_all_iff raw_ok_def unquote_escape_raw)
  then show ?case by (simp only: json_escape.simps to_any.simps map_map)
qed simp_all

lemma marshal_raw_Some:
  assumes "marshal_raw raw = Some j"
  obtains v where "json_parse raw = Some v" "json_wf j" "json_depth j = json_depth v"
    "json_depth v \<le> maxNestingDepth" "to_any num j = to_any num v"
  using assms json_parse_wf [of raw]
  by (auto simp: marshal_raw_def json_escape_wf json_escape_to_any)

lemma nat_dec_first:
  assumes "0 < n"
  shows "\<exists>d ds. nat_dec n = d # ds \<and> d \<noteq> CHR ''0''"
  using assms
proof (induction n rule: nat_dec.induct)
  case (1 n)
  show ?case
  proof (cases "n < 10")
    case True
    have "char_of (48 + n) \<noteq> CHR ''0''"
    proof
      assume "char_of (48 + n) = CHR ''0''"
      then have "byte (char_of (48 + n)) = byte (CHR ''0'')" by simp
      with True 1(2) show False by (simp add: byte_def)
    qed
    with True show ?thesis by (simp add: nat_dec.simps [of n])
  next
    case False
    then have "0 < n div 10" by (simp add: div_greater_zero_iff)
    with 1(1) [OF False] obtain d ds where "nat_dec (n div 10) = d # ds" "d \<noteq> CHR ''0''" by blast
    with False show ?thesis by (simp add: nat_dec.simps [of n])
  qed
qed

lemma num_scan_digits: "list_all is_digit ds \<Longrightarrow> num_scan NInt ds = Some NInt"
  by (induction ds) auto

lemma num_ok_Itoa: "num_ok (Itoa i)"
proof -
  have pos: "num_ok (nat_dec n) \<and> num_ok (''-'' @ nat_dec n)" if "0 < n" for n
  proof -
    obtain d ds where d: "nat_dec n = d # ds" "d \<noteq> CHR ''0''" using nat_dec_first \<open>0 < n\<close> by blast
    with nat_dec_digits [of n] have "is_digit d" "list_all is_digit ds" by auto
    moreover from this(1) have "d \<noteq> CHR ''-''" by (auto simp: is_digit_def byte_def)
    ultimately show ?thesis using d
      by (simp add: num_begin_def num_scan_digits num_done_def)
  qed
  have "nat_dec 0 = ''0''" by code_simp
  then have "num_ok (nat_dec 0)" by (simp add: num_begin_def num_done_def)
  with pos show ?thesis by (cases "nat i = 0") (auto simp: Itoa_def)
qed

fun goval_wf :: "goval \<Rightarrow> bool" where
  "goval_wf (GFloat t) = num_ok t"
| "goval_wf (GNumber n) = (n = [] \<or> num_ok n)"
| "goval_wf (GSlice xs) = list_all goval_wf xs"
| "goval_wf (GMap m) = list_all (\<lambda>(k, v). goval_wf v) m"
| "goval_wf _ = True"

lemma of_any_wf: "goval_wf v \<Longrightarrow> json_wf (of_any v)"
  by (induction v rule: of_any.induct)
    (auto simp: num_ok_Itoa raw_ok_quote_string list_all_iff num_begin_def num_done_def)

text \<open>Values that survive encoding: what decoding can produce, with maps listed in key order.\<close>

fun canonical :: "(string \<Rightarrow> goval option) \<Rightarrow> goval \<Rightarrow> bool" where
  "canonical num GNil = True"
| "canonical num (GBool b) = True"
| "canonical num (GInt i) = False"
| "canonical num (GFloat t) = (num t = Some (GFloat t))"
| "canonical num (GNumber n) = (n \<noteq> [] \<and> num n = Some (GNumber n))"
| "canonical num (GString s) = ValidString s"
| "canonical num (GSlice xs) = list_all (canonical num) xs"
| "canonical num (GMap m) \<longleftrightarrow>
     sorted (map fst m) \<and> distinct (map fst m) \<and> list_all (\<lambda>(k, v). ValidString k \<and> canonical num v) m"

lemma those_map_Some: "(\<And>x. x \<in> set xs \<Longrightarrow> f x = Some (g x)) \<Longrightarrow> those (map f xs) = Some (map g xs)"
  by (induction xs) auto

lemma put_all_distinct:
  "distinct (map fst kvs) \<Longrightarrow> fst ` set kvs \<inter> fst ` set m = {} \<Longrightarrow> put_all kvs m = m @ kvs"
proof (induction kvs arbitrary: m)
  case (Cons kv kvs)
  obtain k v where kv: "kv = (k, v)" by fastforce
  have "AList.update k v m = m @ [(k, v)]"
    using Cons.prems(2) kv by (induction m) auto
  with Cons kv show ?case by (auto simp: put_all_def)
qed (simp add: put_all_def)

lemma to_any_of_any: "canonical num v \<Longrightarrow> to_any num (of_any v) = Some v"
proof (induction v rule: of_any.induct)
  case (7 xs)
  then have "those (map (to_any num) (map of_any xs)) = Some (map id xs)"
    unfolding map_map by (intro those_map_Some) (auto simp: list_all_iff)
  then show ?case by simp
next
  case (8 m)
  let ?enc = "map (\<lambda>(k, v). (k, of_any v)) m"
  have e: "map fst ?enc = map fst m" by (induction m) auto
  have sorted: "sort_key fst ?enc = ?enc"
    by (rule sort_key_id_if_sorted) (use 8(2) in \<open>simp only: e canonical.simps\<close>)
  have "those (map (\<lambda>(k, v). map_option (Pair (unquote k)) (to_any num v))
      (map (\<lambda>(k, j). (quote_string k, j)) ?enc)) = Some (map id m)"
    unfolding map_map using 8
    by (intro those_map_Some) (fastforce simp: list_all_iff unquote_quote_valid)
  with 8(2) show ?case by (simp add: sorted put_all_distinct)
qed (simp_all add: unquote_quote_valid)

lemma decode_marshal:
  assumes "canonical num v" and "goval_wf v" and "json_depth (of_any v) \<le> maxNestingDepth"
  shows "Option.bind (json_parse (marshal v)) (to_any num) = Some v"
  using assms by (simp add: marshal_def parse_print of_any_wf to_any_of_any)

section \<open>Streams that hold one value\<close>

lemma end_value_top: "end_value v [] c = Some s \<Longrightarrow> is_space c \<and> s = (EndValue v, [])"
  by (auto simp: end_value.simps split: if_splits)

lemma jrun_top:
  assumes "jrun (EndValue v, []) cs = Some s" and "jfinish s = Some u"
  shows "u = v"
  using assms
proof (induction cs arbitrary: s)
  case Nil
  then show ?case by (auto simp: jfinish_def)
next
  case (Cons c cs)
  from Cons.prems(1) have "jrun (EndValue v, []) cs = Some s"
    by (auto split: option.splits dest!: end_value_top)
  then show ?case by (rule Cons.IH [OF _ Cons.prems(2)])
qed

lemma jfirst_parse:
  "jrun s cs = Some s' \<Longrightarrow> jfinish s' = Some v \<Longrightarrow> jfirst s n cs = Inr v"
proof (induction cs arbitrary: s n)
  case Nil
  then show ?case by simp
next
  case (Cons c cs)
  then obtain q where q: "jstep s c = Some q" "jrun q cs = Some s'" by (auto split: option.splits)
  show ?case
  proof (cases "value_done s c")
    case None
    with q Cons show ?thesis by simp
  next
    case (Some u)
    then have "q = (EndValue u, [])"
      using q(1) by (cases "(s, c)" rule: value_done.cases) (auto split: if_splits dest!: end_value_top)
    with q(2) Cons.prems(2) have "v = u" by (auto dest: jrun_top)
    with Some show ?thesis by simp
  qed
qed

lemma json_first_parse: "json_parse s = Some v \<Longrightarrow> json_first s = Inr v"
  by (cases "jrun jstart s") (auto simp: json_parse_def json_first_def intro: jfirst_parse)

lemma map_of_put_all: "map_of (put_all kvs m) = map_of m ++ map_of (rev kvs)"
  by (induction kvs arbitrary: m) (auto simp: put_all_def update_conv' map_add_def fun_eq_iff split: option.splits)

lemma map_of_perm:
  assumes "distinct (map fst xs)" and "set ys = set xs" and "distinct (map fst ys)"
  shows "map_of ys = map_of xs"
proof
  fix k
  show "map_of ys k = map_of xs k"
    using assms by (metis map_of_eq_Some_iff not_Some_eq)
qed

lemma map_of_sort_key:
  assumes "distinct (map fst xs)"
  shows "map_of (sort_key fst xs) = map_of (xs :: ('a :: linorder \<times> 'b) list)"
proof (rule map_of_perm [OF assms])
  have "mset (map fst (sort_key fst xs)) = mset (map fst xs)" by simp
  with assms show "distinct (map fst (sort_key fst xs))" by (metis mset_eq_imp_distinct_iff)
qed simp

lemma those_all: "(\<And>x. x \<in> set xs \<Longrightarrow> f x \<noteq> None) \<Longrightarrow> those (map f xs) = Some (map (the \<circ> f) xs)"
proof (induction xs)
  case (Cons x xs)
  then obtain y where "f x = Some y" by (meson list.set_intros(1) not_Some_eq)
  with Cons show ?case by simp
qed simp

lemma to_any_total:
  assumes "\<And>lit. num lit \<noteq> None"
  shows "to_any num j \<noteq> None"
proof (induction j)
  case (JArr xs)
  then show ?case by (simp add: those_all)
next
  case (JObj kvs)
  have "those (map (\<lambda>(k, v). map_option (Pair (unquote k)) (to_any num v)) kvs) \<noteq> None"
    using JObj by (subst those_all) auto
  then show ?case by simp
qed (use assms in auto)

section \<open>Evaluation\<close>

lemma unquote_plain: "list_all (\<lambda>c. byte c < 0x80 \<and> c \<noteq> bslash) s \<Longrightarrow> unquote s = s"
  by (induction s) (auto simp: unquote_ascii)

text \<open>What the simplifier needs to run the scanner and the string functions on literals.\<close>

lemmas json_eval = json_parse_def jstart_def jfinish_def is_space_def byte_def dquote_def bslash_def
  begin_value.simps end_value.simps push_def maxNestingDepth_def is_digit_def num_done_def is_hex_def

lemmas string_eval = byte_def dquote_def bslash_def HasPrefix_def TrimSpace_def segments.simps IsSpace_def
  EqualFold_def fold_rune_def escape_raw.simps html_special_def

end
