(* ===== verification/Sha1.thy ===== *)
theory Sha1
  imports Go_Strings "HOL-Library.Word"
begin

text \<open>
  \<^verbatim>\<open>crypto/sha1\<close>: \<open>sha1_Sum\<close> is the SHA-1 digest of a byte string, \<open>sha1_hex\<close> its hexadecimal
  form (the \<^verbatim>\<open>%x\<close> verb), which the vector-data service uses as an entity tag.
\<close>

unbundle bit_operations_syntax

type_synonym word32 = "32 word"
type_synonym sha_state = "word32 \<times> word32 \<times> word32 \<times> word32 \<times> word32"

definition rotl :: "nat \<Rightarrow> word32 \<Rightarrow> word32" where
  "rotl n x = push_bit n x OR drop_bit (32 - n) x"

text \<open>Big-endian bytes of a number.\<close>

fun be_bytes :: "nat \<Rightarrow> int \<Rightarrow> int list" where
  "be_bytes 0 n = []"
| "be_bytes (Suc k) n = be_bytes k (n div 256) @ [n mod 256]"

fun be_words :: "int list \<Rightarrow> word32 list" where
  "be_words (a # b # c # d # bs) = word_of_int (((a * 256 + b) * 256 + c) * 256 + d) # be_words bs"
| "be_words _ = []"

definition sha1_pad :: "int list \<Rightarrow> int list" where
  "sha1_pad m =
     m @ [0x80] @ replicate ((119 - length m mod 64) mod 64) 0 @ be_bytes 8 (8 * int (length m) mod 2 ^ 64)"

text \<open>The message schedule: the words so far, last one first.\<close>

fun sha1_expand :: "nat \<Rightarrow> word32 list \<Rightarrow> word32 list" where
  "sha1_expand 0 ws = ws"
| "sha1_expand (Suc n) ws =
     sha1_expand n (rotl 1 (ws ! 2 XOR ws ! 7 XOR ws ! 13 XOR ws ! 15) # ws)"

definition sha1_f :: "nat \<Rightarrow> word32 \<Rightarrow> word32 \<Rightarrow> word32 \<Rightarrow> word32" where
  "sha1_f t b c d =
     (if t < 20 then (b AND c) OR (NOT b AND d)
      else if t < 40 then b XOR c XOR d
      else if t < 60 then (b AND c) OR (b AND d) OR (c AND d)
      else b XOR c XOR d)"

definition sha1_k :: "nat \<Rightarrow> word32" where
  "sha1_k t =
     (if t < 20 then 0x5A827999 else if t < 40 then 0x6ED9EBA1 else if t < 60 then 0x8F1BBCDC
      else 0xCA62C1D6)"

fun sha1_rounds :: "nat \<Rightarrow> word32 list \<Rightarrow> sha_state \<Rightarrow> sha_state" where
  "sha1_rounds t [] s = s"
| "sha1_rounds t (w # ws) (a, b, c, d, e) =
     sha1_rounds (t + 1) ws (rotl 5 a + sha1_f t b c d + e + w + sha1_k t, a, rotl 30 b, c, d)"

definition sha1_block :: "sha_state \<Rightarrow> word32 list \<Rightarrow> sha_state" where
  "sha1_block s ws =
     (let (a, b, c, d, e) = s;
          (a', b', c', d', e') = sha1_rounds 0 (rev (sha1_expand 64 (rev ws))) s
      in (a + a', b + b', c + c', d + d', e + e'))"

fun sha1_blocks :: "nat \<Rightarrow> sha_state \<Rightarrow> word32 list \<Rightarrow> sha_state" where
  "sha1_blocks 0 s ws = s"
| "sha1_blocks (Suc n) s ws = sha1_blocks n (sha1_block s (take 16 ws)) (drop 16 ws)"

definition sha1_Sum :: "string \<Rightarrow> int list" where
  "sha1_Sum s =
     (let m = sha1_pad (map (int \<circ> byte) s);
          (a, b, c, d, e) = sha1_blocks (length m div 64)
            (0x67452301, 0xEFCDAB89, 0x98BADCFE, 0x10325476, 0xC3D2E1F0) (be_words m)
      in concat (map (be_bytes 4 \<circ> uint) [a, b, c, d, e]))"

definition hex_string :: "int list \<Rightarrow> string" where
  "hex_string bs = concat (map (\<lambda>b. [hex_digit (nat (b div 16)), hex_digit (nat (b mod 16))]) bs)"

definition sha1_hex :: "string \<Rightarrow> string" where
  "sha1_hex s = hex_string (sha1_Sum s)"

section \<open>Lemmas\<close>

lemma length_be_bytes [simp]: "length (be_bytes k n) = k"
  by (induction k n rule: be_bytes.induct) auto

lemma length_sha1_Sum: "length (sha1_Sum s) = 20"
  by (simp add: sha1_Sum_def Let_def split: prod.split)

lemma length_sha1_hex: "length (sha1_hex s) = 40"
  using length_sha1_Sum [of s]
  by (simp add: sha1_hex_def hex_string_def length_concat comp_def sum_list_triv)

text \<open>The padded message is a whole number of 64-byte blocks.\<close>

lemma sha1_pad_blocks: "64 dvd length (sha1_pad m)"
proof -
  define q r where "q = length m div 64" and "r = length m mod 64"
  have m: "length m = 64 * q + r" and "r < 64" by (simp_all add: q_def r_def)
  have "(119 - r) mod 64 = (if r \<le> 55 then 55 - r else 119 - r)"
    using \<open>r < 64\<close> by (auto simp: mod_if)
  then have "length (sha1_pad m) = (if r \<le> 55 then 64 * (q + 1) else 64 * (q + 2))"
    using \<open>r < 64\<close> by (auto simp: sha1_pad_def m)
  then show ?thesis by (simp split: if_splits)
qed

end
