(* ===== verification/VectorData_Service.thy ===== *)
theory VectorData_Service
  imports Config_Cache JSON Sha1
begin

text \<open>
  The vector-data service, \<^verbatim>\<open>cmd/vectordata/vector_data_service.go\<close>: an OpenFeature remote
  evaluation endpoint that answers flag requests from the ConfigMaps the VectorData controller
  materializes, with a cache in front of the API server.

  \<^item> \<open>svc_env\<close> is what the service is given: the ConfigMap reader of the Kubernetes client, the
    group that merges concurrent fetches of one vector (\<^verbatim>\<open>singleflight\<close>), the readiness callback,
    the cache operations, and the parts of the standard library that depend on tables: float64
    conversion, Unicode case folding and the texts of decoding errors.
  \<^item> The world of a request is extended with the state of the cache.
  \<^item> A handler maps a request to a response; the response is the status code, the headers in the
    order they are set and the body.
\<close>

section \<open>Constants\<close>

definition svc_FeaturesConfigKey :: string where
  "svc_FeaturesConfigKey = ''features.json''"

definition svc_AuthoredConfigKey :: string where
  "svc_AuthoredConfigKey = ''authored.json''"

definition svc_DeploymentResultsPrefix :: string where
  "svc_DeploymentResultsPrefix = ''deploymentResults.''"

definition svc_JsonSuffix :: string where
  "svc_JsonSuffix = ''.json''"

definition TargetingKey :: string where
  "TargetingKey = ''targetingKey''"

definition svc_Features :: string where
  "svc_Features = ''features''"

definition svc_Authored :: string where
  "svc_Authored = ''authored''"

definition svc_DeploymentResults :: string where
  "svc_DeploymentResults = ''deploymentResults''"

definition TargetingMatchReason :: string where
  "TargetingMatchReason = ''TARGETING_MATCH''"

definition FlagNotFoundErrorCode :: string where
  "FlagNotFoundErrorCode = ''FLAG_NOT_FOUND''"

definition ParseErrorErrorCode :: string where
  "ParseErrorErrorCode = ''PARSE_ERROR''"

definition TargetingKeyMissingErrorCode :: string where
  "TargetingKeyMissingErrorCode = ''TARGETING_KEY_MISSING''"

section \<open>Requests, responses and the environment\<close>

text \<open>
  Of a request the handlers read the flag key of the path, the body and the \<^verbatim>\<open>If-None-Match\<close>
  header (empty when absent).
\<close>

record http_request =
  PathKey :: string
  Body :: string
  IfNoneMatch :: string

record http_response =
  StatusCode :: nat
  Headers :: "(string \<times> string) list"
  RespBody :: string

type_synonym cm_data = "string gomap"

datatype svc_event =
    EvFetch NamespacedName "cm_data result"
  | EvShared string "string result"

text \<open>
  \<open>InFlight\<close> is the answer of \<^verbatim>\<open>singleflight.Group.Do\<close>: \<open>None\<close> when the caller has to run the
  fetch itself, \<open>Some r\<close> when a fetch of the same vector was under way and ended with \<open>r\<close>.
\<close>

record ('s, 'c) svc_env =
  FetchConfigMap :: "NamespacedName \<Rightarrow> 's \<Rightarrow> cm_data result \<times> 's"
  InFlight :: "string \<Rightarrow> 's \<Rightarrow> string result option \<times> 's"
  ReadyFunc :: "('s \<Rightarrow> bool \<times> 's) option"
  CacheOps :: "'c Cache"
  SvcNamespace :: string
  Float64 :: "string \<Rightarrow> string option"
  UnicodeFold :: "nat \<Rightarrow> nat"
  TypeErrorText :: "json \<Rightarrow> string"

record ('s, 'c) svc_world = "('s, svc_event) world" +
  cache :: 'c

section \<open>Decoding the request\<close>

definition float_num :: "('s, 'c) svc_env \<Rightarrow> string \<Rightarrow> goval option" where
  "float_num E lit = map_option GFloat (Float64 E lit)"

text \<open>
  Decoding into \<^verbatim>\<open>EvaluationRequest\<close>: members whose name equals \<^verbatim>\<open>context\<close> up to letter case are
  decoded into the map, which later members extend; other members are skipped. \<open>None\<close> is a value
  of the wrong type.
\<close>

fun decode_context :: "('s, 'c) svc_env \<Rightarrow> goval gomap \<Rightarrow> (string \<times> json) list \<Rightarrow> goval gomap option" where
  "decode_context E m [] = Some m"
| "decode_context E m ((k, v) # kvs) =
     (if EqualFold (UnicodeFold E) (unquote k) ''context'' then
        (case v of
           JNull \<Rightarrow> decode_context E [] kvs
         | JObj ms \<Rightarrow>
             (case those (map (\<lambda>(k, v). map_option (Pair (unquote k)) (to_any (float_num E) v)) ms) of
                None \<Rightarrow> None
              | Some ps \<Rightarrow> decode_context E (put_all ps m) kvs)
         | _ \<Rightarrow> None)
      else decode_context E m kvs)"

definition getEvaluationContext :: "('s, 'c) svc_env \<Rightarrow> string \<Rightarrow> goval gomap result" where
  "getEvaluationContext E body =
     (let invalid = (\<lambda>msg. Inl (ErrMsg (''invalid JSON in request body: '' @ msg))) in
      case json_first body of
        Inl (SyntaxError off) \<Rightarrow> Inl (ErrMsg (''syntax error in JSON at char '' @ nat_dec off))
      | Inl StreamEOF \<Rightarrow> invalid ''EOF''
      | Inl UnexpectedEOF \<Rightarrow> invalid ''unexpected EOF''
      | Inl UnmarshalTypeError \<Rightarrow> invalid []
      | Inr j \<Rightarrow>
          (case j of
             JNull \<Rightarrow> Inr []
           | JObj kvs \<Rightarrow>
               (case decode_context E [] kvs of None \<Rightarrow> invalid (TypeErrorText E j) | Some m \<Rightarrow> Inr m)
           | _ \<Rightarrow> invalid (TypeErrorText E j)))"

text \<open>The type assertion \<^verbatim>\<open>req.Context[TargetingKey].(string)\<close>.\<close>

definition targeting_key :: "goval gomap \<Rightarrow> string option" where
  "targeting_key ctx = (case map_of ctx TargetingKey of Some (GString s) \<Rightarrow> Some s | _ \<Rightarrow> None)"

section \<open>The configuration of a vector\<close>

definition endsWithSuffix :: "(nat \<Rightarrow> nat) \<Rightarrow> string \<Rightarrow> string \<Rightarrow> bool" where
  "endsWithSuffix foldU str suffix =
     (if length str < length suffix then False
      else EqualFold foldU (drop (length str - length suffix) str) suffix)"

text \<open>Lines 291 to 299: the deployment name of a data key with the results prefix.\<close>

definition deployment_name :: "(nat \<Rightarrow> nat) \<Rightarrow> string \<Rightarrow> string" where
  "deployment_name foldU key =
     (let n = TrimSpace (drop (length svc_DeploymentResultsPrefix) key) in
      if endsWithSuffix foldU n svc_JsonSuffix then take (length n - length svc_JsonSuffix) n else n)"

fun config_loop ::
  "(nat \<Rightarrow> nat) \<Rightarrow> string \<Rightarrow> string gomap \<Rightarrow> string gomap \<Rightarrow> cm_data \<Rightarrow> (string gomap \<times> string gomap) result" where
  "config_loop foldU vectorId configuration results [] = Inr (configuration, results)"
| "config_loop foldU vectorId configuration results ((key, val) # rest) =
     (if key = svc_FeaturesConfigKey then
        config_loop foldU vectorId (AList.update svc_Features val configuration) results rest
      else if key = svc_AuthoredConfigKey then
        config_loop foldU vectorId (AList.update svc_Authored val configuration) results rest
      else if HasPrefix key svc_DeploymentResultsPrefix then
        (let name = deployment_name foldU key in
         if name = [] then
           Inl (ErrMsg (''configMap '' @ [squote] @ vectorId @ [squote] @ '' contains an invalid deploymentResult name: '' @ key))
         else config_loop foldU vectorId configuration (AList.update name val results) rest)
      else config_loop foldU vectorId configuration results rest)"

text \<open>A \<^verbatim>\<open>map[string]json.RawMessage\<close> as \<^verbatim>\<open>json.Marshal\<close> writes it.\<close>

definition raw_members :: "string gomap \<Rightarrow> (string \<times> json) list option" where
  "raw_members m = those (map (\<lambda>(k, raw). map_option (Pair k) (marshal_raw raw)) m)"

definition object_of :: "(string \<times> json) list \<Rightarrow> json" where
  "object_of ms = JObj (map (\<lambda>(k, j). (quote_string k, j)) (sort_key fst ms))"

definition marshal_configuration :: "string gomap \<Rightarrow> string gomap \<Rightarrow> json option" where
  "marshal_configuration configuration results =
     (case raw_members configuration of
        None \<Rightarrow> None
      | Some ms \<Rightarrow>
          if results = [] then Some (object_of ms)
          else (case raw_members results of
                  None \<Rightarrow> None
                | Some rs \<Rightarrow> Some (object_of (ms @ [(svc_DeploymentResults, object_of rs)]))))"

text \<open>
  Lines 278 to 319, from the ConfigMap's data to the combined text; the empty string when there is
  nothing to serve.
\<close>

definition build_configuration :: "(nat \<Rightarrow> nat) \<Rightarrow> string \<Rightarrow> cm_data \<Rightarrow> string result" where
  "build_configuration foldU vectorId data =
     (case config_loop foldU vectorId [] [] data of
        Inl e \<Rightarrow> Inl e
      | Inr (configuration, results) \<Rightarrow>
          if configuration = [] \<and> results = [] then Inr []
          else (case marshal_configuration configuration results of
                  None \<Rightarrow> Inl (ErrMsg (''configMap '' @ [squote] @ vectorId @ [squote] @ '' contains invalid json''))
                | Some j \<Rightarrow> Inr (json_print j)))"

definition svc_cm_key :: "('s, 'c) svc_env \<Rightarrow> string \<Rightarrow> NamespacedName" where
  "svc_cm_key E vectorId = nsname (SvcNamespace E) (cmPrefix @ vectorId)"

text \<open>The function run under \<^verbatim>\<open>singleflight\<close>.\<close>

definition fetchConfiguration ::
  "('s, 'c) svc_env \<Rightarrow> string \<Rightarrow> ('s, 'c) svc_world \<Rightarrow> string result \<times> ('s, 'c) svc_world" where
  "fetchConfiguration E vectorId w =
     (let (r, w1) = call (FetchConfigMap E (svc_cm_key E vectorId)) (EvFetch (svc_cm_key E vectorId)) w in
      case r of
        Inl err \<Rightarrow> if IsNotFound err then (Inr [], w1) else (Inl err, w1)
      | Inr data \<Rightarrow>
          (case build_configuration (UnicodeFold E) vectorId data of
             Inl e \<Rightarrow> (Inl e, w1)
           | Inr config \<Rightarrow>
               if config = [] then (Inr [], w1)
               else (Inr config, w1\<lparr>cache := Cache_Set (CacheOps E) (cache w1) vectorId config\<rparr>)))"

definition getConfiguration ::
  "('s, 'c) svc_env \<Rightarrow> string \<Rightarrow> ('s, 'c) svc_world \<Rightarrow> string result \<times> ('s, 'c) svc_world" where
  "getConfiguration E vectorId w =
     (case Cache_Get (CacheOps E) (cache w) vectorId of
        Some cachedConfig \<Rightarrow> (Inr cachedConfig, w)
      | None \<Rightarrow>
          (let (shared, w1) = silent (InFlight E vectorId) w in
           case shared of
             Some r \<Rightarrow> (r, emit (EvShared vectorId r) w1)
           | None \<Rightarrow> fetchConfiguration E vectorId w1))"

section \<open>Flags\<close>

text \<open>Numbers are kept as literals here (\<^verbatim>\<open>decoder.UseNumber()\<close>).\<close>

definition keep_num :: "string \<Rightarrow> goval option" where
  "keep_num lit = Some (GNumber lit)"

text \<open>A nil map and an empty one are the same to the callers.\<close>

definition getAllFeatures :: "string \<Rightarrow> goval gomap result" where
  "getAllFeatures config =
     (let bad = Inl (ErrMsg ''could not parse config json'') in
      case json_first config of
        Inl _ \<Rightarrow> bad
      | Inr j \<Rightarrow>
          (case (case j of JNull \<Rightarrow> Some (GMap []) | JObj kvs \<Rightarrow> to_any keep_num j | _ \<Rightarrow> None) of
             Some (GMap resultMap) \<Rightarrow>
               (case map_of resultMap svc_Features of
                  None \<Rightarrow> Inr []
                | Some (GMap features) \<Rightarrow> Inr features
                | Some _ \<Rightarrow> Inl (ErrMsg ''could not parse features json''))
           | _ \<Rightarrow> bad))"

text \<open>
  An \<open>GInt\<close> is an \<^verbatim>\<open>int64\<close>, which the type switch does not list; such values are only produced
  here, never passed in.
\<close>

definition parseFlagValue :: "('s, 'c) svc_env \<Rightarrow> goval \<Rightarrow> goval" where
  "parseFlagValue E v =
     (case v of
        GNumber n \<Rightarrow>
          (case ParseInt64 n of
             Some i \<Rightarrow> GInt i
           | None \<Rightarrow> (case Float64 E n of Some t \<Rightarrow> GFloat t | None \<Rightarrow> GString n))
      | GString s \<Rightarrow>
          (case json_parse s of
             Some j \<Rightarrow> (case to_any (float_num E) j of Some parsed \<Rightarrow> parsed | None \<Rightarrow> GString s)
           | None \<Rightarrow> GString s)
      | GBool b \<Rightarrow> GBool b
      | GFloat t \<Rightarrow> GFloat t
      | _ \<Rightarrow> GNil)"

definition feature_value :: "goval gomap \<Rightarrow> string \<Rightarrow> goval" where
  "feature_value features key = (case map_of features key of Some v \<Rightarrow> v | None \<Rightarrow> GNil)"

definition getFlagValueOrConfiguration ::
  "('s, 'c) svc_env \<Rightarrow> string \<Rightarrow> string \<Rightarrow> string \<Rightarrow> goval result" where
  "getFlagValueOrConfiguration E vectorId flagKey config =
     (if EqualFold (UnicodeFold E) flagKey vectorId then Inr (parseFlagValue E (GString config))
      else case getAllFeatures config of
             Inl e \<Rightarrow> Inl e
           | Inr features \<Rightarrow> Inr (parseFlagValue E (feature_value features flagKey)))"

section \<open>Responses\<close>

definition FlagResponse :: "string \<Rightarrow> goval \<Rightarrow> string \<Rightarrow> json" where
  "FlagResponse key v reason =
     JObj [(''key'', JStr (quote_string key)), (''value'', of_any v), (''reason'', JStr (quote_string reason))]"

definition ErrorResponse :: "string \<Rightarrow> string \<Rightarrow> string \<Rightarrow> json" where
  "ErrorResponse key code details =
     JObj ([(''key'', JStr (quote_string key)), (''errorCode'', JStr (quote_string code))] @
       (if details = [] then [] else [(''errorDetails'', JStr (quote_string details))]))"

definition ErrorDetails :: "string \<Rightarrow> json" where
  "ErrorDetails details =
     JObj (if details = [] then [] else [(''errorDetails'', JStr (quote_string details))])"

definition BulkResponse :: "json list \<Rightarrow> json" where
  "BulkResponse flags = JObj [(''flags'', JArr flags)]"

text \<open>Encoding a response cannot fail: its values come from decoding, its numbers are finite.\<close>

definition writeResponseWithEtag :: "nat \<Rightarrow> json \<Rightarrow> string option \<Rightarrow> http_response" where
  "writeResponseWithEtag statusCode response etag =
     \<lparr>StatusCode = statusCode,
      Headers = (case etag of None \<Rightarrow> [] | Some t \<Rightarrow> [(''ETag'', t)]) @ [(''Content-Type'', ''application/json'')],
      RespBody = json_print response\<rparr>"

definition writeResponse :: "nat \<Rightarrow> json \<Rightarrow> http_response" where
  "writeResponse statusCode response = writeResponseWithEtag statusCode response None"

definition okResponse :: "json \<Rightarrow> http_response" where
  "okResponse r = writeResponse 200 r"

definition okResponseWithEtag :: "json \<Rightarrow> string \<Rightarrow> http_response" where
  "okResponseWithEtag r etag = writeResponseWithEtag 200 r (Some etag)"

definition errorResponse :: "nat \<Rightarrow> string \<Rightarrow> string \<Rightarrow> string \<Rightarrow> http_response" where
  "errorResponse statusCode flagKey code msg = writeResponse statusCode (ErrorResponse flagKey code msg)"

definition notFoundResponse :: "string \<Rightarrow> string \<Rightarrow> http_response" where
  "notFoundResponse flagKey msg = errorResponse 404 flagKey FlagNotFoundErrorCode msg"

definition internalServerErrorResponse :: "string \<Rightarrow> http_response" where
  "internalServerErrorResponse msg = writeResponse 500 (ErrorDetails msg)"

definition bulkErrorResponse :: "nat \<Rightarrow> string \<Rightarrow> string \<Rightarrow> http_response" where
  "bulkErrorResponse statusCode code msg = writeResponse statusCode (ErrorResponse [] code msg)"

definition notModifiedResponse :: http_response where
  "notModifiedResponse = \<lparr>StatusCode = 304, Headers = [], RespBody = []\<rparr>"

definition generateEtag :: "json \<Rightarrow> string" where
  "generateEtag responseBody = [dquote] @ sha1_hex (json_print responseBody) @ [dquote]"

section \<open>Handlers\<close>

definition handleHealthz :: http_response where
  "handleHealthz = \<lparr>StatusCode = 200, Headers = [], RespBody = ''ok''\<rparr>"

text \<open>\<^verbatim>\<open>http.Error\<close> writes the message as plain text with a line feed.\<close>

definition handleReadyz ::
  "('s, 'c) svc_env \<Rightarrow> ('s, 'c) svc_world \<Rightarrow> http_response \<times> ('s, 'c) svc_world" where
  "handleReadyz E w =
     (case ReadyFunc E of
        None \<Rightarrow> (handleHealthz, w)
      | Some f \<Rightarrow>
          (let (ok, w1) = silent f w in
           if ok then (handleHealthz, w1)
           else (\<lparr>StatusCode = 503,
                  Headers = [(''Content-Type'', ''text/plain; charset=utf-8''), (''X-Content-Type-Options'', ''nosniff'')],
                  RespBody = ''not ready'' @ [CHR 0x0A]\<rparr>, w1)))"

definition missing_key :: string where
  "missing_key = ''missing or invalid targeting key''"

definition handleEvaluateSingle ::
  "('s, 'c) svc_env \<Rightarrow> http_request \<Rightarrow> ('s, 'c) svc_world \<Rightarrow> http_response \<times> ('s, 'c) svc_world" where
  "handleEvaluateSingle E r w =
     (let flagKey = PathKey r in
      case getEvaluationContext E (Body r) of
        Inl err \<Rightarrow> (errorResponse 400 flagKey ParseErrorErrorCode (err_string err), w)
      | Inr ctx \<Rightarrow>
          (case targeting_key ctx of
             None \<Rightarrow> (errorResponse 400 flagKey TargetingKeyMissingErrorCode missing_key, w)
           | Some vectorId \<Rightarrow>
               (let (c, w1) = getConfiguration E vectorId w in
                case c of
                  Inl err \<Rightarrow> (internalServerErrorResponse (''invalid configuration for vectorId '' @ [squote] @ vectorId
                    @ [squote] @ '' and flag '' @ [squote] @ flagKey @ [squote] @ '': '' @ err_string err), w1)
                | Inr config \<Rightarrow>
                    if config = [] then (notFoundResponse flagKey [], w1)
                    else (case getFlagValueOrConfiguration E vectorId flagKey config of
                            Inl err \<Rightarrow> (internalServerErrorResponse
                              (''could not parse flag value/vector configuration for vectorId: '' @ vectorId
                                @ '' and flag '' @ flagKey @ '': '' @ err_string err), w1)
                          | Inr v \<Rightarrow>
                              if v = GNil then (notFoundResponse flagKey [], w1)
                              else (okResponse (FlagResponse flagKey v TargetingMatchReason), w1)))))"

text \<open>Lines 219 to 236: one entry per feature, in the order of the sorted keys.\<close>

definition bulk_entry :: "('s, 'c) svc_env \<Rightarrow> goval gomap \<Rightarrow> string \<Rightarrow> json" where
  "bulk_entry E features key =
     (let v = parseFlagValue E (feature_value features key) in
      if v = GNil then ErrorResponse key FlagNotFoundErrorCode []
      else FlagResponse key v TargetingMatchReason)"

definition bulk_flags :: "('s, 'c) svc_env \<Rightarrow> goval gomap \<Rightarrow> json list" where
  "bulk_flags E features = map (bulk_entry E features) (sort (map fst features))"

definition handleEvaluateBulk ::
  "('s, 'c) svc_env \<Rightarrow> http_request \<Rightarrow> ('s, 'c) svc_world \<Rightarrow> http_response \<times> ('s, 'c) svc_world" where
  "handleEvaluateBulk E r w =
     (case getEvaluationContext E (Body r) of
        Inl err \<Rightarrow> (bulkErrorResponse 400 ParseErrorErrorCode (err_string err), w)
      | Inr ctx \<Rightarrow>
          (case targeting_key ctx of
             None \<Rightarrow> (bulkErrorResponse 400 TargetingKeyMissingErrorCode missing_key, w)
           | Some vectorId \<Rightarrow>
               (let (c, w1) = getConfiguration E vectorId w in
                case c of
                  Inl err \<Rightarrow> (internalServerErrorResponse (''invalid configuration for vectorId '' @ [squote] @ vectorId
                    @ [squote] @ '': '' @ err_string err), w1)
                | Inr config \<Rightarrow>
                    (case (if config = [] then Inr [] else map_sum id (bulk_flags E) (getAllFeatures config)) of
                       Inl err \<Rightarrow> (internalServerErrorResponse (''invalid feature configuration for vectorId '' @ [squote]
                         @ vectorId @ [squote] @ '': '' @ err_string err), w1)
                     | Inr flags \<Rightarrow>
                         (let response = BulkResponse flags; etag = generateEtag response in
                          if IfNoneMatch r = etag then (notModifiedResponse, w1)
                          else (okResponseWithEtag response etag, w1))))))"

section \<open>Routing\<close>

text \<open>
  The patterns registered with the multiplexer, on a method and the segments of a clean path. A
  GET pattern also matches HEAD. \<open>None\<close> stands for the multiplexer's own answers (404 and 405).
\<close>

datatype route = RHealthz | RReadyz | RSingle string | RBulk

definition routes :: "string \<Rightarrow> string list \<Rightarrow> route option" where
  "routes meth path =
     (if meth = ''GET'' \<or> meth = ''HEAD'' then
        if path = [''healthz''] then Some RHealthz else if path = [''readyz''] then Some RReadyz else None
      else if meth = ''POST'' then
        (case path of
           [a, b, c, d] \<Rightarrow> if path = [''ofrep'', ''v1'', ''evaluate'', ''flags''] then Some RBulk else None
         | [a, b, c, d, key] \<Rightarrow>
             if [a, b, c, d] = [''ofrep'', ''v1'', ''evaluate'', ''flags''] \<and> key \<noteq> [] then Some (RSingle key) else None
         | _ \<Rightarrow> None)
      else None)"

section \<open>Reading through the cache\<close>

lemma fetchConfiguration_cases:
  assumes "fetchConfiguration E vid w = (r, w')"
  shows "(\<exists>cfg data s'. r = Inr cfg \<and> cfg \<noteq> [] \<and>
      FetchConfigMap E (svc_cm_key E vid) (srv w) = (Inr data, s') \<and>
      build_configuration (UnicodeFold E) vid data = Inr cfg \<and>
      cache w' = Cache_Set (CacheOps E) (cache w) vid cfg) \<or>
    cache w' = cache w \<and> (\<forall>cfg. r = Inr cfg \<longrightarrow> cfg = [])"
  using assms unfolding fetchConfiguration_def call_def
  by (auto split: prod.splits sum.splits if_splits)

lemma getConfiguration_hit:
  "Cache_Get (CacheOps E) (cache w) vid = Some cfg \<Longrightarrow> getConfiguration E vid w = (Inr cfg, w)"
  by (simp add: getConfiguration_def)

lemma getConfiguration_cases:
  assumes "getConfiguration E vid w = (r, w')"
  obtains (Hit) cfg where "Cache_Get (CacheOps E) (cache w) vid = Some cfg" "r = Inr cfg" "w' = w"
    | (Shared) "Cache_Get (CacheOps E) (cache w) vid = None" "cache w' = cache w"
        "fst (InFlight E vid (srv w)) = Some r"
    | (Fetched) w1 where "Cache_Get (CacheOps E) (cache w) vid = None" "cache w1 = cache w"
        "fst (InFlight E vid (srv w)) = None" "fetchConfiguration E vid w1 = (r, w')"
proof -
  obtain sh w1 where s: "silent (InFlight E vid) w = (sh, w1)" by fastforce
  then have "sh = fst (InFlight E vid (srv w))" "cache w1 = cache w"
    by (auto simp: silent_def split: prod.splits)
  with assms s that show thesis
    by (auto simp: getConfiguration_def emit_def split: option.splits)
qed

context cache_contract
begin

lemma getConfiguration_inv:
  assumes "getConfiguration E vid w = (r, w')" and "CacheOps E = C" and "inv (cache w)"
  shows "inv (cache w')"
  using assms inv_set
  by (cases rule: getConfiguration_cases) (auto dest!: fetchConfiguration_cases)

lemma getConfiguration_entry:
  assumes "getConfiguration E vid w = (r, w')" and "CacheOps E = C" and "inv (cache w)"
    and "Cache_Get C (cache w') vid = Some cfg"
  shows "r = Inr cfg"
  using assms(1)
proof (cases rule: getConfiguration_cases)
  case (Fetched w1)
  with assms(2-4) get_set show ?thesis by (auto dest!: fetchConfiguration_cases)
qed (use assms in auto)

lemma getConfiguration_again:
  assumes "getConfiguration E vid w = (r, w')" and "CacheOps E = C" and "inv (cache w)"
    and "Cache_Get C (cache w') vid = Some cfg"
  shows "getConfiguration E vid w' = (r, w')"
  using getConfiguration_entry [OF assms] assms(2,4) by (simp add: getConfiguration_hit)

text \<open>An entry that appears in the cache is the configuration of a ConfigMap that was just read.\<close>

lemma getConfiguration_new_entry:
  assumes "getConfiguration E vid w = (r, w')" and "CacheOps E = C" and "inv (cache w)"
    and "Cache_Get C (cache w') k \<noteq> Cache_Get C (cache w) k"
  shows "k = vid \<and> Cache_Get C (cache w) vid = None \<and>
    (\<exists>data cfg s. Cache_Get C (cache w') vid = Some cfg \<and> r = Inr cfg \<and>
      fst (FetchConfigMap E (svc_cm_key E vid) s) = Inr data \<and>
      build_configuration (UnicodeFold E) vid data = Inr cfg)"
  using assms(1)
proof (cases rule: getConfiguration_cases)
  case (Fetched w1)
  from fetchConfiguration_cases [OF Fetched(4)] show ?thesis
  proof (elim disjE exE conjE)
    fix cfg data s'
    assume "r = Inr cfg" "cfg \<noteq> []" "FetchConfigMap E (svc_cm_key E vid) (srv w1) = (Inr data, s')"
      "build_configuration (UnicodeFold E) vid data = Inr cfg" "cache w' = Cache_Set (CacheOps E) (cache w1) vid cfg"
    with Fetched assms(2-4) show ?thesis
      by (intro conjI) (auto simp: get_set intro!: exI [of _ data] exI [of _ "srv w1"] split: if_splits)
  qed (use Fetched assms in auto)
qed (use assms in auto)

end

section \<open>What a configuration holds\<close>

definition is_section :: "string \<Rightarrow> bool" where
  "is_section key \<longleftrightarrow> key = svc_FeaturesConfigKey \<or> key = svc_AuthoredConfigKey"

definition section_name :: "string \<Rightarrow> string" where
  "section_name key = (if key = svc_FeaturesConfigKey then svc_Features else svc_Authored)"

definition is_result_key :: "string \<Rightarrow> bool" where
  "is_result_key key \<longleftrightarrow> HasPrefix key svc_DeploymentResultsPrefix"

definition section_entries :: "cm_data \<Rightarrow> string gomap" where
  "section_entries data = map (\<lambda>(k, v). (section_name k, v)) (filter (\<lambda>(k, v). is_section k) data)"

definition result_entries :: "(nat \<Rightarrow> nat) \<Rightarrow> cm_data \<Rightarrow> string gomap" where
  "result_entries foldU data =
     map (\<lambda>(k, v). (deployment_name foldU k, v)) (filter (\<lambda>(k, v). is_result_key k) data)"

lemmas svc_keys = svc_FeaturesConfigKey_def svc_AuthoredConfigKey_def svc_DeploymentResultsPrefix_def
  svc_Features_def svc_Authored_def svc_DeploymentResults_def

lemma result_key_not_section: "is_result_key k \<Longrightarrow> \<not> is_section k"
  by (auto simp: is_result_key_def is_section_def HasPrefix_def svc_keys)

lemma config_keys_distinct [simp]:
  "svc_FeaturesConfigKey \<noteq> svc_AuthoredConfigKey" "svc_AuthoredConfigKey \<noteq> svc_FeaturesConfigKey"
  by (simp_all add: svc_keys)

lemma put_all_Cons [simp]: "put_all ((k, v) # kvs) m = put_all kvs (AList.update k v m)"
  by (simp add: put_all_def)

lemma put_all_Nil [simp]: "put_all [] m = m"
  by (simp add: put_all_def)

lemma entries_Cons [simp]:
  "section_entries ((k, v) # data) =
     (if is_section k then (section_name k, v) # section_entries data else section_entries data)"
  "result_entries foldU ((k, v) # data) =
     (if is_result_key k then (deployment_name foldU k, v) # result_entries foldU data
      else result_entries foldU data)"
  by (simp_all add: section_entries_def result_entries_def)

lemma entries_Nil [simp]: "section_entries [] = []" "result_entries foldU [] = []"
  by (simp_all add: section_entries_def result_entries_def)

lemma config_loop_Inr:
  "config_loop foldU vid c r data = Inr cr \<longleftrightarrow>
     [] \<notin> fst ` set (result_entries foldU data) \<and>
     cr = (put_all (section_entries data) c, put_all (result_entries foldU data) r)"
proof (induction foldU vid c r data rule: config_loop.induct)
  case (1 foldU vid c r)
  then show ?case by auto
next
  case (2 foldU vid c r key val rest)
  consider "key = svc_FeaturesConfigKey" | "key = svc_AuthoredConfigKey"
    | "is_result_key key" "\<not> is_section key" | "\<not> is_result_key key" "\<not> is_section key"
    using is_section_def by blast
  then show ?case
  proof cases
    case 1
    then have "is_section key" "\<not> is_result_key key" using result_key_not_section by (auto simp: is_section_def)
    with 1 2(1) show ?thesis by (simp add: section_name_def)
  next
    case key: 2
    then have "is_section key" "\<not> is_result_key key" using result_key_not_section by (auto simp: is_section_def)
    with key 2(2) show ?thesis by (simp add: section_name_def)
  next
    case 3
    then show ?thesis using 2(3) by (auto simp: is_section_def is_result_key_def Let_def)
  next
    case 4
    then show ?thesis using 2(4) by (auto simp: is_section_def is_result_key_def)
  qed
qed

lemma raw_members_Some:
  assumes "raw_members m = Some ms"
  shows "map fst ms = map fst m" and "map_of ms k = Option.bind (map_of m k) marshal_raw"
    and "list_all (\<lambda>(k, j). \<exists>raw. (k, raw) \<in> set m \<and> marshal_raw raw = Some j) ms"
  using assms
proof (induction m arbitrary: ms)
  case Nil
  { case 1 then show ?case by (simp add: raw_members_def) }
  { case 2 then show ?case by (simp add: raw_members_def) }
  { case 3 then show ?case by (simp add: raw_members_def) }
next
  case (Cons kv m)
  { case 1 with Cons(1) show ?case by (force simp: raw_members_def split: option.splits prod.splits) }
  { case 2 with Cons(2) show ?case by (force simp: raw_members_def split: option.splits prod.splits) }
  { case 3 with Cons(3) show ?case by (fastforce simp: raw_members_def list_all_iff split: option.splits prod.splits) }
qed

lemma value_ok_object:
  "value_ok n (object_of ms) \<longleftrightarrow> list_all (\<lambda>(k, j). value_ok (Suc n) j) ms \<and> n < maxNestingDepth"
  by (auto simp: object_of_def value_ok_JObj members_ok_def list_all_iff raw_ok_quote_string)

lemma ValidString_ascii: "list_all (\<lambda>c. byte c < 0x80) s \<Longrightarrow> ValidString s"
  by (induction s) (auto simp: ValidString_def encode_runes_def runes_ascii)

lemma to_any_object:
  assumes num: "\<forall>lit. num lit \<noteq> None" and dist: "distinct (map fst ms)"
    and valid: "\<forall>k \<in> fst ` set ms. ValidString k"
  shows "\<exists>fs. to_any num (object_of ms) = Some (GMap fs) \<and>
    map_of fs = (\<lambda>k. Option.bind (map_of ms k) (to_any num))"
proof -
  let ?s = "sort_key fst ms" and ?v = "\<lambda>j. the (to_any num j)"
  have some: "to_any num j = Some (?v j)" for j
    using to_any_total [where num = num and j = j] num by auto
  have "map (\<lambda>(k, j). map_option (Pair (unquote k)) (to_any num j)) (map (\<lambda>(k, j). (quote_string k, j)) ?s) =
      map (\<lambda>(k, j). Some (k, ?v j)) ?s"
    using valid some by (auto simp: unquote_quote_valid)
  then have "to_any num (object_of ms) = Some (GMap (put_all (map (\<lambda>(k, j). (k, ?v j)) ?s) []))"
    by (simp add: object_of_def those_map_Some case_prod_unfold [abs_def] del: map_map)
  moreover have "map_of (put_all (map (\<lambda>(k, j). (k, ?v j)) ?s) []) = (\<lambda>k. Option.bind (map_of ms k) (to_any num))"
  proof -
    have d: "distinct (map fst ?s)"
      using dist by (metis mset_eq_imp_distinct_iff mset_map mset_sort)
    then have "distinct (map fst (map (\<lambda>(k, j). (k, ?v j)) ?s))" by (simp add: case_prod_unfold comp_def)
    then have "put_all (map (\<lambda>(k, j). (k, ?v j)) ?s) [] = map (\<lambda>(k, j). (k, ?v j)) ?s"
      by (simp add: put_all_distinct)
    moreover have "map_of (map (\<lambda>(k, j). (k, ?v j)) ?s) = map_option ?v \<circ> map_of ms"
      by (simp add: map_of_map map_of_sort_key [OF dist])
    ultimately show ?thesis using some by (auto simp: fun_eq_iff split: option.split bind_split)
  qed
  ultimately show ?thesis by blast
qed

lemma json_parse_object:
  assumes "value_ok 0 j"
  shows "json_parse (json_print j) = Some j" and "json_first (json_print j) = Inr j"
  using parse_print [of j] assms json_first_parse [of "json_print j" j] by (simp_all add: value_ok_def)

lemma section_names [simp]: "svc_Features \<noteq> svc_Authored" "svc_Authored \<noteq> svc_Features"
  by (simp_all add: svc_keys)

lemma section_entries_keys:
  "fst ` set (section_entries data) \<subseteq> {svc_Features, svc_Authored}"
  "svc_Features \<in> fst ` set (section_entries data) \<longleftrightarrow> svc_FeaturesConfigKey \<in> fst ` set data"
  "svc_Authored \<in> fst ` set (section_entries data) \<longleftrightarrow> svc_AuthoredConfigKey \<in> fst ` set data"
proof (induction data)
  case (Cons kv data)
  { case 1 with Cons(1) show ?case by (cases kv) (auto simp: section_name_def is_section_def) }
  { case 2 with Cons(2) show ?case by (cases kv) (auto simp: section_name_def is_section_def) }
  { case 3 with Cons(3) show ?case by (cases kv) (auto simp: section_name_def is_section_def) }
qed simp_all

lemma section_entries_distinct:
  assumes "distinct (map fst data)"
  shows "distinct (map fst (section_entries data))"
    and "map_of (section_entries data) svc_Features = map_of data svc_FeaturesConfigKey"
    and "map_of (section_entries data) svc_Authored = map_of data svc_AuthoredConfigKey"
proof -
  show "distinct (map fst (section_entries data))"
    using assms
  proof (induction data)
    case (Cons kv data)
    then show ?case using section_entries_keys [of data]
      by (cases kv) (auto simp: is_section_def section_name_def simp del: image_iff)
  qed simp
  show "map_of (section_entries data) svc_Features = map_of data svc_FeaturesConfigKey"
    "map_of (section_entries data) svc_Authored = map_of data svc_AuthoredConfigKey"
    by (induction data) (auto simp: is_section_def section_name_def)
qed

lemma put_all_values: "snd ` set (put_all kvs m) \<subseteq> snd ` set kvs \<union> snd ` set m"
proof (induction kvs arbitrary: m)
  case (Cons kv kvs)
  obtain k v where kv: "kv = (k, v)" by fastforce
  show ?case using Cons [of "AList.update k v m"] set_update_subset [of k v m] kv by auto
qed simp

text \<open>All values of the data leave room for the two levels of nesting the service adds.\<close>

definition shallow :: "cm_data \<Rightarrow> bool" where
  "shallow data \<longleftrightarrow>
     list_all (\<lambda>(k, raw). case json_parse raw of None \<Rightarrow> True | Some j \<Rightarrow> json_depth j + 2 \<le> maxNestingDepth) data"

lemma shallow_marshal:
  assumes "shallow data" and "raw \<in> snd ` set data" and "marshal_raw raw = Some j"
  shows "value_ok 2 j"
proof -
  from assms(3) obtain v where v: "json_parse raw = Some v" "json_wf j" "json_depth j = json_depth v"
    by (rule marshal_raw_Some)
  with assms(1,2) show ?thesis by (fastforce simp: shallow_def list_all_iff value_ok_def)
qed

lemma raw_members_ok:
  assumes "shallow data" and "snd ` set m \<subseteq> snd ` set data" and "raw_members m = Some ms"
  shows "list_all (\<lambda>(k, j). value_ok 2 j) ms"
  unfolding list_all_iff
proof (intro ballI)
  fix kj
  assume kj: "kj \<in> set ms"
  obtain k j where "kj = (k, j)" by fastforce
  moreover from this kj raw_members_Some(3) [OF assms(3)] obtain raw
    where raw: "(k, raw) \<in> set m" "marshal_raw raw = Some j" by (auto simp: list_all_iff)
  from raw(1) have "raw \<in> snd ` set m" by (rule image_eqI [rotated]) simp
  with assms(2) have "raw \<in> snd ` set data" by blast
  ultimately show "case kj of (k, j) \<Rightarrow> value_ok 2 j"
    using shallow_marshal [OF assms(1) _ raw(2)] by simp
qed

lemma value_ok_mono: "value_ok n j \<Longrightarrow> m \<le> n \<Longrightarrow> value_ok m j"
  by (simp add: value_ok_def)

lemma update_nonempty: "AList.update k v m \<noteq> []"
  by (cases m) auto

lemma put_all_empty [simp]: "put_all kvs m = [] \<longleftrightarrow> kvs = [] \<and> m = []"
proof (induction kvs arbitrary: m)
  case (Cons kv kvs)
  then show ?case by (cases kv) (simp add: update_nonempty)
qed simp

text \<open>The members of the combined object.\<close>

definition config_members :: "(nat \<Rightarrow> nat) \<Rightarrow> cm_data \<Rightarrow> (string \<times> json) list option" where
  "config_members foldU data =
     (case raw_members (section_entries data) of
        None \<Rightarrow> None
      | Some ms \<Rightarrow>
          if result_entries foldU data = [] then Some ms
          else map_option (\<lambda>rs. ms @ [(svc_DeploymentResults, object_of rs)])
                 (raw_members (put_all (result_entries foldU data) [])))"

lemma build_configuration_members:
  assumes "build_configuration foldU vid data = Inr config" and "config \<noteq> []" and "distinct (map fst data)"
  obtains ms where "config_members foldU data = Some ms" and "config = json_print (object_of ms)"
proof -
  let ?c = "section_entries data" and ?r = "put_all (result_entries foldU data) []"
  have c: "put_all ?c [] = ?c" using section_entries_distinct(1) [OF assms(3)] by (simp add: put_all_distinct)
  have l: "config_loop foldU vid [] [] data = Inr (?c, ?r)"
    using assms(1) config_loop_Inr [of foldU vid "[]" "[]" data] c
    by (auto simp: build_configuration_def split: sum.splits)
  with assms(1,2) obtain j where j: "marshal_configuration ?c ?r = Some j" "config = json_print j"
    by (auto simp: build_configuration_def split: if_splits option.splits)
  then show thesis
    using that by (auto simp: marshal_configuration_def config_members_def split: option.splits if_splits)
qed

lemma config_members_distinct:
  assumes "config_members foldU data = Some ms" and "distinct (map fst data)"
  shows "distinct (map fst ms)" and "fst ` set ms \<subseteq> {svc_Features, svc_Authored, svc_DeploymentResults}"
    and "map_of ms svc_Features = Option.bind (map_of data svc_FeaturesConfigKey) marshal_raw"
    and "map_of ms svc_Authored = Option.bind (map_of data svc_AuthoredConfigKey) marshal_raw"
    and "map_of ms svc_DeploymentResults =
      (if result_entries foldU data = [] then None
       else map_option object_of (raw_members (put_all (result_entries foldU data) [])))"
proof -
  note sec = section_entries_distinct [OF assms(2)] section_entries_keys(1) [of data]
  have DR: "svc_DeploymentResults \<noteq> svc_Features" "svc_DeploymentResults \<noteq> svc_Authored" by (simp_all add: svc_keys)
  from assms(1) obtain ms0 where ms0: "raw_members (section_entries data) = Some ms0"
    by (auto simp: config_members_def split: option.splits)
  note raw = raw_members_Some [OF ms0]
  have fst0: "fst ` set ms0 = fst ` set (section_entries data)" using raw(1) by (metis list.set_map)
  have "svc_DeploymentResults \<notin> fst ` set ms0" using sec(4) DR fst0 by auto
  then have DR0: "map_of ms0 svc_DeploymentResults = None" by (simp add: map_of_eq_None_iff)
  have d0: "distinct (map fst ms0)" using sec(1) raw(1) by simp
  have ms: "ms = ms0 \<and> result_entries foldU data = [] \<or> (\<exists>rs. ms = ms0 @ [(svc_DeploymentResults, object_of rs)] \<and>
      result_entries foldU data \<noteq> [] \<and> raw_members (put_all (result_entries foldU data) []) = Some rs)"
    using assms(1) ms0 by (auto simp: config_members_def split: if_splits)
  show "distinct (map fst ms)" using ms d0 \<open>svc_DeploymentResults \<notin> fst ` set ms0\<close> by auto
  have "fst ` set ms \<subseteq> insert svc_DeploymentResults (fst ` set ms0)" using ms by auto
  then show "fst ` set ms \<subseteq> {svc_Features, svc_Authored, svc_DeploymentResults}" using fst0 sec(4) by blast
  show "map_of ms svc_Features = Option.bind (map_of data svc_FeaturesConfigKey) marshal_raw"
    and "map_of ms svc_Authored = Option.bind (map_of data svc_AuthoredConfigKey) marshal_raw"
    using ms raw(2) sec(2,3) DR by (auto simp: map_add_def split: option.splits)
  show "map_of ms svc_DeploymentResults =
      (if result_entries foldU data = [] then None
       else map_option object_of (raw_members (put_all (result_entries foldU data) [])))"
    using ms DR0 by (auto simp: map_add_def)
qed

lemma result_entries_values: "snd ` set (result_entries foldU data) \<subseteq> snd ` set data"
  by (force simp: result_entries_def)

lemma section_entries_values: "snd ` set (section_entries data) \<subseteq> snd ` set data"
  by (force simp: section_entries_def)

lemma config_members_ok:
  assumes "config_members foldU data = Some ms" and "shallow data"
  shows "value_ok 0 (object_of ms)"
proof -
  from assms(1) obtain ms0 where ms0: "raw_members (section_entries data) = Some ms0"
    by (auto simp: config_members_def split: option.splits)
  have ok0: "list_all (\<lambda>(k, j). value_ok 1 j) ms0"
    using raw_members_ok [OF assms(2) section_entries_values ms0]
    by (auto simp: list_all_iff intro: value_ok_mono)
  show ?thesis
  proof (cases "result_entries foldU data = []")
    case True
    with assms(1) ms0 ok0 show ?thesis
      by (simp add: config_members_def value_ok_object maxNestingDepth_def)
  next
    case False
    with assms(1) ms0 obtain rs where ms: "ms = ms0 @ [(svc_DeploymentResults, object_of rs)]"
      and rs: "raw_members (put_all (result_entries foldU data) []) = Some rs"
      by (auto simp: config_members_def)
    have "snd ` set (put_all (result_entries foldU data) []) \<subseteq> snd ` set data"
      using put_all_values [of "result_entries foldU data" "[]"] result_entries_values [of foldU data] by auto
    from raw_members_ok [OF assms(2) this rs] have "value_ok 1 (object_of rs)"
      by (simp add: value_ok_object maxNestingDepth_def numeral_2_eq_2)
    with ok0 ms show ?thesis by (simp add: value_ok_object maxNestingDepth_def)
  qed
qed

text \<open>The dynamic value of the combined text, decoded with either treatment of numbers.\<close>

lemma configuration_value:
  assumes "build_configuration foldU vid data = Inr config" and "config \<noteq> []"
    and "distinct (map fst data)" and "shallow data" and num: "\<forall>lit. num lit \<noteq> None"
  obtains ms fs where "json_parse config = Some (object_of ms)" and "config_members foldU data = Some ms"
    and "to_any num (object_of ms) = Some (GMap fs)"
    and "map_of fs = (\<lambda>k. Option.bind (map_of ms k) (to_any num))"
proof -
  from assms(1-3) obtain ms where ms: "config_members foldU data = Some ms" and c: "config = json_print (object_of ms)"
    by (rule build_configuration_members)
  note dist = config_members_distinct(1,2) [OF ms assms(3)]
  have "\<forall>k \<in> {svc_Features, svc_Authored, svc_DeploymentResults}. ValidString k"
    by (auto intro!: ValidString_ascii simp: svc_keys byte_def)
  with dist(2) have "\<forall>k \<in> fst ` set ms. ValidString k" by blast
  from to_any_object [OF num dist(1) this] obtain fs where
    "to_any num (object_of ms) = Some (GMap fs)" "map_of fs = (\<lambda>k. Option.bind (map_of ms k) (to_any num))" by blast
  with that ms c json_parse_object(1) [OF config_members_ok [OF ms assms(4)]] show thesis by auto
qed

lemma configuration_value_features:
  assumes "build_configuration foldU vid data = Inr config"
    and "map_of data svc_FeaturesConfigKey = Some raw"
    and "distinct (map fst data)" and "shallow data"
  shows "config \<noteq> [] \<and> (\<exists>j. json_parse raw = Some j \<and>
    getAllFeatures config =
      (case to_any keep_num j of
         Some (GMap fs) \<Rightarrow> Inr fs
       | _ \<Rightarrow> Inl (ErrMsg ''could not parse features json'')))"
proof -
  have sec: "section_entries data \<noteq> []"
    using section_entries_distinct(2) [OF assms(3)] assms(2) by auto
  have ne: "config \<noteq> []"
  proof
    assume "config = []"
    with assms(1) sec show False
      by (auto simp: build_configuration_def config_loop_Inr marshal_configuration_def object_of_def
          split: sum.splits if_splits option.splits)
  qed
  have num: "\<forall>lit. keep_num lit \<noteq> None" by (simp add: keep_num_def)
  from assms(1) ne assms(3,4) num obtain ms fs where p: "json_parse config = Some (object_of ms)"
    and ms: "config_members foldU data = Some ms" and v: "to_any keep_num (object_of ms) = Some (GMap fs)"
    and fs: "map_of fs = (\<lambda>k. Option.bind (map_of ms k) (to_any keep_num))"
    by (rule configuration_value)
  obtain ms0 where ms0: "raw_members (section_entries data) = Some ms0"
    using ms by (auto simp: config_members_def split: option.splits)
  have "svc_Features \<in> fst ` set ms0"
  proof -
    have "svc_Features \<in> fst ` set (section_entries data)"
      using section_entries_keys(2) [of data] assms(2) by (metis map_of_eq_None_iff option.distinct(1))
    then show ?thesis using raw_members_Some(1) [OF ms0] by (metis list.set_map)
  qed
  then obtain jf where jf: "marshal_raw raw = Some jf"
    using raw_members_Some(2) [OF ms0, of svc_Features] section_entries_distinct(2) [OF assms(3)] assms(2)
    by (metis bind.bind_lunit map_of_eq_None_iff not_None_eq)
  then obtain j where j: "json_parse raw = Some j" "to_any keep_num jf = to_any keep_num j"
    by (rule marshal_raw_Some)
  have F: "map_of fs svc_Features = to_any keep_num j"
    using fs config_members_distinct(3) [OF ms assms(3)] assms(2) jf j(2) by simp
  have "to_any keep_num j \<noteq> None" using to_any_total [where num = keep_num] num by blast
  then show ?thesis
    using ne j(1) F v json_first_parse [OF p]
    by (auto simp: getAllFeatures_def object_of_def split: goval.split option.split)
qed

text \<open>
  The features the service finds in a configuration are the ones stored under
  \<^verbatim>\<open>features.json\<close>: combining, compacting and escaping lose nothing. When that entry is not a
  JSON object the lookup fails.
\<close>

theorem configuration_features:
  assumes "build_configuration foldU vid data = Inr config"
    and "map_of data svc_FeaturesConfigKey = Some raw"
    and "distinct (map fst data)" and "shallow data"
  shows "config \<noteq> [] \<and> (\<exists>j. json_parse raw = Some j \<and>
    getAllFeatures config =
      (case to_any keep_num j of
         Some (GMap fs) \<Rightarrow> Inr fs
       | _ \<Rightarrow> Inl (ErrMsg ''could not parse features json'')))"
  using assms by (rule configuration_value_features)

definition sample_features :: string where
  "sample_features = ''{'' @ [dquote] @ ''beta'' @ [dquote] @ '': true}''"

definition sample_data :: cm_data where
  "sample_data = [(svc_FeaturesConfigKey, sample_features), (svc_AuthoredConfigKey, ''null''),
     (''deploymentResults.shop.json'', ''[]'')]"

lemma sample_values:
  "json_parse ''null'' = Some JNull" "json_parse ''[]'' = Some (JArr [])"
  "json_parse sample_features = Some (JObj [(''beta'', JBool True)])"
  "deployment_name (\<lambda>r. r) ''deploymentResults.shop.json'' = ''shop''"
proof -
  show "json_parse ''null'' = Some JNull" "json_parse ''[]'' = Some (JArr [])"
    "json_parse sample_features = Some (JObj [(''beta'', JBool True)])"
    by (simp_all add: json_eval sample_features_def)
  show "deployment_name (\<lambda>r. r) ''deploymentResults.shop.json'' = ''shop''"
    by (simp add: deployment_name_def svc_DeploymentResultsPrefix_def svc_JsonSuffix_def endsWithSuffix_def
        Let_def string_eval)
qed

lemma sample_config:
  "\<exists>config. build_configuration (\<lambda>r. r) ''v1'' sample_data = Inr config"
  "map_of sample_data svc_FeaturesConfigKey = Some sample_features"
  "distinct (map fst sample_data)" "shallow sample_data"
proof -
  show "map_of sample_data svc_FeaturesConfigKey = Some sample_features" by (simp add: sample_data_def)
  show "distinct (map fst sample_data)" by (simp add: sample_data_def svc_keys)
  show "shallow sample_data"
    using sample_values(1-3) by (simp add: shallow_def sample_data_def maxNestingDepth_def)
  have "HasPrefix ''deploymentResults.shop.json'' svc_DeploymentResultsPrefix"
    by (simp add: HasPrefix_def svc_DeploymentResultsPrefix_def)
  moreover have "''deploymentResults.shop.json'' \<noteq> svc_FeaturesConfigKey"
    "''deploymentResults.shop.json'' \<noteq> svc_AuthoredConfigKey" by (simp_all add: svc_keys)
  ultimately show "\<exists>config. build_configuration (\<lambda>r. r) ''v1'' sample_data = Inr config"
    using sample_values
    by (simp add: build_configuration_def sample_data_def marshal_configuration_def raw_members_def marshal_raw_def)
qed

theorem configuration_features_witness:
  "\<exists>config. build_configuration (\<lambda>r. r) ''v1'' sample_data = Inr config \<and>
     getAllFeatures config = Inr [(''beta'', GBool True)]"
proof -
  obtain config where c: "build_configuration (\<lambda>r. r) ''v1'' sample_data = Inr config"
    using sample_config(1) by blast
  have "unquote ''beta'' = ''beta''" by (rule unquote_plain) (simp add: byte_def bslash_def)
  with c configuration_features [OF c sample_config(2-4)] sample_values(3) show ?thesis by auto
qed

text \<open>A service in front of a cluster that holds one ConfigMap.\<close>

definition sample_svc_env :: "(cm_data, InMemoryCache) svc_env" where
  "sample_svc_env =
     \<lparr>FetchConfigMap = (\<lambda>k s. (Inr s, s)), InFlight = (\<lambda>k s. (None, s)), ReadyFunc = None,
      CacheOps = in_memory, SvcNamespace = ''default'', Float64 = (\<lambda>lit. Some lit),
      UnicodeFold = (\<lambda>r. r), TypeErrorText = (\<lambda>j. [])\<rparr>"

definition sample_svc_world :: "(cm_data, InMemoryCache) svc_world" where
  "sample_svc_world = \<lparr>srv = sample_data, trace = [], cache = new_InMemoryCache\<rparr>"

definition sample_body :: string where
  "sample_body =
     (let q = (\<lambda>s. [dquote] @ s @ [dquote]) in
      ''{'' @ q ''context'' @ '':{'' @ q ''targetingKey'' @ '':'' @ q ''v1'' @ ''}}'')"

definition sample_request :: http_request where
  "sample_request = \<lparr>PathKey = ''beta'', Body = sample_body, IfNoneMatch = []\<rparr>"

lemma sample_svc_sel [simp]:
  "FetchConfigMap sample_svc_env = (\<lambda>k s. (Inr s, s))" "InFlight sample_svc_env = (\<lambda>k s. (None, s))"
  "CacheOps sample_svc_env = in_memory" "UnicodeFold sample_svc_env = (\<lambda>r. r)"
  "srv sample_svc_world = sample_data" "trace sample_svc_world = []" "cache sample_svc_world = new_InMemoryCache"
  "PathKey sample_request = ''beta''" "Body sample_request = sample_body"
  by (simp_all add: sample_svc_env_def sample_svc_world_def sample_request_def)

lemma sample_context:
  "\<exists>ctx. getEvaluationContext sample_svc_env sample_body = Inr ctx \<and> targeting_key ctx = Some ''v1''"
proof -
  have 1: "json_parse sample_body = Some (JObj [(''context'', JObj [(''targetingKey'', JStr ''v1'')])])"
    by (simp add: json_eval sample_body_def)
  have 2: "unquote ''context'' = ''context''" "unquote ''targetingKey'' = TargetingKey" "unquote ''v1'' = ''v1''"
    by (simp_all add: unquote_plain byte_def bslash_def TargetingKey_def)
  show ?thesis
    by (simp add: getEvaluationContext_def json_first_parse [OF 1] 2 EqualFold_def targeting_key_def)
qed

lemma sample_fetch:
  obtains config w' where "getConfiguration sample_svc_env ''v1'' sample_svc_world = (Inr config, w')"
    "config \<noteq> []" "getAllFeatures config = Inr [(''beta'', GBool True)]"
    "InMemoryCache_Get (cache w') ''v1'' = Some config"
proof -
  obtain config where c: "build_configuration (\<lambda>r. r) ''v1'' sample_data = Inr config"
    using sample_config(1) by blast
  have "unquote ''beta'' = ''beta''" by (rule unquote_plain) (simp add: byte_def bslash_def)
  then have f: "config \<noteq> []" "getAllFeatures config = Inr [(''beta'', GBool True)]"
    using configuration_value_features [OF c sample_config(2-4)] sample_values(3) by auto
  have "getConfiguration sample_svc_env ''v1'' sample_svc_world =
      (Inr config, sample_svc_world\<lparr>trace := [EvFetch (svc_cm_key sample_svc_env ''v1'') (Inr sample_data)],
        cache := InMemoryCache_Set new_InMemoryCache ''v1'' config\<rparr>)"
    using c f(1)
    by (simp add: getConfiguration_def fetchConfiguration_def InMemoryCache_Get_def new_InMemoryCache_def
        call_def silent_def)
  moreover have "InMemoryCache_Get (InMemoryCache_Set new_InMemoryCache ''v1'' config) ''v1'' = Some config"
    using mem.get_set [OF cache_inv_new, of "''v1''" config] f(1) by simp
  ultimately show thesis using that f by simp
qed

section \<open>The two endpoints\<close>


text \<open>The answer of the bulk endpoint, by cases.\<close>

lemma handleEvaluateBulk_200:
  assumes "handleEvaluateBulk E r w = (resp, w')" and "StatusCode resp = 200"
  obtains ctx vid config flags where "getEvaluationContext E (Body r) = Inr ctx" "targeting_key ctx = Some vid"
    "getConfiguration E vid w = (Inr config, w')"
    "(if config = [] then Inr [] else map_sum id (bulk_flags E) (getAllFeatures config)) = Inr flags"
    "resp = okResponseWithEtag (BulkResponse flags) (generateEtag (BulkResponse flags))"
  using assms that
  by (auto simp: handleEvaluateBulk_def Let_def bulkErrorResponse_def internalServerErrorResponse_def
      notModifiedResponse_def writeResponse_def writeResponseWithEtag_def
      split: sum.splits option.splits prod.splits if_splits)


text \<open>
  Integers survive exactly as far as 64 bits reach: a flag whose JSON value is an integer
  literal within the range of an int64 is returned as that very literal; beyond it the value goes
  through a float64, or, when that overflows too, becomes a string.
\<close>

theorem integer_flags:
  "parseFlagValue E (GNumber (Itoa i)) =
     (if - (2 ^ 63) \<le> i \<and> i < 2 ^ 63 then GInt i
      else case Float64 E (Itoa i) of Some t \<Rightarrow> GFloat t | None \<Rightarrow> GString (Itoa i)) \<and>
   of_any (GInt i) = JNum (Itoa i)"
  by (simp add: parseFlagValue_def ParseInt64_Itoa)



section \<open>Error answers\<close>

lemmas answers = okResponse_def okResponseWithEtag_def errorResponse_def notFoundResponse_def
  internalServerErrorResponse_def bulkErrorResponse_def notModifiedResponse_def writeResponse_def
  writeResponseWithEtag_def

text \<open>
  C13. A request is refused with status 400 exactly when its body is not a JSON object with a
  context or the context has no string under the targeting key. Such a request reaches neither
  the cache nor the API server. This holds for both endpoints.
\<close>

theorem bad_request_iff:
  "(StatusCode (fst (handleEvaluateSingle E r w)) = 400 \<longleftrightarrow>
      Option.bind (case getEvaluationContext E (Body r) of Inl _ \<Rightarrow> None | Inr ctx \<Rightarrow> Some ctx) targeting_key = None) \<and>
   (StatusCode (fst (handleEvaluateBulk E r w)) = 400 \<longleftrightarrow> StatusCode (fst (handleEvaluateSingle E r w)) = 400) \<and>
   (StatusCode (fst (handleEvaluateSingle E r w)) = 400 \<longrightarrow>
      snd (handleEvaluateSingle E r w) = w \<and> snd (handleEvaluateBulk E r w) = w)"
  by (auto simp: handleEvaluateSingle_def handleEvaluateBulk_def answers Let_def
      split: sum.splits option.splits prod.splits)

theorem bad_request_iff_witness:
  "let r = sample_request\<lparr>Body := []\<rparr> in
   StatusCode (fst (handleEvaluateSingle sample_svc_env r sample_svc_world)) = 400 \<and>
   snd (handleEvaluateBulk sample_svc_env r sample_svc_world) = sample_svc_world"
proof -
  have "json_first [] = Inl StreamEOF" by (simp add: json_eval json_first_def)
  then have "isl (getEvaluationContext sample_svc_env (Body (sample_request\<lparr>Body := []\<rparr>)))"
    by (simp add: getEvaluationContext_def)
  then show ?thesis
    using bad_request_iff [of sample_svc_env "sample_request\<lparr>Body := []\<rparr>" sample_svc_world]
    by (auto simp: isl_def Let_def)
qed

text \<open>
  A vector without a ConfigMap is no error: a single flag is answered 404, the bulk request
  with an empty list, and the cache is left as it was, so that the vector is found as soon as it
  exists.
\<close>

theorem unknown_vector:
  assumes "getEvaluationContext E (Body r) = Inr ctx" and "targeting_key ctx = Some vid"
    and "Cache_Get (CacheOps E) (cache w) vid = None" and "InFlight E vid (srv w) = (None, s)"
    and "FetchConfigMap E (svc_cm_key E vid) s = (Inl e, s')" and "IsNotFound e"
    and "IfNoneMatch r \<noteq> generateEtag (BulkResponse [])"
  shows "fst (handleEvaluateSingle E r w) = notFoundResponse (PathKey r) [] \<and>
    fst (handleEvaluateBulk E r w) = okResponseWithEtag (BulkResponse []) (generateEtag (BulkResponse [])) \<and>
    cache (snd (handleEvaluateSingle E r w)) = cache w \<and> cache (snd (handleEvaluateBulk E r w)) = cache w"
proof -
  have "getConfiguration E vid w =
      (Inr [], w\<lparr>srv := s', trace := trace w @ [EvFetch (svc_cm_key E vid) (Inl e)]\<rparr>)"
    using assms(3-6) by (simp add: getConfiguration_def fetchConfiguration_def call_def silent_def)
  with assms(1,2,7) show ?thesis
    by (simp add: handleEvaluateSingle_def handleEvaluateBulk_def Let_def)
qed

definition empty_svc_env :: "(unit, InMemoryCache) svc_env" where
  "empty_svc_env =
     \<lparr>FetchConfigMap = (\<lambda>k s. (Inl (ErrApi ReasonNotFound ''not found''), s)), InFlight = (\<lambda>k s. (None, s)), ReadyFunc = None,
      CacheOps = in_memory, SvcNamespace = ''default'', Float64 = (\<lambda>lit. Some lit),
      UnicodeFold = (\<lambda>r. r), TypeErrorText = (\<lambda>j. [])\<rparr>"

theorem unknown_vector_witness:
  "StatusCode (fst (handleEvaluateSingle empty_svc_env sample_request \<lparr>srv = (), trace = [], cache = new_InMemoryCache\<rparr>)) = 404"
proof -
  let ?w = "\<lparr>srv = (), trace = [], cache = new_InMemoryCache\<rparr> :: (unit, InMemoryCache) svc_world"
  have 1: "json_parse sample_body = Some (JObj [(''context'', JObj [(''targetingKey'', JStr ''v1'')])])"
    by (simp add: json_eval sample_body_def)
  have 2: "unquote ''context'' = ''context''" "unquote ''targetingKey'' = TargetingKey" "unquote ''v1'' = ''v1''"
    by (simp_all add: unquote_plain byte_def bslash_def TargetingKey_def)
  obtain ctx where ctx: "getEvaluationContext empty_svc_env (Body sample_request) = Inr ctx"
    "targeting_key ctx = Some ''v1''"
    by (simp add: getEvaluationContext_def json_first_parse [OF 1] 2 EqualFold_def targeting_key_def)
  have "fst (handleEvaluateSingle empty_svc_env sample_request ?w) = notFoundResponse (PathKey sample_request) []"
    using unknown_vector [OF ctx, of ?w "()" "ErrApi ReasonNotFound ''not found''" "()"]
    by (simp add: empty_svc_env_def InMemoryCache_Get_def new_InMemoryCache_def IsNotFound_def sample_request_def generateEtag_def)
  then show ?thesis by (simp add: answers)
qed

end
