(* ===== verification/VectorData_EndToEnd.thy ===== *)
theory VectorData_EndToEnd
  imports VectorData_Controller VectorData_Service
begin

text \<open>
  The VectorData controller and the vector-data service together. The controller renders a
  VectorData object into the data of a ConfigMap (\<open>renderData\<close>); the service reads that data back
  (\<open>build_configuration\<close>) and answers requests from it. Both sides name the keys of the data on
  their own; the lemmas here show that they agree, and what a client gets to see of the object.
\<close>

section \<open>The keys\<close>

lemma same_keys [simp]:
  "FeaturesConfigKey = svc_FeaturesConfigKey" "AuthoredConfigKey = svc_AuthoredConfigKey"
  "DeploymentResultsPrefix = svc_DeploymentResultsPrefix" "JSONSuffix = svc_JsonSuffix"
  "ConfigMapPrefix = cmPrefix"
  by (simp_all add: svc_keys FeaturesConfigKey_def AuthoredConfigKey_def DeploymentResultsPrefix_def
      JSONSuffix_def svc_JsonSuffix_def ConfigMapPrefix_def cmPrefix_def)

text \<open>The characters the API server admits in a key of a ConfigMap.\<close>

definition cm_key_char :: "char \<Rightarrow> bool" where
  "cm_key_char c \<longleftrightarrow>
     (let n = byte c in (48 \<le> n \<and> n \<le> 57) \<or> (65 \<le> n \<and> n \<le> 90) \<or> (97 \<le> n \<and> n \<le> 122) \<or> n = 45 \<or> n = 46 \<or> n = 95)"

definition cm_key :: "string \<Rightarrow> bool" where
  "cm_key k \<longleftrightarrow> list_all cm_key_char k"

lemma cm_key_char_ascii: "cm_key_char c \<Longrightarrow> byte c < 0x80 \<and> \<not> IsSpace (byte c)"
  by (auto simp: cm_key_char_def IsSpace_def Let_def)

lemma segments_cm_key: "cm_key s \<Longrightarrow> segments s = map (\<lambda>c. (byte c, [c])) s"
  by (induction s) (auto simp: cm_key_def dest: cm_key_char_ascii)

lemma dropWhile_none: "list_all (\<lambda>x. \<not> P x) xs \<Longrightarrow> dropWhile P xs = xs"
  by (cases xs) auto

lemma TrimSpace_cm_key: "cm_key s \<Longrightarrow> TrimSpace s = s"
proof -
  assume k: "cm_key s"
  let ?P = "\<lambda>(r :: nat, _ :: string). IsSpace r"
  have "list_all (\<lambda>x. \<not> ?P x) (segments s)" "list_all (\<lambda>x. \<not> ?P x) (rev (segments s))"
    using k cm_key_char_ascii by (auto simp: segments_cm_key [OF k] cm_key_def list_all_iff)
  then show ?thesis by (simp add: TrimSpace_def dropWhile_none segments_concat)
qed

lemma ValidString_cm_key: "cm_key s \<Longrightarrow> ValidString s"
  by (rule ValidString_ascii) (auto simp: cm_key_def list_all_iff dest: cm_key_char_ascii)

lemma deployment_name_rendered:
  assumes "cm_key b"
  shows "deployment_name foldU (svc_DeploymentResultsPrefix @ b @ svc_JsonSuffix) = b"
proof -
  have "cm_key (b @ svc_JsonSuffix)"
    using assms by (simp add: cm_key_def svc_JsonSuffix_def cm_key_char_def byte_def)
  then show ?thesis
    by (simp add: deployment_name_def Let_def TrimSpace_cm_key endsWithSuffix_def EqualFold_def)
qed

section \<open>Reading a whole configuration\<close>

text \<open>The value a client decodes from raw JSON text.\<close>

definition decoded :: "(string \<Rightarrow> goval option) \<Rightarrow> string \<Rightarrow> goval option" where
  "decoded num raw = Option.bind (json_parse raw) (to_any num)"

lemma raw_members_decoded:
  assumes "raw_members m = Some ms"
  shows "Option.bind (map_of ms k) (to_any num) = Option.bind (map_of m k) (decoded num)"
proof (cases "map_of m k")
  case (Some raw)
  then have "k \<in> set (map fst m)" by (metis map_of_eq_None_iff list.set_map option.distinct(1))
  then have "map_of ms k \<noteq> None" using raw_members_Some(1) [OF assms] by (metis map_of_eq_None_iff list.set_map)
  then obtain j where j: "map_of ms k = Some j" "marshal_raw raw = Some j"
    using raw_members_Some(2) [OF assms, of k] Some by auto
  from j(2) obtain v where "json_parse raw = Some v" "to_any num j = to_any num v" by (rule marshal_raw_Some)
  with j Some show ?thesis by (simp add: decoded_def)
qed (simp add: raw_members_Some(2) [OF assms])

lemma distinct_put_all: "distinct (map fst m) \<Longrightarrow> distinct (map fst (put_all kvs m))"
  by (induction kvs arbitrary: m) (auto simp: put_all_def distinct_update)

lemma put_all_keys: "fst ` set (put_all kvs m) = fst ` set kvs \<union> fst ` set m"
proof (induction kvs arbitrary: m)
  case (Cons kv kvs)
  then show ?case by (cases kv) (auto simp: dom_update)
qed simp

lemma whole_configuration:
  assumes b: "build_configuration foldU vid data = Inr config" and ne: "config \<noteq> []"
    and d: "distinct (map fst data)" and s: "shallow data" and num: "\<forall>lit. num lit \<noteq> None"
  obtains fs where "Option.bind (json_parse config) (to_any num) = Some (GMap fs)"
    and "map_of fs svc_Features = Option.bind (map_of data svc_FeaturesConfigKey) (decoded num)"
    and "map_of fs svc_Authored = Option.bind (map_of data svc_AuthoredConfigKey) (decoded num)"
    and "list_all (\<lambda>(n, _). ValidString n) (result_entries foldU data) \<and> result_entries foldU data \<noteq> [] \<longrightarrow>
      (\<exists>rs. map_of fs svc_DeploymentResults = Some (GMap rs) \<and>
        map_of rs = (\<lambda>n. Option.bind (map_of (put_all (result_entries foldU data) []) n) (decoded num)))"
proof -
  from b ne d s num obtain ms fs where p: "json_parse config = Some (object_of ms)"
    and ms: "config_members foldU data = Some ms" and v: "to_any num (object_of ms) = Some (GMap fs)"
    and fs: "map_of fs = (\<lambda>k. Option.bind (map_of ms k) (to_any num))"
    by (rule configuration_value)
  note mem = config_members_distinct [OF ms d]
  from ms obtain ms0 where ms0: "raw_members (section_entries data) = Some ms0"
    by (auto simp: config_members_def split: option.splits)
  note sec = raw_members_decoded [OF ms0, of _ num] raw_members_Some(2) [OF ms0] section_entries_distinct(2,3) [OF d]
  have "Option.bind (json_parse config) (to_any num) = Some (GMap fs)" using p v by simp
  moreover have "map_of fs svc_Features = Option.bind (map_of data svc_FeaturesConfigKey) (decoded num)"
    "map_of fs svc_Authored = Option.bind (map_of data svc_AuthoredConfigKey) (decoded num)"
    using fs mem(3,4) sec(1) [of svc_Features] sec(1) [of svc_Authored] sec(2) [of svc_Features] sec(2) [of svc_Authored] sec(3,4)
    by simp_all
  moreover have "\<exists>rs. map_of fs svc_DeploymentResults = Some (GMap rs) \<and>
        map_of rs = (\<lambda>n. Option.bind (map_of (put_all (result_entries foldU data) []) n) (decoded num))"
    if names: "list_all (\<lambda>(n, _). ValidString n) (result_entries foldU data)" and res: "result_entries foldU data \<noteq> []"
  proof -
    let ?r = "put_all (result_entries foldU data) []"
    from ms res obtain rs where rs: "raw_members ?r = Some rs"
      by (auto simp: config_members_def split: option.splits)
    have "distinct (map fst rs)" "fst ` set rs = fst ` set ?r"
      using raw_members_Some(1) [OF rs] distinct_put_all [of "[]" "result_entries foldU data"]
      by (simp, metis list.set_map)
    moreover have "\<forall>n \<in> fst ` set ?r. ValidString n"
      using names put_all_keys [of "result_entries foldU data" "[]"] by (auto simp: list_all_iff)
    ultimately obtain gs where "to_any num (object_of rs) = Some (GMap gs)"
      "map_of gs = (\<lambda>k. Option.bind (map_of rs k) (to_any num))"
      using to_any_object [OF num, of rs] by auto
    then show ?thesis using fs mem(5) res rs raw_members_decoded [OF rs, of _ num] by simp
  qed
  ultimately show thesis by (intro that) blast+
qed

section \<open>From the object to the answer\<close>

lemma build_configuration_total:
  assumes "distinct (map fst data)" and "\<forall>raw \<in> snd ` set data. json_parse raw \<noteq> None"
    and "[] \<notin> fst ` set (result_entries foldU data)"
  shows "\<exists>config. build_configuration foldU vid data = Inr config"
proof -
  have raws: "raw_members m \<noteq> None" if "snd ` set m \<subseteq> snd ` set data" for m
  proof -
    have "map_option (Pair k) (marshal_raw raw) \<noteq> None" if "(k, raw) \<in> set m" for k raw
      using that assms(2) \<open>snd ` set m \<subseteq> snd ` set data\<close> by (force simp: marshal_raw_def)
    then show ?thesis
      unfolding raw_members_def by (subst those_all) auto
  qed
  have "raw_members (put_all (section_entries data) []) \<noteq> None" "raw_members (put_all (result_entries foldU data) []) \<noteq> None"
    using put_all_values [of "section_entries data" "[]"] put_all_values [of "result_entries foldU data" "[]"]
      section_entries_values [of data] result_entries_values [of foldU data]
    by (intro raws; simp; blast)+
  moreover have "config_loop foldU vid [] [] data =
      Inr (put_all (section_entries data) [], put_all (result_entries foldU data) [])"
    using assms(3) by (simp add: config_loop_Inr)
  ultimately show ?thesis by (auto simp: build_configuration_def marshal_configuration_def)
qed

text \<open>A ConfigMap holds the data it was created with; a client may see it in any order.\<close>

definition read_back :: "string gomap \<Rightarrow> cm_data \<Rightarrow> bool" where
  "read_back d data \<longleftrightarrow> distinct (map fst data) \<and> map_of data = map_of d"

text \<open>A request that has to read the ConfigMap: a cache miss, no fetch to share.\<close>

definition reads :: "('s, 'c) svc_env \<Rightarrow> string \<Rightarrow> ('s, 'c) svc_world \<Rightarrow> cm_data \<Rightarrow> bool" where
  "reads E vid w data \<longleftrightarrow>
     Cache_Get (CacheOps E) (cache w) vid = None \<and> fst (InFlight E vid (srv w)) = None \<and>
     fst (FetchConfigMap E (svc_cm_key E vid) (snd (InFlight E vid (srv w)))) = Inr data"

lemma reads_getConfiguration:
  assumes "reads E vid w data"
  shows "fst (getConfiguration E vid w) = build_configuration (UnicodeFold E) vid data"
  using assms
  by (auto simp: reads_def getConfiguration_def fetchConfiguration_def call_def silent_def
      split: prod.splits sum.splits)

lemma read_back_mem: "read_back d data \<Longrightarrow> (k, v) \<in> set data \<longleftrightarrow> map_of d k = Some v"
  unfolding read_back_def by (metis map_of_eq_Some_iff)

lemma rendered_entry:
  assumes "renderData enc vd = Inr d" and "map_of d k = Some raw"
  shows "k = FeaturesConfigKey \<and> raw = rawOrNull (vdFeatures vd) \<or> k = AuthoredConfigKey \<and> raw = rawOrNull (vdAuthored vd) \<or>
    (\<exists>c rs. (c, rs) \<in> set (kept (vdDeploymentResults vd)) \<and> k = data_key c \<and> enc rs = Inr raw)"
proof -
  note r = renderData_keys [OF assms(1)]
  have "k \<in> dom (map_of d)" using assms(2) by (rule domI)
  then have "k \<in> {FeaturesConfigKey, AuthoredConfigKey} \<union> data_key ` fst ` set (kept (vdDeploymentResults vd))"
    by (simp only: r(4))
  then consider "k = FeaturesConfigKey" | "k = AuthoredConfigKey"
    | c rs where "(c, rs) \<in> set (kept (vdDeploymentResults vd))" "k = data_key c"
    by (auto simp del: same_keys)
  then show ?thesis
  proof cases
    case 3
    then have "map_option Inr (map_of d (data_key c)) = Some (enc rs)" using r(3) by (auto simp: list_all_iff)
    then show ?thesis using 3 assms(2) by auto
  qed (use r(1,2) assms(2) in auto)
qed

text \<open>The results of the components as the service finds them.\<close>

lemma data_key_result: "is_result_key (data_key c)"
  by (simp add: is_result_key_def data_key_def HasPrefix_def)

lemma rendered_results:
  assumes "renderData enc vd = Inr d" and "read_back d data"
    and keys: "list_all (\<lambda>(c, _). cm_key (componentBasename c)) (vdDeploymentResults vd)"
  shows "(n, raw) \<in> set (result_entries foldU data) \<longleftrightarrow>
      (\<exists>c rs. (c, rs) \<in> set (kept (vdDeploymentResults vd)) \<and> n = componentBasename c \<and> enc rs = Inr raw)"
    and "distinct (map fst (result_entries foldU data))"
proof -
  note r = renderData_keys [OF assms(1)]
  have name: "deployment_name foldU (data_key c) = componentBasename c" if "(c, rs) \<in> set (kept (vdDeploymentResults vd))" for c rs
    using that keys by (auto simp: set_kept list_all_iff data_key_def deployment_name_rendered)
  have sections: "\<not> is_result_key FeaturesConfigKey" "\<not> is_result_key AuthoredConfigKey"
    using result_key_not_section by (auto simp: is_section_def)
  have key: "\<exists>c rs. (c, rs) \<in> set (kept (vdDeploymentResults vd)) \<and> k = data_key c \<and> enc rs = Inr v"
    if "(k, v) \<in> set data" "is_result_key k" for k v
    using rendered_entry [OF assms(1), of k v] that read_back_mem [OF assms(2), of k v] sections by auto
  have val: "(data_key c, v) \<in> set data"
    if "(c, rs) \<in> set (kept (vdDeploymentResults vd))" "enc rs = Inr v" for c rs v
    using r(3) that read_back_mem [OF assms(2)] by (fastforce simp: list_all_iff)
  show "(n, raw) \<in> set (result_entries foldU data) \<longleftrightarrow>
      (\<exists>c rs. (c, rs) \<in> set (kept (vdDeploymentResults vd)) \<and> n = componentBasename c \<and> enc rs = Inr raw)"
  proof
    assume "(n, raw) \<in> set (result_entries foldU data)"
    then obtain k where "(k, raw) \<in> set data" "is_result_key k" "n = deployment_name foldU k"
      by (auto simp: result_entries_def)
    then show "\<exists>c rs. (c, rs) \<in> set (kept (vdDeploymentResults vd)) \<and> n = componentBasename c \<and> enc rs = Inr raw"
      using key name by metis
  next
    assume "\<exists>c rs. (c, rs) \<in> set (kept (vdDeploymentResults vd)) \<and> n = componentBasename c \<and> enc rs = Inr raw"
    then obtain c rs where c: "(c, rs) \<in> set (kept (vdDeploymentResults vd))" "n = componentBasename c" "enc rs = Inr raw" by blast
    then have "(data_key c, raw) \<in> set (filter (\<lambda>(k, v). is_result_key k) data)" using val data_key_result by simp
    then show "(n, raw) \<in> set (result_entries foldU data)"
      using name [OF c(1)] c(2) unfolding result_entries_def by force
  qed
  have "inj_on (deployment_name foldU) (fst ` set (filter (\<lambda>(k, v). is_result_key k) data))"
  proof (rule inj_onI)
    fix k l
    assume "k \<in> fst ` set (filter (\<lambda>(k, v). is_result_key k) data)" "l \<in> fst ` set (filter (\<lambda>(k, v). is_result_key k) data)"
      and eq: "deployment_name foldU k = deployment_name foldU l"
    then obtain v u where "(k, v) \<in> set data" "is_result_key k" "(l, u) \<in> set data" "is_result_key l" by auto
    then obtain c rs d rs' where "(c, rs) \<in> set (kept (vdDeploymentResults vd))" "k = data_key c"
      "(d, rs') \<in> set (kept (vdDeploymentResults vd))" "l = data_key d" using key by metis
    then show "k = l" using name eq by (metis data_key_eq)
  qed
  moreover have "distinct (map fst (filter (\<lambda>(k, v). is_result_key k) data))"
    using assms(2) by (simp add: read_back_def distinct_map_filter)
  ultimately show "distinct (map fst (result_entries foldU data))"
    by (simp add: result_entries_def case_prod_unfold comp_def distinct_map inj_on_def) blast
qed

text \<open>An object whose raw parts are JSON and whose components can be keys of a ConfigMap.\<close>

definition well_formed_vd :: "(DeploymentResult list \<Rightarrow> string result) \<Rightarrow> VectorData \<Rightarrow> bool" where
  "well_formed_vd enc vd \<longleftrightarrow>
     json_parse (rawOrNull (vdFeatures vd)) \<noteq> None \<and> json_parse (rawOrNull (vdAuthored vd)) \<noteq> None \<and>
     list_all (\<lambda>(c, rs). cm_key (componentBasename c) \<and>
       (case enc rs of Inl _ \<Rightarrow> True | Inr t \<Rightarrow> json_parse t \<noteq> None)) (vdDeploymentResults vd)"

lemma well_formed_keys:
  "well_formed_vd enc vd \<Longrightarrow> list_all (\<lambda>(c, _). cm_key (componentBasename c)) (vdDeploymentResults vd)"
  by (auto simp: well_formed_vd_def list_all_iff)

lemma rendered_builds:
  assumes "renderData enc vd = Inr d" and "read_back d data" and "well_formed_vd enc vd"
  shows "\<exists>config. build_configuration foldU vid data = Inr config"
proof (rule build_configuration_total)
  show "distinct (map fst data)" using assms(2) by (simp add: read_back_def)
  have "json_parse raw \<noteq> None" if "(k, raw) \<in> set data" for k raw
  proof -
    have "map_of d k = Some raw" using that read_back_mem [OF assms(2)] by simp
    from rendered_entry [OF assms(1) this] assms(3) show ?thesis
      by (auto simp: well_formed_vd_def set_kept list_all_iff split: sum.splits)
  qed
  then show "\<forall>raw \<in> snd ` set data. json_parse raw \<noteq> None" by force
  show "[] \<notin> fst ` set (result_entries foldU data)"
    using rendered_results(1) [OF assms(1,2) well_formed_keys [OF assms(3)], of "[]" _ foldU]
    by (auto simp: set_kept)
qed

lemma null_value [simp]: "json_parse jsonNullLiteral = Some JNull"
  using sample_values(1) by (simp add: jsonNullLiteral_def)

lemma rendered_features:
  assumes "renderData enc vd = Inr d" and "read_back d data"
  shows "map_of data svc_FeaturesConfigKey = Some (rawOrNull (vdFeatures vd))"
    and "map_of data svc_AuthoredConfigKey = Some (rawOrNull (vdAuthored vd))"
  using renderData_keys(1,2) [OF assms(1)] assms(2) by (simp_all add: read_back_def)


text \<open>
  C14. A vector without features cannot be served: the controller renders missing features as
  \<^verbatim>\<open>null\<close>, which the service does not accept as a map of features, so that a bulk request for
  that vector ends with status 500 instead of an empty list of flags.
\<close>

theorem missing_features_500:
  assumes "renderData enc vd = Inr d" and "read_back d data" and "shallow data"
    and "vdFeatures vd = None \<or> vdFeatures vd = Some []"
    and "getEvaluationContext E (Body r) = Inr ctx" and "targeting_key ctx = Some vid"
    and "reads E vid w data"
  shows "StatusCode (fst (handleEvaluateBulk E r w)) = 500"
proof (cases "build_configuration (UnicodeFold E) vid data")
  case (Inl e)
  with reads_getConfiguration [OF assms(7)] assms(5,6) show ?thesis
    by (auto simp: handleEvaluateBulk_def internalServerErrorResponse_def writeResponse_def
        writeResponseWithEtag_def split: prod.splits)
next
  case (Inr config)
  have dist: "distinct (map fst data)" using assms(2) by (simp add: read_back_def)
  have null: "rawOrNull (vdFeatures vd) = jsonNullLiteral" using assms(4) by (auto simp: rawOrNull_def)
  have "config \<noteq> [] \<and> getAllFeatures config = Inl (ErrMsg ''could not parse features json'')"
    using configuration_value_features [OF Inr rendered_features(1) [OF assms(1,2)] dist assms(3)]
    by (simp add: null)
  with Inr reads_getConfiguration [OF assms(7)] assms(5,6) show ?thesis
    by (auto simp: handleEvaluateBulk_def internalServerErrorResponse_def writeResponse_def
        writeResponseWithEtag_def split: prod.splits)
qed

section \<open>Examples\<close>

definition vector_of :: "string option \<Rightarrow> VectorData" where
  "vector_of features = ObjectMeta.extend (new_meta ''default'' ''v1'')
     (VectorData.fields features None [(''acme.org/shop'', [])] [])"

definition no_results :: "DeploymentResult list \<Rightarrow> string result" where
  "no_results rs = Inr ''[]''"

lemma no_results_simps [simp]: "no_results rs = Inr ''[]''"
  by (simp add: no_results_def)

lemma vector_of_sel [simp]:
  "vdFeatures (vector_of f) = f" "vdAuthored (vector_of f) = None"
  "vdDeploymentResults (vector_of f) = [(''acme.org/shop'', [])]"
  by (simp_all add: vector_of_def ObjectMeta.extend_def VectorData.fields_def new_meta_def)

lemma shop [simp]: "componentBasename ''acme.org/shop'' = ''shop''"
  by code_simp

lemma vector_of_rendered:
  "renderData no_results (vector_of f) =
     Inr [(svc_FeaturesConfigKey, rawOrNull f), (svc_AuthoredConfigKey, ''null''), (''deploymentResults.shop.json'', ''[]'')]"
  by (simp add: renderData_def assertUniqueResults_def rawOrNull_def jsonNullLiteral_def svc_keys svc_JsonSuffix_def)

lemma vector_of_sample: "renderData no_results (vector_of (Some sample_features)) = Inr sample_data"
  by (simp add: vector_of_rendered sample_data_def rawOrNull_def sample_features_def)

lemma sample_reads: "srv w = data \<Longrightarrow> cache w = new_InMemoryCache \<Longrightarrow> reads sample_svc_env ''v1'' w data"
  by (simp add: reads_def InMemoryCache_Get_def new_InMemoryCache_def)

lemma sample_well_formed: "well_formed_vd no_results (vector_of (Some sample_features))"
  using sample_values(1-3)
  by (simp add: well_formed_vd_def rawOrNull_def sample_features_def jsonNullLiteral_def cm_key_def cm_key_char_def byte_def)


definition featureless_world :: "(cm_data, InMemoryCache) svc_world" where
  "featureless_world =
     \<lparr>srv = [(svc_FeaturesConfigKey, ''null''), (svc_AuthoredConfigKey, ''null''), (''deploymentResults.shop.json'', ''[]'')],
      trace = [], cache = new_InMemoryCache\<rparr>"

theorem missing_features_500_witness:
  "StatusCode (fst (handleEvaluateBulk sample_svc_env sample_request featureless_world)) = 500"
proof -
  let ?d = "[(svc_FeaturesConfigKey, ''null''), (svc_AuthoredConfigKey, ''null''), (''deploymentResults.shop.json'', ''[]'')]"
  have r: "renderData no_results (vector_of None) = Inr ?d"
    by (simp add: vector_of_rendered rawOrNull_def jsonNullLiteral_def)
  have b: "read_back ?d ?d" by (simp add: read_back_def svc_keys)
  have s: "shallow ?d" using sample_values(1,2) by (simp add: shallow_def maxNestingDepth_def)
  obtain ctx where c: "getEvaluationContext sample_svc_env (Body sample_request) = Inr ctx" "targeting_key ctx = Some ''v1''"
    using sample_context by auto
  have w: "reads sample_svc_env ''v1'' featureless_world ?d"
    by (rule sample_reads) (simp_all add: featureless_world_def)
  show ?thesis by (rule missing_features_500 [OF r b s _ c w]) simp
qed

end
