(* ===== verification/Cache_Coherence.thy ===== *)
theory Cache_Coherence
  imports VectorData_Service
begin

text \<open>
  The cache of the vector-data service under concurrency. A request that misses the cache reads
  the ConfigMap and stores the configuration (\<^verbatim>\<open>getConfiguration\<close>), while the informer delivers
  updates and deletions and drops entries (\<^verbatim>\<open>informer.go\<close>), each on a goroutine of its own. The
  reading and the storing are two steps here, and every other step may come between them.

  \<open>coherence_step\<close> is the step relation; \<open>coherent\<close> is its invariant, which says what an entry
  of the cache is worth.
\<close>

section \<open>States and steps\<close>

text \<open>The part of \<^verbatim>\<open>getConfiguration\<close>'s fetch that follows the read of the ConfigMap.\<close>

definition store_fetched ::
  "(nat \<Rightarrow> nat) \<Rightarrow> 'c Cache \<Rightarrow> string \<Rightarrow> cm_data \<Rightarrow> 'c \<Rightarrow> 'c" where
  "store_fetched foldU C vid data c =
     (case build_configuration foldU vid data of
        Inl e \<Rightarrow> c
      | Inr config \<Rightarrow> if config = [] then c else Cache_Set C c vid config)"

datatype informer_note =
    NoteUpdate ObjectMeta ObjectMeta
  | NoteDelete informer_object

definition deliver_note :: "'c Cache \<Rightarrow> informer_note \<Rightarrow> 'c \<Rightarrow> 'c" where
  "deliver_note C n c =
     (case n of
        NoteUpdate old new \<Rightarrow> informer_UpdateFunc C old new c
      | NoteDelete obj \<Rightarrow> informer_DeleteFunc C obj c)"

text \<open>The vector whose entry a notification drops, if any.\<close>

definition dropped_by :: "informer_note \<Rightarrow> string option" where
  "dropped_by n =
     (case n of
        NoteUpdate old new \<Rightarrow>
          if ResourceVersion old = ResourceVersion new then None else Some (TrimPrefix (Name new) cmPrefix)
      | NoteDelete (ObjConfigMap cm) \<Rightarrow> Some (TrimPrefix (Name cm) cmPrefix)
      | NoteDelete (ObjTombstone (Some cm)) \<Rightarrow> Some (TrimPrefix (Name cm) cmPrefix)
      | NoteDelete _ \<Rightarrow> None)"

text \<open>
  The ConfigMaps of the namespace by name, the notifications the informer has yet to deliver, the
  fetches that have read their ConfigMap and not stored it, and the cache. \<open>overtaken\<close> records
  the vectors whose entry was dropped while a fetch of theirs was under way.
\<close>

record coherence_state =
  cluster :: "string \<Rightarrow> (ObjectMeta \<times> cm_data) option"
  pending :: "informer_note list"
  fetches :: "(string \<times> cm_data) list"
  entries :: InMemoryCache
  overtaken :: "string set"

definition coherence_init :: coherence_state where
  "coherence_init =
     \<lparr>cluster = (\<lambda>_. None), pending = [], fetches = [], entries = new_InMemoryCache, overtaken = {}\<rparr>"

text \<open>
  The API server gives every change of an object a new resource version. The informer's periodic
  resync repeats an object unchanged, and a deletion it has missed arrives as a tombstone with the
  last state it knows. At most one fetch per vector is under way (\<^verbatim>\<open>singleflight\<close>).
\<close>

inductive coherence_step :: "(nat \<Rightarrow> nat) \<Rightarrow> coherence_state \<Rightarrow> coherence_state \<Rightarrow> bool" for foldU where
  created: "\<lbrakk>cluster st n = None; Name m = n\<rbrakk> \<Longrightarrow>
    coherence_step foldU st (st\<lparr>cluster := (cluster st)(n \<mapsto> (m, d))\<rparr>)"
| updated: "\<lbrakk>cluster st n = Some (m, d); Name m' = n; ResourceVersion m' \<noteq> ResourceVersion m\<rbrakk> \<Longrightarrow>
    coherence_step foldU st
      (st\<lparr>cluster := (cluster st)(n \<mapsto> (m', d')), pending := pending st @ [NoteUpdate m m']\<rparr>)"
| deleted: "\<lbrakk>cluster st n = Some (m, d); obj = ObjConfigMap m \<or> obj = ObjTombstone (Some m)\<rbrakk> \<Longrightarrow>
    coherence_step foldU st
      (st\<lparr>cluster := (cluster st)(n := None), pending := pending st @ [NoteDelete obj]\<rparr>)"
| resynced: "cluster st n = Some (m, d) \<Longrightarrow>
    coherence_step foldU st (st\<lparr>pending := pending st @ [NoteUpdate m m]\<rparr>)"
| delivered: "pending st = n # ns \<Longrightarrow>
    coherence_step foldU st
      (st\<lparr>pending := ns, entries := deliver_note in_memory n (entries st),
         overtaken := overtaken st \<union> {v. dropped_by n = Some v \<and> v \<in> fst ` set (fetches st)}\<rparr>)"
| fetched: "\<lbrakk>vid \<notin> fst ` set (fetches st); cluster st (cmPrefix @ vid) = Some (m, d)\<rbrakk> \<Longrightarrow>
    coherence_step foldU st (st\<lparr>fetches := (vid, d) # fetches st\<rparr>)"
| stored: "fetches st = pre @ (vid, d) # post \<Longrightarrow>
    coherence_step foldU st
      (st\<lparr>fetches := pre @ post, entries := store_fetched foldU in_memory vid d (entries st)\<rparr>)"

inductive coherence_reachable :: "(nat \<Rightarrow> nat) \<Rightarrow> coherence_state \<Rightarrow> bool" for foldU where
  init: "coherence_reachable foldU coherence_init"
| step: "\<lbrakk>coherence_reachable foldU st; coherence_step foldU st st'\<rbrakk> \<Longrightarrow> coherence_reachable foldU st'"

text \<open>The two steps of a fetch are the code's fetch.\<close>

lemma fetchConfiguration_store:
  assumes "FetchConfigMap E (svc_cm_key E vid) (srv w) = (Inr data, s)"
  shows "cache (snd (fetchConfiguration E vid w)) = store_fetched (UnicodeFold E) (CacheOps E) vid data (cache w)"
  using assms by (simp add: fetchConfiguration_def call_def store_fetched_def split: sum.split)

section \<open>What an entry is worth\<close>

context cache_contract
begin

lemma deliver_note_get:
  assumes "inv c"
  shows "Cache_Get C (deliver_note C n c) v = (if dropped_by n = Some v then None else Cache_Get C c v)"
  using assms
  by (auto simp: deliver_note_def dropped_by_def update_handler informer_DeleteFunc_def get_set
      split: informer_note.split informer_object.split option.split)

lemma deliver_note_inv: "inv c \<Longrightarrow> inv (deliver_note C n c)"
  by (auto simp: deliver_note_def update_handler delete_handler split: informer_note.split)

lemma store_fetched_get:
  assumes "inv c"
  shows "Cache_Get C (store_fetched foldU C vid d c) v = Some cfg \<longleftrightarrow>
    (if v = vid \<and> (\<exists>x. x \<noteq> [] \<and> build_configuration foldU vid d = Inr x)
     then build_configuration foldU vid d = Inr cfg else Cache_Get C c v = Some cfg)"
  using assms by (auto simp: store_fetched_def get_set split: sum.split)

lemma store_fetched_inv: "inv c \<Longrightarrow> inv (store_fetched foldU C vid d c)"
  by (auto simp: store_fetched_def inv_set split: sum.split)

end

definition current_data :: "coherence_state \<Rightarrow> string \<Rightarrow> cm_data option" where
  "current_data st vid = map_option snd (cluster st (cmPrefix @ vid))"

definition drop_pending :: "coherence_state \<Rightarrow> string \<Rightarrow> bool" where
  "drop_pending st vid \<longleftrightarrow> (\<exists>n \<in> set (pending st). dropped_by n = Some vid)"

definition coherent :: "(nat \<Rightarrow> nat) \<Rightarrow> coherence_state \<Rightarrow> bool" where
  "coherent foldU st \<longleftrightarrow>
     cache_inv (entries st) \<and> (\<forall>n m d. cluster st n = Some (m, d) \<longrightarrow> Name m = n) \<and>
     (\<forall>vid. vid \<in> overtaken st \<or> drop_pending st vid \<or>
        (\<forall>cfg. InMemoryCache_Get (entries st) vid = Some cfg \<longrightarrow>
           (\<exists>d. current_data st vid = Some d \<and> build_configuration foldU vid d = Inr cfg)) \<and>
        (\<forall>d. (vid, d) \<in> set (fetches st) \<longrightarrow> current_data st vid = Some d))"

lemma coherent_init: "coherent foldU coherence_init"
  using cache_inv_new by (simp add: coherent_def coherence_init_def new_InMemoryCache_def InMemoryCache_Get_def)

lemmas mem_get = mem.deliver_note_get [simplified in_memory_sel] mem.store_fetched_get [simplified in_memory_sel]

lemma dropped_by_simps [simp]:
  "dropped_by (NoteUpdate m m') =
     (if ResourceVersion m = ResourceVersion m' then None else Some (TrimPrefix (Name m') cmPrefix))"
  "dropped_by (NoteDelete (ObjConfigMap m)) = Some (TrimPrefix (Name m) cmPrefix)"
  "dropped_by (NoteDelete (ObjTombstone (Some m))) = Some (TrimPrefix (Name m) cmPrefix)"
  by (simp_all add: dropped_by_def)

lemma coherent_changed:
  assumes "coherent foldU st" and "dropped_by n = Some (TrimPrefix name cmPrefix)"
    and "\<forall>m d. x = Some (m, d) \<longrightarrow> Name m = name"
  shows "coherent foldU (st\<lparr>cluster := (cluster st)(name := x), pending := pending st @ [n]\<rparr>)"
proof -
  have "TrimPrefix name cmPrefix = vid" if "cmPrefix @ vid = name" for vid using that by auto
  with assms show ?thesis
    by (auto simp: coherent_def current_data_def drop_pending_def split: if_splits)
qed

lemma not_fst_image: "a \<notin> fst ` A \<Longrightarrow> (a, b) \<notin> A"
  by force

lemma coherent_step:
  assumes "coherence_step foldU st st'" and "coherent foldU st"
  shows "coherent foldU st'"
  using assms
proof (induction rule: coherence_step.induct)
  case (created st n m d)
  then show ?case
    by (auto simp: coherent_def current_data_def drop_pending_def)
next
  case (updated st n m d m' d')
  then show ?case by (intro coherent_changed) auto
next
  case (deleted st n m d obj)
  moreover from deleted have "Name m = n" by (auto simp: coherent_def)
  ultimately show ?case by (intro coherent_changed) auto
next
  case (resynced st n m d)
  then show ?case
    by (auto simp: coherent_def current_data_def drop_pending_def)
next
  case (delivered st n ns)
  then have "cache_inv (entries st)" by (simp add: coherent_def)
  with delivered show ?case
    by (auto simp: coherent_def current_data_def drop_pending_def mem_get mem.deliver_note_inv not_fst_image)
next
  case (fetched vid st m d)
  then show ?case
    by (auto simp: coherent_def current_data_def drop_pending_def)
next
  case (stored st pre vid d post)
  then have "cache_inv (entries st)" by (simp add: coherent_def)
  with stored show ?case
    by (auto simp: coherent_def current_data_def drop_pending_def mem_get mem.store_fetched_inv) metis
qed

lemma coherent_reachable: "coherence_reachable foldU st \<Longrightarrow> coherent foldU st"
  by (induction rule: coherence_reachable.induct) (auto intro: coherent_init coherent_step)


definition sample_cm :: ObjectMeta where
  "sample_cm = new_meta ''default'' (cmPrefix @ ''v1'')"

definition sample_created :: coherence_state where
  "sample_created = coherence_init\<lparr>cluster := [cmPrefix @ ''v1'' \<mapsto> (sample_cm, sample_data)]\<rparr>"

lemma sample_created_reachable: "coherence_reachable foldU sample_created"
proof -
  have "coherence_step foldU coherence_init
      (coherence_init\<lparr>cluster := (cluster coherence_init)(cmPrefix @ ''v1'' \<mapsto> (sample_cm, sample_data))\<rparr>)"
    by (rule coherence_step.created) (simp_all add: coherence_init_def sample_cm_def new_meta_def)
  moreover have "cluster coherence_init = Map.empty" by (simp add: coherence_init_def)
  ultimately show ?thesis
    unfolding sample_created_def by (metis coherence_reachable.init coherence_reachable.step)
qed

definition sample_fetched :: coherence_state where
  "sample_fetched = sample_created\<lparr>fetches := [(''v1'', sample_data)]\<rparr>"

lemma sample_fetched_reachable: "coherence_reachable foldU sample_fetched"
proof -
  have "coherence_step foldU sample_created (sample_created\<lparr>fetches := (''v1'', sample_data) # fetches sample_created\<rparr>)"
    by (rule coherence_step.fetched [where m = sample_cm]) (simp_all add: sample_created_def coherence_init_def)
  then show ?thesis
    by (auto intro: coherence_reachable.step [OF sample_created_reachable]
        simp: sample_fetched_def sample_created_def coherence_init_def)
qed

lemma sample_store:
  obtains cfg where "store_fetched (\<lambda>r. r) in_memory ''v1'' sample_data new_InMemoryCache =
      InMemoryCache_Set new_InMemoryCache ''v1'' cfg"
    "build_configuration (\<lambda>r. r) ''v1'' sample_data = Inr cfg"
    "InMemoryCache_Get (InMemoryCache_Set new_InMemoryCache ''v1'' cfg) ''v1'' = Some cfg"
proof -
  obtain cfg where c: "build_configuration (\<lambda>r. r) ''v1'' sample_data = Inr cfg" using sample_config(1) by blast
  have "cfg \<noteq> []" using configuration_value_features [OF c sample_config(2-4)] by blast
  with that c mem.get_set [OF cache_inv_new, of "''v1''" cfg "''v1''"] show thesis
    by (simp add: store_fetched_def)
qed


text \<open>
  The exception is real: a fetch that read its ConfigMap before a deletion and stores it after
  the informer has handled that deletion leaves an entry for a vector that no longer exists. No
  notification is pending that would ever drop it.
\<close>

theorem stale_entry_survives:
  "\<exists>st cfg. coherence_reachable (\<lambda>r. r) st \<and> pending st = [] \<and> fetches st = [] \<and>
     current_data st ''v1'' = None \<and> InMemoryCache_Get (entries st) ''v1'' = Some cfg"
proof -
  let ?n = "NoteDelete (ObjConfigMap sample_cm)"
  let ?del = "sample_fetched\<lparr>cluster := (cluster sample_fetched)(cmPrefix @ ''v1'' := None),
    pending := pending sample_fetched @ [?n]\<rparr>"
  let ?dlv = "?del\<lparr>pending := [], entries := deliver_note in_memory ?n (entries ?del),
    overtaken := overtaken ?del \<union> {v. dropped_by ?n = Some v \<and> v \<in> fst ` set (fetches ?del)}\<rparr>"
  let ?st = "?dlv\<lparr>fetches := [] @ [], entries := store_fetched (\<lambda>r. r) in_memory ''v1'' sample_data (entries ?dlv)\<rparr>"
  note defs = sample_fetched_def sample_created_def coherence_init_def
  have 1: "coherence_step (\<lambda>r. r) sample_fetched ?del"
    by (rule coherence_step.deleted [where m = sample_cm and d = sample_data]) (simp_all add: defs)
  have 2: "coherence_step (\<lambda>r. r) ?del ?dlv"
    by (rule coherence_step.delivered) (simp add: defs)
  have 3: "coherence_step (\<lambda>r. r) ?dlv ?st"
    by (rule coherence_step.stored) (simp add: sample_fetched_def)
  have "entries ?dlv = new_InMemoryCache"
    by (simp add: defs deliver_note_def informer_DeleteFunc_def InMemoryCache_Set_def new_InMemoryCache_def)
  then obtain cfg where "InMemoryCache_Get (entries ?st) ''v1'' = Some cfg"
    by (rule_tac sample_store) simp
  moreover have "coherence_reachable (\<lambda>r. r) ?st"
    by (intro coherence_reachable.step [OF _ 3] coherence_reachable.step [OF _ 2]
        coherence_reachable.step [OF _ 1] sample_fetched_reachable)
  moreover have "pending ?st = []" "fetches ?st = []" "current_data ?st ''v1'' = None"
    by (simp_all add: current_data_def)
  ultimately show ?thesis by blast
qed

end
