(* ===== verification/VectorData_Main.thy ===== *)
theory VectorData_Main
  imports Config_Cache Go_Strings
begin

text \<open>
  The process of the vector-data service, \<^verbatim>\<open>cmd/vectordata/main.go\<close>, with the two goroutines it
  starts: the one that waits for the informer's first sync (\<^verbatim>\<open>informer.go\<close>) and the one that runs
  the HTTP server (\<^verbatim>\<open>Start\<close> in \<^verbatim>\<open>vector_data_service.go\<close>).

  The start-up is a function of the process environment. From there on the process is a
  transition system: the goroutines and the main function share the error channel.
\<close>

section \<open>Start-up\<close>

definition VectorDataServicePortEnv :: string where
  "VectorDataServicePortEnv = ''VECTOR_DATA_SERVICE_PORT''"

definition VectorDataServiceNamespaceEnv :: string where
  "VectorDataServiceNamespaceEnv = ''VECTOR_DATA_SERVICE_NAMESPACE''"

definition DefaultPort :: int where
  "DefaultPort = 4000"

text \<open>
  The environment of the process: the environment variables (empty when unset), the value of the
  \<^verbatim>\<open>-port\<close> flag if given, and the answers of the Kubernetes client library.
\<close>

record ('cfg, 'cl) process_env =
  Getenv :: "string \<Rightarrow> string"
  PortFlag :: "int option"
  InClusterConfig :: "'cfg result"
  DefaultFilename :: string
  BuildConfigFromFlags :: "string \<Rightarrow> string \<Rightarrow> 'cfg result"
  NewForConfig :: "'cfg \<Rightarrow> 'cl result"
  AddEventHandler :: "go_error option"

definition initServerPort :: "('cfg, 'cl) process_env \<Rightarrow> int" where
  "initServerPort E =
     (let port = (case PortFlag E of None \<Rightarrow> DefaultPort | Some p \<Rightarrow> p);
          envPort = Getenv E VectorDataServicePortEnv
      in if envPort \<noteq> [] then (case ParseInt64 envPort of Some p \<Rightarrow> p | None \<Rightarrow> port) else port)"

definition service_namespace :: "('cfg, 'cl) process_env \<Rightarrow> string" where
  "service_namespace E =
     (let namespace = Getenv E VectorDataServiceNamespaceEnv in if namespace = [] then ''default'' else namespace)"

text \<open>\<open>None\<close> is \<^verbatim>\<open>os.Exit(1)\<close>.\<close>

definition getK8sConfig :: "('cfg, 'cl) process_env \<Rightarrow> 'cfg option" where
  "getK8sConfig E =
     (case InClusterConfig E of
        Inr config \<Rightarrow> Some config
      | Inl _ \<Rightarrow>
          (case BuildConfigFromFlags E [] (DefaultFilename E) of
             Inr config \<Rightarrow> Some config
           | Inl _ \<Rightarrow> None))"

definition createClientSet :: "('cfg, 'cl) process_env \<Rightarrow> 'cfg \<Rightarrow> 'cl option" where
  "createClientSet E config = (case NewForConfig E config of Inr c \<Rightarrow> Some c | Inl _ \<Rightarrow> None)"

section \<open>The running process\<close>

text \<open>
  The main function waits in its \<^verbatim>\<open>select\<close>, shuts the server down, or has exited with a status.
\<close>

datatype main_pc = Selecting | ShuttingDown | Exited nat

text \<open>
  \<open>syncing\<close> and \<open>serving\<close> say whether the two goroutines still run; \<open>errChan\<close> is the buffered
  channel, \<open>ctx_done\<close> the state of the context that a signal cancels. \<open>failures\<close> counts the
  errors the goroutines have sent.
\<close>

record process =
  pc :: main_pc
  syncing :: bool
  serving :: bool
  errChan :: "go_error list"
  ctx_done :: bool
  failures :: nat

definition errChan_capacity :: nat where
  "errChan_capacity = 2"

definition main_start :: "('cfg, 'cl) process_env \<Rightarrow> process" where
  "main_start E =
     (let stop = (\<lambda>n. \<lparr>pc = Exited n, syncing = False, serving = False, errChan = [], ctx_done = False, failures = 0\<rparr>) in
      case Option.bind (getK8sConfig E) (createClientSet E) of
        None \<Rightarrow> stop 1
      | Some _ \<Rightarrow>
          if AddEventHandler E \<noteq> None then stop 1
          else \<lparr>pc = Selecting, syncing = True, serving = True, errChan = [], ctx_done = False, failures = 0\<rparr>)"

text \<open>
  A send needs room in the buffer. After a shutdown \<^verbatim>\<open>ListenAndServe\<close> returns
  \<^verbatim>\<open>http.ErrServerClosed\<close>, which is not sent.
\<close>

definition serve_error :: "bool \<Rightarrow> go_error \<Rightarrow> go_error option" where
  "serve_error closed err = (if \<not> closed then Some (ErrWrap ''http server failed to start: '' err) else None)"

definition send_result :: "go_error option \<Rightarrow> process \<Rightarrow> process" where
  "send_result r p =
     (case r of None \<Rightarrow> p | Some e \<Rightarrow> p\<lparr>errChan := errChan p @ [e], failures := failures p + 1\<rparr>)"

definition exit_status :: "process \<Rightarrow> nat" where
  "exit_status p = (if length (errChan p) > 0 then 1 else 0)"

inductive main_step :: "process \<Rightarrow> process \<Rightarrow> bool" where
  signal: "\<forall>n. pc p \<noteq> Exited n \<Longrightarrow> main_step p (p\<lparr>ctx_done := True\<rparr>)"
| sync_end: "\<lbrakk>\<forall>n. pc p \<noteq> Exited n; syncing p; r = informer_await_sync synced (ctx_done p) deadline err;
    r \<noteq> None \<longrightarrow> length (errChan p) < errChan_capacity\<rbrakk> \<Longrightarrow>
    main_step p (send_result r (p\<lparr>syncing := False\<rparr>))"
| serve_end: "\<lbrakk>\<forall>n. pc p \<noteq> Exited n; serving p; closed \<longrightarrow> pc p = ShuttingDown; r = serve_error closed err;
    r \<noteq> None \<longrightarrow> length (errChan p) < errChan_capacity\<rbrakk> \<Longrightarrow>
    main_step p (send_result r (p\<lparr>serving := False\<rparr>))"
| select_done: "\<lbrakk>pc p = Selecting; ctx_done p\<rbrakk> \<Longrightarrow> main_step p (p\<lparr>pc := ShuttingDown\<rparr>)"
| select_error: "\<lbrakk>pc p = Selecting; errChan p = e # es\<rbrakk> \<Longrightarrow>
    main_step p (p\<lparr>pc := ShuttingDown, errChan := es\<rparr>)"
| exit: "pc p = ShuttingDown \<Longrightarrow> main_step p (p\<lparr>pc := Exited (exit_status p)\<rparr>)"

inductive_cases main_stepE: "main_step p q"

inductive main_reachable :: "('cfg, 'cl) process_env \<Rightarrow> process \<Rightarrow> bool" for E where
  start: "main_reachable E (main_start E)"
| step: "\<lbrakk>main_reachable E p; main_step p q\<rbrakk> \<Longrightarrow> main_reachable E q"

text \<open>
  A run takes steps that change the process as long as there are any (repeating a signal is no
  such step) and then stays where it is.
\<close>

definition main_run :: "(nat \<Rightarrow> process) \<Rightarrow> bool" where
  "main_run run \<longleftrightarrow>
     (\<forall>i. main_step (run i) (run (Suc i)) \<and> run (Suc i) \<noteq> run i \<or>
          run (Suc i) = run i \<and> (\<forall>q. main_step (run i) q \<longrightarrow> q = run i))"

section \<open>Invariant\<close>

definition process_inv :: "process \<Rightarrow> bool" where
  "process_inv p \<longleftrightarrow>
     failures p + of_bool (syncing p) + of_bool (serving p) \<le> errChan_capacity \<and>
     length (errChan p) \<le> failures p \<and>
     (pc p = Selecting \<longrightarrow> length (errChan p) = failures p) \<and>
     (pc p = ShuttingDown \<longrightarrow> ctx_done p \<or> Suc (length (errChan p)) = failures p) \<and>
     (\<forall>n. pc p = Exited n \<and> failures p > 0 \<longrightarrow>
        n = exit_status p \<and> (ctx_done p \<or> Suc (length (errChan p)) = failures p))"

lemma process_inv_start: "process_inv (main_start E)"
  by (auto simp: main_start_def process_inv_def errChan_capacity_def Let_def split: option.split)

lemma process_inv_send:
  assumes "process_inv p" and "\<forall>n. pc p \<noteq> Exited n" and "length (errChan p) < errChan_capacity \<or> r = None"
  shows "syncing p \<Longrightarrow> process_inv (send_result r (p\<lparr>syncing := False\<rparr>))"
    and "serving p \<Longrightarrow> process_inv (send_result r (p\<lparr>serving := False\<rparr>))"
  using assms by (auto simp: process_inv_def send_result_def split: option.split)

lemma process_inv_step:
  assumes "main_step p q" and "process_inv p"
  shows "process_inv q"
  using assms
proof (induction rule: main_step.induct)
  case (sync_end p r synced deadline err)
  then show ?case by (intro process_inv_send) auto
next
  case (serve_end p closed r err)
  then show ?case by (intro process_inv_send) auto
qed (auto simp: process_inv_def exit_status_def)

lemma process_inv_reachable: "main_reachable E p \<Longrightarrow> process_inv p"
  by (induction rule: main_reachable.induct) (auto intro: process_inv_start process_inv_step)

text \<open>
  C11. The error channel is large enough: whenever a goroutine that could fail is still running
  there is room for its error, so that no send ever blocks.
\<close>

theorem errChan_never_full:
  assumes "main_reachable E p" and "syncing p \<or> serving p"
  shows "length (errChan p) < errChan_capacity"
  using process_inv_reachable [OF assms(1)] assms(2) by (auto simp: process_inv_def)

text \<open>
  C15. A background error on its own ends the process with status 0: the \<^verbatim>\<open>select\<close> has taken it
  out of the channel whose length the exit status is computed from. Status 1 takes a second error,
  or a signal that is handled before the error is.
\<close>

theorem single_failure_exits_0:
  assumes "main_reachable E p" and "pc p = Exited n" and "failures p = 1" and "\<not> ctx_done p"
  shows "n = 0"
  using process_inv_reachable [OF assms(1)] assms(2-4) by (auto simp: process_inv_def exit_status_def)

section \<open>Termination\<close>

definition pc_rank :: "main_pc \<Rightarrow> nat" where
  "pc_rank c = (case c of Selecting \<Rightarrow> 2 | ShuttingDown \<Rightarrow> 1 | Exited _ \<Rightarrow> 0)"

definition process_rank :: "process \<Rightarrow> nat" where
  "process_rank p = pc_rank (pc p) + of_bool (syncing p) + of_bool (serving p) + of_bool (\<not> ctx_done p)"

lemma rank_send [simp]: "process_rank (send_result r p) = process_rank p"
  by (auto simp: process_rank_def send_result_def split: option.split)

lemma rank_updates [simp]:
  "syncing p \<Longrightarrow> process_rank (p\<lparr>syncing := False\<rparr>) < process_rank p"
  "serving p \<Longrightarrow> process_rank (p\<lparr>serving := False\<rparr>) < process_rank p"
  "\<not> ctx_done p \<Longrightarrow> process_rank (p\<lparr>ctx_done := True\<rparr>) < process_rank p"
  by (simp_all add: process_rank_def)

lemma rank_step: "main_step p q \<Longrightarrow> q \<noteq> p \<Longrightarrow> process_rank q < process_rank p"
proof (induction rule: main_step.induct)
  case (signal p)
  then have "\<not> ctx_done p" by (cases p) auto
  then show ?case by simp
next
  case (sync_end p r synced deadline err)
  then show ?case by simp
next
  case (serve_end p closed r err)
  then show ?case by simp
qed (auto simp: process_rank_def pc_rank_def)

lemma ctx_done_step: "main_step p q \<Longrightarrow> ctx_done p \<Longrightarrow> ctx_done q"
  by (induction rule: main_step.induct) (auto simp: send_result_def split: option.split)

lemma main_progress:
  assumes "ctx_done p" and "\<forall>n. pc p \<noteq> Exited n"
  shows "\<exists>q. main_step p q \<and> q \<noteq> p"
proof (cases "pc p")
  case Selecting
  with assms have "main_step p (p\<lparr>pc := ShuttingDown\<rparr>)" by (intro select_done) auto
  moreover from Selecting have "p\<lparr>pc := ShuttingDown\<rparr> \<noteq> p" by (cases p) auto
  ultimately show ?thesis by blast
next
  case ShuttingDown
  then have "main_step p (p\<lparr>pc := Exited (exit_status p)\<rparr>)" by (rule exit)
  moreover from ShuttingDown have "p\<lparr>pc := Exited (exit_status p)\<rparr> \<noteq> p" by (cases p) auto
  ultimately show ?thesis by blast
qed (use assms in auto)

lemma main_run_exits:
  assumes "main_run run" and "ctx_done (run i)"
  shows "\<exists>j n. pc (run j) = Exited n"
  using assms(2)
proof (induction "process_rank (run i)" arbitrary: i rule: less_induct)
  case less
  show ?case
  proof (cases "\<exists>n. pc (run i) = Exited n")
    case False
    then have "\<exists>q. main_step (run i) q \<and> q \<noteq> run i" using main_progress less(2) by blast
    with assms(1) have "main_step (run i) (run (Suc i))" "run (Suc i) \<noteq> run i"
      unfolding main_run_def by blast+
    then show ?thesis using less rank_step ctx_done_step by blast
  qed blast
qed

text \<open>
  C12. A signalled process comes to an end: on every run, once the context is cancelled, the main
  function reaches its exit, whatever the goroutines do meanwhile.
\<close>

theorem signal_leads_to_exit:
  assumes "main_run run" and "ctx_done (run i)"
  shows "\<exists>j n. pc (run j) = Exited n"
  using assms by (rule main_run_exits)

section \<open>Examples\<close>

definition sample_process_env :: "(unit, unit) process_env" where
  "sample_process_env =
     \<lparr>Getenv = (\<lambda>v. if v = VectorDataServicePortEnv then ''8080'' else []), PortFlag = None,
      InClusterConfig = Inr (), DefaultFilename = [], BuildConfigFromFlags = (\<lambda>u f. Inr ()),
      NewForConfig = (\<lambda>c. Inr ()), AddEventHandler = None\<rparr>"

definition sample_running :: process where
  "sample_running = \<lparr>pc = Selecting, syncing = True, serving = True, errChan = [], ctx_done = False, failures = 0\<rparr>"

lemma sample_start: "main_start sample_process_env = sample_running"
  by (simp add: main_start_def sample_process_env_def sample_running_def getK8sConfig_def createClientSet_def)

theorem errChan_never_full_witness:
  "main_reachable sample_process_env sample_running \<and> syncing sample_running \<and>
     length (errChan sample_running) < errChan_capacity"
proof -
  have r: "main_reachable sample_process_env sample_running"
    by (metis main_reachable.start sample_start)
  moreover have "syncing sample_running" by (simp add: sample_running_def)
  ultimately show ?thesis using errChan_never_full [OF r] by blast
qed

theorem single_failure_exits_0_witness:
  "\<exists>p. main_reachable sample_process_env p \<and> failures p = 1 \<and> \<not> ctx_done p \<and> pc p = Exited 0"
proof -
  let ?e = "ErrMsg ''address already in use''"
  let ?p1 = "send_result (serve_error False ?e) (sample_running\<lparr>serving := False\<rparr>)"
  let ?p2 = "?p1\<lparr>pc := ShuttingDown, errChan := []\<rparr>"
  let ?p3 = "?p2\<lparr>pc := Exited (exit_status ?p2)\<rparr>"
  note defs = sample_running_def send_result_def serve_error_def errChan_capacity_def
  have 1: "main_step sample_running ?p1"
    by (rule serve_end [where closed = False and err = ?e]) (simp_all add: defs)
  have 2: "main_step ?p1 ?p2" by (rule select_error) (simp_all add: defs)
  have 3: "main_step ?p2 ?p3" by (rule exit) simp
  have "main_reachable sample_process_env sample_running"
    using main_reachable.start [of sample_process_env] by (simp only: sample_start)
  then have r: "main_reachable sample_process_env ?p3"
    by (intro main_reachable.step [OF _ 3] main_reachable.step [OF _ 2] main_reachable.step [OF _ 1])
  have p: "pc ?p3 = Exited (exit_status ?p2)" "failures ?p3 = 1" "\<not> ctx_done ?p3"
    by (simp_all add: defs)
  have "pc ?p3 = Exited 0" using single_failure_exits_0 [OF r p] p(1) by simp
  with r p(2,3) show ?thesis by blast
qed

definition sample_run :: "nat \<Rightarrow> process" where
  "sample_run i =
     \<lparr>pc = (if i = 0 then ShuttingDown else Exited 0), syncing = False, serving = False, errChan = [],
      ctx_done = True, failures = 0\<rparr>"

lemma exited_stuck: "pc p = Exited n \<Longrightarrow> \<not> main_step p q"
  by (auto elim: main_stepE)

lemma sample_main_run: "main_run sample_run"
  unfolding main_run_def
proof
  fix i
  have "main_step (sample_run 0) ((sample_run 0)\<lparr>pc := Exited (exit_status (sample_run 0))\<rparr>)"
    by (rule exit) (simp add: sample_run_def)
  then have "main_step (sample_run 0) (sample_run 1)" by (simp add: sample_run_def exit_status_def)
  moreover have "\<not> main_step (sample_run (Suc j)) q" for j q
    by (rule exited_stuck [of _ 0]) (simp add: sample_run_def)
  ultimately show "main_step (sample_run i) (sample_run (Suc i)) \<and> sample_run (Suc i) \<noteq> sample_run i \<or>
      sample_run (Suc i) = sample_run i \<and> (\<forall>q. main_step (sample_run i) q \<longrightarrow> q = sample_run i)"
    by (cases i) (simp_all add: sample_run_def)
qed

theorem signal_leads_to_exit_witness: "\<exists>j n. pc (sample_run j) = Exited n"
proof -
  have "ctx_done (sample_run 0)" by (simp add: sample_run_def)
  with sample_main_run show ?thesis by (rule signal_leads_to_exit)
qed

text \<open>
  The port: a number in the environment variable wins over the flag, anything else in it is
  ignored, and the default is 4000.
\<close>

theorem initServerPort_correct:
  "initServerPort E =
     (case ParseInt64 (Getenv E VectorDataServicePortEnv) of
        Some p \<Rightarrow> p
      | None \<Rightarrow> (case PortFlag E of Some p \<Rightarrow> p | None \<Rightarrow> 4000))"
  by (auto simp: initServerPort_def Let_def DefaultPort_def ParseInt64_def HasPrefix_def split: option.split)

end
