(* ===== verification/Activation_Data.thy ===== *)
theory Activation_Data
  imports Kube JSON
begin

text \<open>
  Data and environment of the activation controllers
  (\<^verbatim>\<open>internal/activationexecution/internal/controller\<close>): the constants of \<^verbatim>\<open>const.go\<close>, the API
  objects with the fields the sources use, the service specification shared through
  \<^verbatim>\<open>pkg/deploymentresult\<close>, and the calls the controllers make.

  Objects of the Konfidence and Gateway API modules extend \<open>ObjectMeta\<close>. Constants of these modules
  are fields of \<open>net_api\<close>.
\<close>

section \<open>Constants\<close>

definition TypeGatewayRoute :: string where
  "TypeGatewayRoute = ''gateway-route.konfidence.cloud''"

definition headerStage :: string where
  "headerStage = ''x-konfidence-stage''"

definition headerService :: string where
  "headerService = ''x-konfidence-service''"

definition headerRoutingKey :: string where
  "headerRoutingKey = ''x-konfidence-routing-key''"

definition annotationExposedPortName :: string where
  "annotationExposedPortName = ''konfidence.cloud/exposed-port-name''"

definition defaultGatewayName :: string where
  "defaultGatewayName = ''konfidence-router''"

definition stageRouteFinalizer :: string where
  "stageRouteFinalizer = ''konfidence.cloud/gateway-route-cleanup''"

definition stageRouteNamePrefix :: string where
  "stageRouteNamePrefix = ''konfidence-stage-''"

definition labelProvisionedBy :: string where
  "labelProvisionedBy = ''konfidence.cloud/provisioned-by''"

definition provisionedByOrchestrator :: string where
  "provisionedByOrchestrator = ''kubernetes-landscape-orchestrator''"

definition TypeHTTPK8sService :: string where
  "TypeHTTPK8sService = ''http-k8s-service''"

section \<open>Service specifications\<close>

text \<open>
  \<^verbatim>\<open>corev1.ServicePort\<close>: the fields the sources read; \<open>spOther\<close> stands for the remaining ones,
  which are only passed on.
\<close>

record ServicePort =
  spName :: string
  spProtocol :: string
  spPort :: int
  spOther :: string

record ServiceSpec =
  ssNamespace :: string
  ssK8sName :: string
  ssServicePorts :: "ServicePort list"
  ssIngressExposedPortName :: string

definition zero_ServiceSpec :: ServiceSpec where
  "zero_ServiceSpec = \<lparr>ssNamespace = [], ssK8sName = [], ssServicePorts = [], ssIngressExposedPortName = []\<rparr>"

text \<open>
  What decoding depends on beyond the JSON grammar: the decoder of a list of \<^verbatim>\<open>ServicePort\<close>
  into a list that may already hold elements, the table for Unicode case folding, and the text of
  the error \<^verbatim>\<open>json.Unmarshal\<close> gives for an input.
\<close>

record json_env =
  DecodeServicePorts :: "ServicePort list \<Rightarrow> json \<Rightarrow> ServicePort list option"
  FieldFold :: "nat \<Rightarrow> nat"
  UnmarshalErrorText :: "string \<Rightarrow> string"

text \<open>
  \<^verbatim>\<open>json.Unmarshal\<close> into a struct: the members of an object are visited in order, \<open>setter\<close> stores
  one of them (members without a field are skipped by it), \<^verbatim>\<open>null\<close> leaves the struct as it is and
  any other value is an error.
\<close>

fun decode_members :: "(string \<Rightarrow> json \<Rightarrow> 'a \<Rightarrow> 'a option) \<Rightarrow> 'a \<Rightarrow> (string \<times> json) list \<Rightarrow> 'a option" where
  "decode_members setter a [] = Some a"
| "decode_members setter a ((k, v) # kvs) =
     (case setter (unquote k) v a of None \<Rightarrow> None | Some a' \<Rightarrow> decode_members setter a' kvs)"

definition unmarshal_struct :: "(string \<Rightarrow> json \<Rightarrow> 'a \<Rightarrow> 'a option) \<Rightarrow> 'a \<Rightarrow> string \<Rightarrow> 'a option" where
  "unmarshal_struct setter a raw =
     (case json_parse raw of
        None \<Rightarrow> None
      | Some JNull \<Rightarrow> Some a
      | Some (JObj kvs) \<Rightarrow> decode_members setter a kvs
      | Some _ \<Rightarrow> None)"

text \<open>A string field: a string is stored, \<^verbatim>\<open>null\<close> changes nothing, anything else is a type error.\<close>

definition decode_string :: "json \<Rightarrow> string \<Rightarrow> string option" where
  "decode_string v old = (case v of JStr s \<Rightarrow> Some (unquote s) | JNull \<Rightarrow> Some old | _ \<Rightarrow> None)"

definition set_ServiceSpec :: "json_env \<Rightarrow> string \<Rightarrow> json \<Rightarrow> ServiceSpec \<Rightarrow> ServiceSpec option" where
  "set_ServiceSpec J k v s =
     (if EqualFold (FieldFold J) k ''Namespace'' then
        map_option (\<lambda>x. s\<lparr>ssNamespace := x\<rparr>) (decode_string v (ssNamespace s))
      else if EqualFold (FieldFold J) k ''K8sName'' then
        map_option (\<lambda>x. s\<lparr>ssK8sName := x\<rparr>) (decode_string v (ssK8sName s))
      else if EqualFold (FieldFold J) k ''ServicePorts'' then
        map_option (\<lambda>x. s\<lparr>ssServicePorts := x\<rparr>) (DecodeServicePorts J (ssServicePorts s) v)
      else if EqualFold (FieldFold J) k ''IngressExposedPortName'' then
        map_option (\<lambda>x. s\<lparr>ssIngressExposedPortName := x\<rparr>) (decode_string v (ssIngressExposedPortName s))
      else Some s)"

definition unmarshal_ServiceSpec :: "json_env \<Rightarrow> string \<Rightarrow> ServiceSpec result" where
  "unmarshal_ServiceSpec J raw =
     (case unmarshal_struct (set_ServiceSpec J) zero_ServiceSpec raw of
        None \<Rightarrow> Inl (ErrMsg (UnmarshalErrorText J raw))
      | Some s \<Rightarrow> Inr s)"

text \<open>
  \<^verbatim>\<open>json.Marshal\<close> of a \<^verbatim>\<open>ServiceSpec\<close>, given the encoding of the ports; the exposed port name is
  omitted when empty.
\<close>

definition encode_ServiceSpec :: "(ServicePort list \<Rightarrow> json) \<Rightarrow> ServiceSpec \<Rightarrow> json" where
  "encode_ServiceSpec encodePorts s =
     JObj ([(''Namespace'', JStr (quote_string (ssNamespace s))), (''K8sName'', JStr (quote_string (ssK8sName s))),
        (''ServicePorts'', encodePorts (ssServicePorts s))] @
       (if ssIngressExposedPortName s = [] then []
        else [(''IngressExposedPortName'', JStr (quote_string (ssIngressExposedPortName s)))]))"

section \<open>API objects\<close>

record ActivationTaskExecution = ObjectMeta +
  ateType :: string
  ateVectorActivation :: string
  ateSpecRaw :: string
  ateConditions :: "Condition list"

record VectorActivation = ObjectMeta +
  vaStage :: string
  vaStageVersion :: string
  vaVectorDeployment :: string

record VectorDeployment = ObjectMeta +
  vdepDeploymentResults :: "DeploymentResult list gomap"

record Stage = ObjectMeta +
  stageActiveStageVersion :: "string option"

record HTTPHeaderMatch =
  hmName :: string
  hmValue :: string

record HTTPHeaderFilter =
  hfSet :: "(string \<times> string) list"
  hfRemove :: "string list"

record HTTPRouteFilter =
  rfType :: string
  rfRequestHeaderModifier :: "HTTPHeaderFilter option"

record HTTPBackendRef =
  brName :: string
  brPort :: "int option"

record HTTPRouteRule =
  rrMatches :: "HTTPHeaderMatch list list"
  rrFilters :: "HTTPRouteFilter list"
  rrBackendRefs :: "HTTPBackendRef list"

record ParentReference =
  prName :: string
  prNamespace :: "string option"

record HTTPRouteSpec =
  rsParentRefs :: "ParentReference list"
  rsRules :: "HTTPRouteRule list"

record HTTPRoute = ObjectMeta +
  hrSpec :: HTTPRouteSpec

record GatewayStatusAddress =
  gaRoutability :: "string option"
  gaValue :: string

record Listener =
  liName :: string
  liProtocol :: string
  liPort :: int

text \<open>Of the addresses a Gateway asks for only the routability is set or read.\<close>

record Gateway = ObjectMeta +
  gwClassName :: string
  gwAddresses :: "string list"
  gwListeners :: "Listener list"
  gwConditions :: "Condition list"
  gwStatusAddresses :: "GatewayStatusAddress list"

record net_api =
  RoutabilityCluster :: string
  GatewayConditionAccepted :: string
  GatewayConditionProgrammed :: string
  HTTPProtocolType :: string
  FilterRequestHeaderModifier :: string
  ProtocolTCP :: string

section \<open>Calls\<close>

datatype act_event =
    EvGetExecution NamespacedName "ActivationTaskExecution result"
  | EvPatchExecutionStatus ActivationTaskExecution ActivationTaskExecution "unit result"
  | EvGetVectorActivation NamespacedName "VectorActivation result"
  | EvGetVectorDeployment NamespacedName "VectorDeployment result"
  | EvGetStage NamespacedName "Stage result"
  | EvGetStageVersion NamespacedName "ObjectMeta result"
  | EvPatchStage Stage Stage "unit result"
  | EvGetGateway NamespacedName "Gateway result"
  | EvGetGatewayClass string "unit result"
  | EvCreateGateway Gateway "Gateway result"
  | EvDeleteGateway Gateway "unit result"
  | EvApplyRoute NamespacedName HTTPRouteSpec "unit result"
  | EvDeleteRoute NamespacedName "unit result"
  | EvActivationRecorded string string

type_synonym 's act_world = "('s, act_event) world"

text \<open>
  The client of a landscape. \<open>CreateOrUpdateRoute\<close> is \<^verbatim>\<open>controllerutil.CreateOrUpdate\<close> on an HTTPRoute:
  it applies the given change to the object as it is stored, or to a new one.
\<close>

record 's landscape_client =
  GetGateway :: "NamespacedName \<Rightarrow> 's \<Rightarrow> Gateway result \<times> 's"
  GetGatewayClass :: "string \<Rightarrow> 's \<Rightarrow> unit result \<times> 's"
  CreateGateway :: "Gateway \<Rightarrow> 's \<Rightarrow> Gateway result \<times> 's"
  DeleteGateway :: "Gateway \<Rightarrow> 's \<Rightarrow> unit result \<times> 's"
  CreateOrUpdateRoute :: "NamespacedName \<Rightarrow> (HTTPRoute \<Rightarrow> HTTPRoute) \<Rightarrow> 's \<Rightarrow> unit result \<times> 's"
  DeleteRoute :: "NamespacedName \<Rightarrow> 's \<Rightarrow> unit result \<times> 's"

end
