(* ===== verification/Route_Rules.thy ===== *)
theory Route_Rules
  imports Activation_Data
begin

text \<open>
  From a vector deployment to the rules of a stage's HTTPRoute: \<^verbatim>\<open>buildRouteRules\<close>,
  \<^verbatim>\<open>parseGatewayRouteConfig\<close> and \<^verbatim>\<open>StageRouteName\<close> of
  \<^verbatim>\<open>activation_task_execution_controller.go\<close>.

  Two things are left open by Go and are parameters: the order in which the results of the
  components are visited is the order of the association list, and the order in which
  \<^verbatim>\<open>sort.Slice\<close> leaves targets of the same name is up to \<open>SortSlice\<close>.
\<close>

section \<open>Configuration\<close>

record gatewayRouteConfig =
  cfgGatewayName :: string
  cfgGatewayNamespace :: string
  cfgGatewayClassName :: string
  cfgProvisionsGateway :: bool

definition zero_config :: gatewayRouteConfig where
  "zero_config = \<lparr>cfgGatewayName = [], cfgGatewayNamespace = [], cfgGatewayClassName = [], cfgProvisionsGateway = False\<rparr>"

definition set_config :: "json_env \<Rightarrow> string \<Rightarrow> json \<Rightarrow> gatewayRouteConfig \<Rightarrow> gatewayRouteConfig option" where
  "set_config J k v c =
     (if EqualFold (FieldFold J) k ''gatewayName'' then
        map_option (\<lambda>x. c\<lparr>cfgGatewayName := x\<rparr>) (decode_string v (cfgGatewayName c))
      else if EqualFold (FieldFold J) k ''gatewayNamespace'' then
        map_option (\<lambda>x. c\<lparr>cfgGatewayNamespace := x\<rparr>) (decode_string v (cfgGatewayNamespace c))
      else if EqualFold (FieldFold J) k ''gatewayClassName'' then
        map_option (\<lambda>x. c\<lparr>cfgGatewayClassName := x\<rparr>) (decode_string v (cfgGatewayClassName c))
      else Some c)"

definition parseGatewayRouteConfig :: "json_env \<Rightarrow> ActivationTaskExecution \<Rightarrow> gatewayRouteConfig result" where
  "parseGatewayRouteConfig J ate =
     (let raw = ateSpecRaw ate;
          parsed = (if length raw > 0 then unmarshal_struct (set_config J) zero_config raw else Some zero_config)
      in case parsed of
           None \<Rightarrow> Inl (ErrWrap ''parse gateway-route config: '' (ErrMsg (UnmarshalErrorText J raw)))
         | Some c \<Rightarrow>
             (let c1 = c\<lparr>cfgProvisionsGateway :=
                         cfgGatewayClassName c \<noteq> [] \<and> cfgGatewayName c = [] \<and> cfgGatewayNamespace c = []\<rparr>
              in Inr (if cfgGatewayName c1 = [] then c1\<lparr>cfgGatewayName := defaultGatewayName\<rparr> else c1)))"

definition StageRouteName :: "string \<Rightarrow> string" where
  "StageRouteName stage = stageRouteNamePrefix @ stage"

section \<open>Rules\<close>

record routeTarget =
  tgName :: string
  tgService :: string
  tgPort :: int

record route_env =
  Json :: json_env
  Net :: net_api
  SortSlice :: "routeTarget list \<Rightarrow> routeTarget list"

text \<open>The body of the inner loop: no target, one target, or an error.\<close>

definition result_target :: "route_env \<Rightarrow> DeploymentResult \<Rightarrow> routeTarget option result" where
  "result_target R result =
     (if drType result \<noteq> TypeHTTPK8sService then Inr None
      else case unmarshal_ServiceSpec (Json R) (drSpec result) of
        Inl err \<Rightarrow> Inl (ErrWrap (''decode ServiceSpec for deployment result '' @ go_quote (drName result) @ '': '') err)
      | Inr spec \<Rightarrow>
          if ssIngressExposedPortName spec = [] then Inr None
          else
            (let selectedPort = find (\<lambda>p. spName p = ssIngressExposedPortName spec) (ssServicePorts spec) in
             case selectedPort of
               Some p \<Rightarrow>
                 if spProtocol p = ProtocolTCP (Net R) then
                   Inr (Some \<lparr>tgName = drName result, tgService = ssK8sName spec, tgPort = spPort p\<rparr>)
                 else Inl (ErrMsg (''deployment result '' @ go_quote (drName result) @ '' references Service port ''
                   @ go_quote (ssIngressExposedPortName spec)
                   @ '', but the port is missing or not TCP; set Service annotation '' @ go_quote annotationExposedPortName
                   @ '' to the name of a TCP port''))
             | None \<Rightarrow> Inl (ErrMsg (''deployment result '' @ go_quote (drName result) @ '' references Service port ''
                   @ go_quote (ssIngressExposedPortName spec)
                   @ '', but the port is missing or not TCP; set Service annotation '' @ go_quote annotationExposedPortName
                   @ '' to the name of a TCP port''))))"

fun target_loop :: "route_env \<Rightarrow> routeTarget list \<Rightarrow> DeploymentResult list \<Rightarrow> routeTarget list result" where
  "target_loop R targets [] = Inr targets"
| "target_loop R targets (result # results) =
     (case result_target R result of
        Inl e \<Rightarrow> Inl e
      | Inr None \<Rightarrow> target_loop R targets results
      | Inr (Some t) \<Rightarrow> target_loop R (targets @ [t]) results)"

fun targets_loop :: "route_env \<Rightarrow> routeTarget list \<Rightarrow> DeploymentResult list gomap \<Rightarrow> routeTarget list result" where
  "targets_loop R targets [] = Inr targets"
| "targets_loop R targets ((component, results) # rest) =
     (case target_loop R targets results of
        Inl e \<Rightarrow> Inl e
      | Inr targets' \<Rightarrow> targets_loop R targets' rest)"

definition route_rule :: "net_api \<Rightarrow> string \<Rightarrow> string \<Rightarrow> routeTarget \<Rightarrow> HTTPRouteRule" where
  "route_rule N stage routingKey t =
     \<lparr>rrMatches = [[\<lparr>hmName = headerStage, hmValue = stage\<rparr>, \<lparr>hmName = headerService, hmValue = tgName t\<rparr>]],
      rrFilters = [\<lparr>rfType = FilterRequestHeaderModifier N,
        rfRequestHeaderModifier = Some \<lparr>hfSet = [(headerRoutingKey, routingKey)],
          hfRemove = [headerStage, headerService]\<rparr>\<rparr>],
      rrBackendRefs = [\<lparr>brName = tgService t, brPort = Some (tgPort t)\<rparr>]\<rparr>"

definition buildRouteRules :: "route_env \<Rightarrow> string \<Rightarrow> VectorDeployment \<Rightarrow> HTTPRouteRule list result" where
  "buildRouteRules R stage vectorDeployment =
     (case targets_loop R [] (vdepDeploymentResults vectorDeployment) of
        Inl e \<Rightarrow> Inl e
      | Inr targets \<Rightarrow> Inr (map (route_rule (Net R) stage (Name vectorDeployment)) (SortSlice R targets)))"

section \<open>Correctness\<close>

text \<open>What \<^verbatim>\<open>sort.Slice\<close> promises: the same elements, in the order of their names.\<close>

definition sort_slice_ok :: "(routeTarget list \<Rightarrow> routeTarget list) \<Rightarrow> bool" where
  "sort_slice_ok f \<longleftrightarrow> (\<forall>ts. mset (f ts) = mset ts \<and> sorted (map tgName (f ts)))"

text \<open>All results of a deployment, and the results that lead to a rule.\<close>

definition all_results :: "VectorDeployment \<Rightarrow> DeploymentResult list" where
  "all_results d = concat (map snd (vdepDeploymentResults d))"

definition routable :: "route_env \<Rightarrow> DeploymentResult \<Rightarrow> routeTarget option" where
  "routable R r = (case result_target R r of Inl _ \<Rightarrow> None | Inr t \<Rightarrow> t)"

lemma collect_simps [simp]:
  "List.map_filter f [] = []"
  "List.map_filter f (x # xs) = (case f x of None \<Rightarrow> List.map_filter f xs | Some y \<Rightarrow> y # List.map_filter f xs)"
  "List.map_filter f (xs @ ys) = List.map_filter f xs @ List.map_filter f ys"
  by (simp_all add: map_filter_def split: option.split)

lemma target_loop_Inr:
  "target_loop R ts rs = Inr ts' \<longleftrightarrow>
     list_all (\<lambda>r. \<not> isl (result_target R r)) rs \<and> ts' = ts @ List.map_filter (routable R) rs"
proof (induction R ts rs rule: target_loop.induct)
  case (2 R ts r rs)
  then show ?case
    by (cases "result_target R r") (auto simp: routable_def split: option.split)
qed auto

lemma targets_loop_Inr:
  "targets_loop R ts m = Inr ts' \<longleftrightarrow>
     list_all (\<lambda>r. \<not> isl (result_target R r)) (concat (map snd m)) \<and>
     ts' = ts @ List.map_filter (routable R) (concat (map snd m))"
proof (induction R ts m rule: targets_loop.induct)
  case (2 R ts c rs rest)
  show ?case
  proof (cases "target_loop R ts rs")
    case (Inl e)
    then have "\<not> list_all (\<lambda>r. \<not> isl (result_target R r)) rs" using target_loop_Inr [of R ts rs] by auto
    with Inl show ?thesis by simp
  next
    case (Inr ts1)
    then have "list_all (\<lambda>r. \<not> isl (result_target R r)) rs" "ts1 = ts @ List.map_filter (routable R) rs"
      using target_loop_Inr [of R ts rs ts1] by simp_all
    with 2 [OF Inr] Inr show ?thesis by simp
  qed
qed auto

lemma buildRouteRules_Inr:
  "buildRouteRules R stage d = Inr rules \<longleftrightarrow>
     list_all (\<lambda>r. \<not> isl (result_target R r)) (all_results d) \<and>
     rules = map (route_rule (Net R) stage (Name d)) (SortSlice R (List.map_filter (routable R) (all_results d)))"
proof (cases "targets_loop R [] (vdepDeploymentResults d)")
  case (Inl e)
  then have "\<not> list_all (\<lambda>r. \<not> isl (result_target R r)) (all_results d)"
    using targets_loop_Inr [of R "[]" "vdepDeploymentResults d" "List.map_filter (routable R) (all_results d)"]
    by (simp add: all_results_def)
  with Inl show ?thesis by (simp add: buildRouteRules_def)
next
  case (Inr ts)
  then have "list_all (\<lambda>r. \<not> isl (result_target R r)) (all_results d)"
    "ts = List.map_filter (routable R) (all_results d)"
    using targets_loop_Inr [of R "[]" "vdepDeploymentResults d" ts] by (simp_all add: all_results_def)
  with Inr show ?thesis by (auto simp: buildRouteRules_def)
qed

text \<open>When a result leads to a target, by its decoded specification.\<close>

lemma routable_Some:
  "routable R r = Some t \<longleftrightarrow>
     drType r = TypeHTTPK8sService \<and>
     (\<exists>s p. unmarshal_ServiceSpec (Json R) (drSpec r) = Inr s \<and> ssIngressExposedPortName s \<noteq> [] \<and>
        find (\<lambda>p. spName p = ssIngressExposedPortName s) (ssServicePorts s) = Some p \<and>
        spProtocol p = ProtocolTCP (Net R) \<and>
        t = \<lparr>tgName = drName r, tgService = ssK8sName s, tgPort = spPort p\<rparr>)"
  by (auto simp: routable_def result_target_def Let_def split: sum.splits option.splits if_splits)


end
