(* ===== verification/Router_Gateway.thy ===== *)
theory Router_Gateway
  imports Activation_Data
begin

text \<open>
  The konfidence-router Gateway, \<^verbatim>\<open>router_gateway.go\<close>: it is provisioned in the landscape's namespace
  when there is none, watched until every address is cluster-routable, and deleted when it could be
  reachable from outside.
\<close>

section \<open>Constants and states\<close>

definition routerGatewayReadyTimeout :: duration where
  "routerGatewayReadyTimeout = 5 * Minute"

definition routerGatewayPollInterval :: duration where
  "routerGatewayPollInterval = 15 * Second"

definition reasonWaitingForClusterAddress :: string where
  "reasonWaitingForClusterAddress = ''WaitingForClusterAddress''"

definition reasonGatewayClassNotFound :: string where
  "reasonGatewayClassNotFound = ''GatewayClassNotFound''"

definition reasonRoutabilityNotPersisted :: string where
  "reasonRoutabilityNotPersisted = ''RoutabilityNotPersisted''"

definition reasonGatewayNotAccepted :: string where
  "reasonGatewayNotAccepted = ''GatewayNotAccepted''"

definition reasonAddressNotClusterRoutable :: string where
  "reasonAddressNotClusterRoutable = ''AddressNotClusterRoutable''"

definition reasonGatewayNotReady :: string where
  "reasonGatewayNotReady = ''GatewayNotReady''"

datatype routerGatewayPhase = routerGatewayPending | routerGatewayReady | routerGatewayFailed

record routerGatewayState =
  gsPhase :: routerGatewayPhase
  gsReason :: string
  gsMessage :: string
  gsExposed :: bool

definition pendingState :: "string \<Rightarrow> string \<Rightarrow> routerGatewayState" where
  "pendingState reason message =
     \<lparr>gsPhase = routerGatewayPending, gsReason = reason, gsMessage = message, gsExposed = False\<rparr>"

definition failedState :: "string \<Rightarrow> string \<Rightarrow> routerGatewayState" where
  "failedState reason message =
     \<lparr>gsPhase = routerGatewayFailed, gsReason = reason, gsMessage = message, gsExposed = False\<rparr>"

definition exposedState :: "string \<Rightarrow> string \<Rightarrow> routerGatewayState" where
  "exposedState reason message = (failedState reason message)\<lparr>gsExposed := True\<rparr>"

definition readyState :: routerGatewayState where
  "readyState = \<lparr>gsPhase = routerGatewayReady, gsReason = [], gsMessage = [], gsExposed = False\<rparr>"

section \<open>Judging a Gateway\<close>

definition requestsClusterRoutability :: "net_api \<Rightarrow> Gateway \<Rightarrow> bool" where
  "requestsClusterRoutability N gateway \<longleftrightarrow>
     (if list_ex (\<lambda>routability. routability \<noteq> RoutabilityCluster N) (gwAddresses gateway) then False
      else length (gwAddresses gateway) > 0)"

definition isClusterRoutable :: "net_api \<Rightarrow> Gateway \<Rightarrow> bool" where
  "isClusterRoutable N gateway \<longleftrightarrow>
     (if \<not> requestsClusterRoutability N gateway \<or> length (gwStatusAddresses gateway) = 0 then False
      else \<not> list_ex (\<lambda>address. gaRoutability address = None \<or> the (gaRoutability address) \<noteq> RoutabilityCluster N)
             (gwStatusAddresses gateway))"

definition addressValues :: "GatewayStatusAddress list \<Rightarrow> string" where
  "addressValues addresses = Join (map gaValue addresses) '', ''"

definition newRouterGateway :: "net_api \<Rightarrow> string \<Rightarrow> string \<Rightarrow> Gateway" where
  "newRouterGateway N namespace className = ObjectMeta.extend
     ((new_meta namespace defaultGatewayName)\<lparr>Labels := [(labelProvisionedBy, provisionedByOrchestrator)]\<rparr>)
     (Gateway.fields className [RoutabilityCluster N]
        [\<lparr>liName = ''http'', liProtocol = HTTPProtocolType N, liPort = 80\<rparr>] [] [])"

definition missingGatewayClassState :: "string \<Rightarrow> time \<Rightarrow> time \<Rightarrow> routerGatewayState" where
  "missingGatewayClassState className startedAt now =
     (let message = ''GatewayClass '' @ className @ '' does not exist; set gatewayClassName to an installed class'' in
      if time_Sub now startedAt > routerGatewayReadyTimeout then failedState reasonGatewayClassNotFound message
      else pendingState reasonGatewayClassNotFound message)"

text \<open>\<^verbatim>\<open>5m0s\<close> is how the timeout prints.\<close>

definition evaluateRouterGateway :: "net_api \<Rightarrow> meta_lib \<Rightarrow> Gateway \<Rightarrow> time \<Rightarrow> routerGatewayState" where
  "evaluateRouterGateway N L gateway now =
     (let name = Namespace gateway @ ''/'' @ Name gateway;
          className = gwClassName gateway;
          accepted = FindStatusCondition L (gwConditions gateway) (GatewayConditionAccepted N);
          programmed = IsStatusConditionTrue L (gwConditions gateway) (GatewayConditionProgrammed N)
      in if \<not> requestsClusterRoutability N gateway then
           exposedState reasonRoutabilityNotPersisted (''Gateway '' @ name
             @ '' lost spec.addresses[].routability; install the Gateway API experimental-channel CRDs v1.7.0 or later'')
         else if accepted \<noteq> None \<and> cStatus (the accepted) = ConditionFalse then
           failedState reasonGatewayNotAccepted (''Gateway '' @ name @ '' was not accepted (''
             @ cReason (the accepted) @ ''): '' @ cMessage (the accepted))
         else if isClusterRoutable N gateway then readyState
         else if programmed \<and> length (gwStatusAddresses gateway) > 0 then
           exposedState reasonAddressNotClusterRoutable (''Gateway '' @ name @ '' is programmed with addresses ''
             @ addressValues (gwStatusAddresses gateway) @ '' that are not cluster-routable; GatewayClass ''
             @ className @ '' does not support GEP-5093'')
         else if time_Sub now (time_of (CreationTimestamp gateway)) > routerGatewayReadyTimeout then
           failedState reasonGatewayNotReady (''Gateway '' @ name @ '' has no cluster-routable address after ''
             @ ''5m0s'' @ ''; check that a controller serves GatewayClass '' @ className)
         else pendingState reasonWaitingForClusterAddress
           (''waiting for Gateway '' @ name @ '' to report a cluster-routable address''))"

section \<open>Provisioning\<close>

definition router_key :: "string \<Rightarrow> NamespacedName" where
  "router_key namespace = nsname namespace defaultGatewayName"

definition deleteExposedGateway ::
  "'s landscape_client \<Rightarrow> string \<Rightarrow> Gateway \<Rightarrow> 's act_world \<Rightarrow> go_error option \<times> 's act_world" where
  "deleteExposedGateway c namespace gateway w =
     (let (d, w1) = call (DeleteGateway c gateway) (EvDeleteGateway gateway) w in
      case hard_error d of
        Some err \<Rightarrow> (Some (ErrWrap (''delete exposed Gateway '' @ nn_String (router_key namespace) @ '': '') err), w1)
      | None \<Rightarrow> (None, w1))"

definition createRouterGateway ::
  "net_api \<Rightarrow> meta_lib \<Rightarrow> 's landscape_client \<Rightarrow> string \<Rightarrow> string \<Rightarrow> time \<Rightarrow> time \<Rightarrow> 's act_world \<Rightarrow>
   routerGatewayState result \<times> 's act_world" where
  "createRouterGateway N L c namespace className startedAt now w =
     (let (k, w1) = call (GetGatewayClass c className) (EvGetGatewayClass className) w in
      case k of
        Inl err \<Rightarrow>
          if IsNotFound err then (Inr (missingGatewayClassState className startedAt now), w1)
          else (Inl (ErrWrap (''get GatewayClass '' @ className @ '': '') err), w1)
      | Inr _ \<Rightarrow>
          (let gateway = newRouterGateway N namespace className;
               (r, w2) = call (CreateGateway c gateway) (EvCreateGateway gateway) w1;
               pending = pendingState reasonWaitingForClusterAddress (''created Gateway ''
                 @ nn_String (router_key namespace) @ '', waiting for a cluster-routable address'')
           in case r of
                Inl err \<Rightarrow>
                  if \<not> IsAlreadyExists err then
                    (Inl (ErrWrap (''create Gateway '' @ nn_String (router_key namespace) @ '': '') err), w2)
                  else (Inr pending, w2)
              | Inr stored \<Rightarrow>
                  if \<not> requestsClusterRoutability N stored then
                    (let (e, w3) = deleteExposedGateway c namespace stored w2 in
                     case e of
                       Some err \<Rightarrow> (Inl err, w3)
                     | None \<Rightarrow> (Inr (evaluateRouterGateway N L stored now), w3))
                  else (Inr pending, w2)))"

definition ensureRouterGateway ::
  "net_api \<Rightarrow> meta_lib \<Rightarrow> 's landscape_client \<Rightarrow> string \<Rightarrow> string \<Rightarrow> time \<Rightarrow> time \<Rightarrow> 's act_world \<Rightarrow>
   routerGatewayState result \<times> 's act_world" where
  "ensureRouterGateway N L c namespace className startedAt now w =
     (let (g, w1) = call (GetGateway c (router_key namespace)) (EvGetGateway (router_key namespace)) w in
      case g of
        Inl err \<Rightarrow>
          if IsNotFound err then createRouterGateway N L c namespace className startedAt now w1
          else (Inl (ErrWrap (''get Gateway '' @ nn_String (router_key namespace) @ '': '') err), w1)
      | Inr gateway \<Rightarrow>
          if go_index (Labels gateway) labelProvisionedBy \<noteq> provisionedByOrchestrator then (Inr readyState, w1)
          else
            (let state = evaluateRouterGateway N L gateway now in
             if gsExposed state then
               (let (e, w2) = deleteExposedGateway c namespace gateway w1 in
                case e of Some err \<Rightarrow> (Inl err, w2) | None \<Rightarrow> (Inr state, w2))
             else (Inr state, w1)))"

section \<open>Correctness\<close>

lemma state_simps [simp]:
  "gsPhase (pendingState r m) = routerGatewayPending" "gsPhase (failedState r m) = routerGatewayFailed"
  "gsPhase (exposedState r m) = routerGatewayFailed" "gsPhase readyState = routerGatewayReady"
  "\<not> gsExposed (pendingState r m)" "\<not> gsExposed (failedState r m)" "gsExposed (exposedState r m)" "\<not> gsExposed readyState"
  by (simp_all add: pendingState_def failedState_def exposedState_def readyState_def)

text \<open>A Gateway the orchestrator provisioned, and one that may be reachable from outside.\<close>

definition provisioned :: "Gateway \<Rightarrow> bool" where
  "provisioned g \<longleftrightarrow> map_of (Labels g) labelProvisionedBy = Some provisionedByOrchestrator"

definition all_cluster :: "net_api \<Rightarrow> Gateway \<Rightarrow> bool" where
  "all_cluster N g \<longleftrightarrow>
     gwAddresses g \<noteq> [] \<and> set (gwAddresses g) \<subseteq> {RoutabilityCluster N} \<and>
     gwStatusAddresses g \<noteq> [] \<and> gaRoutability ` set (gwStatusAddresses g) \<subseteq> {Some (RoutabilityCluster N)}"

lemma requests_iff:
  "requestsClusterRoutability N g \<longleftrightarrow> gwAddresses g \<noteq> [] \<and> set (gwAddresses g) \<subseteq> {RoutabilityCluster N}"
  by (auto simp: requestsClusterRoutability_def list_ex_iff)

lemma routable_iff: "isClusterRoutable N g \<longleftrightarrow> all_cluster N g"
  by (auto simp: isClusterRoutable_def requests_iff all_cluster_def list_ex_iff)

definition gateway_rejected :: "net_api \<Rightarrow> meta_lib \<Rightarrow> Gateway \<Rightarrow> bool" where
  "gateway_rejected N L g \<longleftrightarrow>
     (\<exists>c. FindStatusCondition L (gwConditions g) (GatewayConditionAccepted N) = Some c \<and> cStatus c = ConditionFalse)"

lemma evaluate_ready_iff:
  "gsPhase (evaluateRouterGateway N L g now) = routerGatewayReady \<longleftrightarrow> all_cluster N g \<and> \<not> gateway_rejected N L g"
  by (auto simp: evaluateRouterGateway_def Let_def routable_iff gateway_rejected_def)
     (auto simp: all_cluster_def requests_iff)

lemma evaluate_exposed_not_ready:
  "gsExposed (evaluateRouterGateway N L g now) \<Longrightarrow> gsPhase (evaluateRouterGateway N L g now) = routerGatewayFailed"
  by (auto simp: evaluateRouterGateway_def Let_def split: if_splits)

lemma evaluate_exposed_iff:
  "gsExposed (evaluateRouterGateway N L g now) \<longleftrightarrow>
     \<not> requestsClusterRoutability N g \<or>
     \<not> gateway_rejected N L g \<and> \<not> all_cluster N g \<and> gwStatusAddresses g \<noteq> [] \<and>
       IsStatusConditionTrue L (gwConditions g) (GatewayConditionProgrammed N)"
  by (auto simp: evaluateRouterGateway_def Let_def routable_iff gateway_rejected_def)

lemma evaluate_pending_bound:
  "gsPhase (evaluateRouterGateway N L g now) = routerGatewayPending \<Longrightarrow>
     now - time_of (CreationTimestamp g) \<le> routerGatewayReadyTimeout"
  by (auto simp: evaluateRouterGateway_def Let_def time_Sub_def routerGatewayReadyTimeout_def Minute_def Second_def
      split: if_splits)

text \<open>
  C21. The verdict on a provisioned Gateway: it is ready exactly when it asked for cluster
  routability, has at least one address, every address is cluster-routable and no controller has
  rejected it; it is to be deleted exactly when it lost its request or is programmed with an address
  that is not cluster-routable, and then it is never ready.
\<close>

theorem evaluateRouterGateway_correct:
  "(gsPhase (evaluateRouterGateway N L g now) = routerGatewayReady \<longleftrightarrow> all_cluster N g \<and> \<not> gateway_rejected N L g) \<and>
   (gsExposed (evaluateRouterGateway N L g now) \<longleftrightarrow>
      (if requestsClusterRoutability N g
       then \<not> gateway_rejected N L g \<and> \<not> all_cluster N g \<and> gwStatusAddresses g \<noteq> [] \<and>
         IsStatusConditionTrue L (gwConditions g) (GatewayConditionProgrammed N)
       else True)) \<and>
   \<not> (gsExposed (evaluateRouterGateway N L g now) \<and> gsPhase (evaluateRouterGateway N L g now) = routerGatewayReady)"
  using evaluate_ready_iff [of N L g now] evaluate_exposed_iff [of N L g now] evaluate_exposed_not_ready [of N L g now]
  by auto

text \<open>
  C23. Waiting is bounded: five minutes after its creation a Gateway is no longer pending, and five
  minutes after an execution was created a missing class is no longer waited for. This holds for
  differences beyond the range of a Go duration too.
\<close>

theorem gateway_wait_bounded:
  assumes "5 * 60 * 10 ^ 9 < now - time_of (CreationTimestamp g)" and "5 * 60 * 10 ^ 9 < now - startedAt"
  shows "gsPhase (evaluateRouterGateway N L g now) \<noteq> routerGatewayPending \<and>
    gsPhase (missingGatewayClassState className startedAt now) = routerGatewayFailed"
  using assms evaluate_pending_bound [of N L g now]
  by (auto simp: missingGatewayClassState_def Let_def time_Sub_def routerGatewayReadyTimeout_def Minute_def Second_def)

theorem gateway_wait_bounded_witness:
  "gsPhase (missingGatewayClassState ''istio'' 0 (6 * 60 * 10 ^ 9)) = routerGatewayFailed"
proof -
  let ?g = "newRouterGateway \<lparr>RoutabilityCluster = ''Cluster'', GatewayConditionAccepted = ''Accepted'',
    GatewayConditionProgrammed = ''Programmed'', HTTPProtocolType = ''HTTP'',
    FilterRequestHeaderModifier = ''RequestHeaderModifier'', ProtocolTCP = ''TCP''\<rparr> ''land'' ''istio''"
  have "CreationTimestamp ?g = None"
    by (simp add: newRouterGateway_def ObjectMeta.extend_def new_meta_def Gateway.fields_def)
  then have "5 * 60 * 10 ^ 9 < 6 * 60 * 10 ^ 9 - time_of (CreationTimestamp ?g)"
    by (simp add: time_of_def zero_time_def Second_def)
  then show ?thesis using gateway_wait_bounded [of "6 * 60 * 10 ^ 9" ?g 0] by simp
qed

end
