(* ===== verification/Activation_Controller.thy ===== *)
theory Activation_Controller
  imports Route_Rules Router_Gateway
begin

text \<open>
  The activation controllers: \<^verbatim>\<open>ActivationTaskExecutionReconciler\<close>
  (\<^verbatim>\<open>activation_task_execution_controller.go\<close>), which maintains the HTTPRoute of a stage, and
  \<^verbatim>\<open>StageRouteCleanupReconciler\<close> (\<^verbatim>\<open>stage_route_cleanup_controller.go\<close>), which removes it with the
  stage.

  The client of the control plane is the environment \<open>act_env\<close>; routes and Gateways go through the
  client \<^verbatim>\<open>LandscapeClientProvider.ClientFor\<close> returns. Every handler is a function of the world, and
  the lemmas speak about the calls it appends to the trace.
\<close>

section \<open>Environment\<close>

text \<open>
  \<open>Local\<close> is the field of \<^verbatim>\<open>LandscapeClientProvider\<close> that \<^verbatim>\<open>ClientFor\<close> answers with.
\<close>

record 's act_env = "'s base_env" +
  Route :: route_env
  Local :: "'s landscape_client"
  GetExecution :: "NamespacedName \<Rightarrow> 's \<Rightarrow> ActivationTaskExecution result \<times> 's"
  PatchExecutionStatus :: "ActivationTaskExecution \<Rightarrow> ActivationTaskExecution \<Rightarrow> 's \<Rightarrow> unit result \<times> 's"
  GetVectorActivation :: "NamespacedName \<Rightarrow> 's \<Rightarrow> VectorActivation result \<times> 's"
  GetVectorDeployment :: "NamespacedName \<Rightarrow> 's \<Rightarrow> VectorDeployment result \<times> 's"
  GetStage :: "NamespacedName \<Rightarrow> 's \<Rightarrow> Stage result \<times> 's"
  GetStageVersion :: "NamespacedName \<Rightarrow> 's \<Rightarrow> ObjectMeta result \<times> 's"
  PatchStage :: "Stage \<Rightarrow> Stage \<Rightarrow> 's \<Rightarrow> unit result \<times> 's"

definition ClientFor :: "'s act_env \<Rightarrow> string \<Rightarrow> 's landscape_client result" where
  "ClientFor E namespace = Inr (Local E)"

section \<open>The status of an execution\<close>

definition markSucceeded ::
  "'s act_env \<Rightarrow> ActivationTaskExecution \<Rightarrow> 's act_world \<Rightarrow> ActivationTaskExecution \<times> 's act_world" where
  "markSucceeded E ate w =
     (let cs = RemoveStatusCondition (Lib E) (ateConditions ate) (ActivationTaskExecutionInProgress (Api E));
          (cs', w1) = set_condition E cs (ActivationTaskExecutionSucceeded (Api E)) ConditionTrue
            (ActivationTaskExecutionSucceeded (Api E))
            (''Successfully reconciled ActivationTaskExecution '' @ Name ate) (Generation ate) w
      in (ate\<lparr>ateConditions := cs'\<rparr>, w1))"

definition reportRouterGateway ::
  "'s act_env \<Rightarrow> ActivationTaskExecution \<Rightarrow> routerGatewayState \<Rightarrow> 's act_world \<Rightarrow>
   (Result \<times> ActivationTaskExecution) \<times> 's act_world" where
  "reportRouterGateway E ate state w =
     (if gsPhase state = routerGatewayPending then
        (let (cs, w1) = set_unstamped E (ateConditions ate) (ActivationTaskExecutionInProgress (Api E)) ConditionTrue
               (gsReason state) (gsMessage state) (Generation ate) w
         in ((\<lparr>RequeueAfter = routerGatewayPollInterval\<rparr>, ate\<lparr>ateConditions := cs\<rparr>), w1))
      else
        (let cs = RemoveStatusCondition (Lib E) (ateConditions ate) (ActivationTaskExecutionInProgress (Api E));
             (cs', w1) = set_unstamped E cs (ActivationTaskExecutionFailed (Api E)) ConditionTrue
               (gsReason state) (gsMessage state) (Generation ate) w
         in ((noResult, ate\<lparr>ateConditions := cs'\<rparr>), emit (EvActivationRecorded (gsReason state) (gsMessage state)) w1)))"

section \<open>Steps of the reconciliation\<close>

definition isSuperseded ::
  "'s act_env \<Rightarrow> string \<Rightarrow> VectorActivation \<Rightarrow> 's act_world \<Rightarrow> bool result \<times> 's act_world" where
  "isSuperseded E namespace va w =
     (let stageKey = nsname namespace (vaStage va);
          (s, w1) = call (GetStage E stageKey) (EvGetStage stageKey) w
      in case s of
           Inl err \<Rightarrow>
             if IsNotFound err then (Inr True, w1)
             else (Inl (ErrWrap (''get Stage '' @ vaStage va @ '': '') err), w1)
         | Inr stage \<Rightarrow>
             (case stageActiveStageVersion stage of
                None \<Rightarrow> (Inr False, w1)
              | Some active \<Rightarrow>
                  if active = vaStageVersion va then (Inr False, w1)
                  else
                    (let mineKey = nsname namespace (vaStageVersion va);
                         (m, w2) = call (GetStageVersion E mineKey) (EvGetStageVersion mineKey) w1
                     in case m of
                          Inl err \<Rightarrow>
                            if IsNotFound err then (Inr True, w2)
                            else (Inl (ErrWrap (''get StageVersion '' @ vaStageVersion va @ '': '') err), w2)
                        | Inr mine \<Rightarrow>
                            (let activeKey = nsname namespace active;
                                 (a, w3) = call (GetStageVersion E activeKey) (EvGetStageVersion activeKey) w2
                             in case a of
                                  Inl err \<Rightarrow>
                                    if IsNotFound err then (Inr False, w3)
                                    else (Inl (ErrWrap (''get active StageVersion '' @ active @ '': '') err), w3)
                                | Inr activeSV \<Rightarrow>
                                    (Inr (time_of (CreationTimestamp mine) < time_of (CreationTimestamp activeSV)), w3)))))"

definition ensureStageFinalizer ::
  "'s act_env \<Rightarrow> string \<Rightarrow> string \<Rightarrow> 's act_world \<Rightarrow> go_error option \<times> 's act_world" where
  "ensureStageFinalizer E namespace stageName w =
     (let key = nsname namespace stageName;
          (s, w1) = call (GetStage E key) (EvGetStage key) w
      in case s of
           Inl err \<Rightarrow> (Some (ErrWrap (''get Stage '' @ stageName @ '': '') err), w1)
         | Inr stage \<Rightarrow>
             if ContainsFinalizer (Lib E) (Finalizers stage) stageRouteFinalizer then (None, w1)
             else
               (let stage' = stage\<lparr>Finalizers := AddFinalizer (Lib E) (Finalizers stage) stageRouteFinalizer\<rparr>;
                    (p, w2) = call (PatchStage E stage stage') (EvPatchStage stage stage') w1
                in case p of
                     Inl err \<Rightarrow> (Some (ErrWrap (''add route finalizer to Stage '' @ stageName @ '': '') err), w2)
                   | Inr _ \<Rightarrow> (None, w2)))"

definition stage_route_key :: "string \<Rightarrow> string \<Rightarrow> NamespacedName" where
  "stage_route_key namespace stage = nsname namespace (StageRouteName stage)"

definition stage_route_spec :: "gatewayRouteConfig \<Rightarrow> HTTPRouteRule list \<Rightarrow> HTTPRouteSpec" where
  "stage_route_spec config rules =
     \<lparr>rsParentRefs = [\<lparr>prName = cfgGatewayName config,
        prNamespace = (if cfgGatewayNamespace config \<noteq> [] then Some (cfgGatewayNamespace config) else None)\<rparr>],
      rsRules = rules\<rparr>"

definition applyStageRoute ::
  "'s landscape_client \<Rightarrow> string \<Rightarrow> string \<Rightarrow> gatewayRouteConfig \<Rightarrow> HTTPRouteRule list \<Rightarrow> 's act_world \<Rightarrow>
   go_error option \<times> 's act_world" where
  "applyStageRoute c namespace stage config rules w =
     (let key = stage_route_key namespace stage; spec = stage_route_spec config rules;
          (r, w1) = call (CreateOrUpdateRoute c key (\<lambda>route. route\<lparr>hrSpec := spec\<rparr>)) (EvApplyRoute key spec) w
      in case r of
           Inl err \<Rightarrow> (Some (ErrWrap (''apply HTTPRoute for stage '' @ stage @ '': '') err), w1)
         | Inr _ \<Rightarrow> (None, w1))"

text \<open>
  Deleting the route of a stage, in the form both controllers have it: a route that is not there
  counts as deleted.
\<close>

definition deleteRouteOf ::
  "'s landscape_client \<Rightarrow> string \<Rightarrow> string \<Rightarrow> 's act_world \<Rightarrow> go_error option \<times> 's act_world" where
  "deleteRouteOf c namespace stage w =
     (let key = stage_route_key namespace stage; (d, w1) = call (DeleteRoute c key) (EvDeleteRoute key) w in
      case hard_error d of
        Some err \<Rightarrow> (Some (ErrWrap (''delete HTTPRoute for stage '' @ stage @ '': '') err), w1)
      | None \<Rightarrow> (None, w1))"

text \<open>Lines 155 to 170: a deployment without routable results has no route.\<close>

definition removeStageRoute ::
  "'s act_env \<Rightarrow> string \<Rightarrow> string \<Rightarrow> ActivationTaskExecution \<Rightarrow> 's act_world \<Rightarrow>
   (reconcile_ret \<times> ActivationTaskExecution) \<times> 's act_world" where
  "removeStageRoute E namespace stage ate w =
     (case ClientFor E namespace of
        Inl err \<Rightarrow> (((noResult, Some (ErrWrap ''resolve landscape client: '' err)), ate), w)
      | Inr c \<Rightarrow>
          (let (e, w1) = deleteRouteOf c namespace stage w in
           case e of
             Some err \<Rightarrow> (((noResult, Some err), ate), w1)
           | None \<Rightarrow> (let (ate', w2) = markSucceeded E ate w1 in (((noResult, None), ate'), w2))))"

text \<open>Lines 194 to 202: the route itself, once the Gateway may be used.\<close>

definition publishStageRoute ::
  "'s act_env \<Rightarrow> 's landscape_client \<Rightarrow> string \<Rightarrow> string \<Rightarrow> gatewayRouteConfig \<Rightarrow> HTTPRouteRule list \<Rightarrow>
   ActivationTaskExecution \<Rightarrow> 's act_world \<Rightarrow> (reconcile_ret \<times> ActivationTaskExecution) \<times> 's act_world" where
  "publishStageRoute E c namespace stage config rules ate w =
     (let (e, w1) = applyStageRoute c namespace stage config rules w in
      case e of
        Some err \<Rightarrow> (((noResult, Some err), ate), w1)
      | None \<Rightarrow>
          (let w2 = emit (EvActivationRecorded ''RouteApplied'' (''Applied HTTPRoute for stage '' @ stage)) w1;
               (ate', w3) = markSucceeded E ate w2
           in (((noResult, None), ate'), w3)))"

text \<open>Lines 172 to 202: the finalizer, the landscape client, the Gateway, the route.\<close>

definition routeStage ::
  "'s act_env \<Rightarrow> string \<Rightarrow> string \<Rightarrow> gatewayRouteConfig \<Rightarrow> HTTPRouteRule list \<Rightarrow> ActivationTaskExecution \<Rightarrow>
   's act_world \<Rightarrow> (reconcile_ret \<times> ActivationTaskExecution) \<times> 's act_world" where
  "routeStage E namespace stage config rules ate w =
     (let (f, w1) = ensureStageFinalizer E namespace stage w in
      case f of
        Some err \<Rightarrow> (((noResult, Some err), ate), w1)
      | None \<Rightarrow>
          (case ClientFor E namespace of
             Inl err \<Rightarrow> (((noResult, Some (ErrWrap ''resolve landscape client: '' err)), ate), w1)
           | Inr c \<Rightarrow>
               if cfgProvisionsGateway config then
                 (let (now, w2) = silent (Now E) w1;
                      (g, w3) = ensureRouterGateway (Net (Route E)) (Lib E) c namespace (cfgGatewayClassName config)
                        (time_of (CreationTimestamp ate)) now w2
                  in case g of
                       Inl err \<Rightarrow> (((noResult, Some err), ate), w3)
                     | Inr state \<Rightarrow>
                         if gsPhase state \<noteq> routerGatewayReady then
                           (let ((res, ate'), w4) = reportRouterGateway E ate state w3 in (((res, None), ate'), w4))
                         else publishStageRoute E c namespace stage config rules ate w3)
               else publishStageRoute E c namespace stage config rules ate w1))"

definition activateVector ::
  "'s act_env \<Rightarrow> string \<Rightarrow> VectorActivation \<Rightarrow> ActivationTaskExecution \<Rightarrow> 's act_world \<Rightarrow>
   (reconcile_ret \<times> ActivationTaskExecution) \<times> 's act_world" where
  "activateVector E namespace va ate w =
     (case parseGatewayRouteConfig (Json (Route E)) ate of
        Inl err \<Rightarrow> (((noResult, Some err), ate), w)
      | Inr config \<Rightarrow>
          (let key = nsname namespace (vaVectorDeployment va);
               (d, w1) = call (GetVectorDeployment E key) (EvGetVectorDeployment key) w
           in case d of
                Inl err \<Rightarrow> (((noResult, Some (ErrWrap (''failed to get VectorDeployment '' @ vaVectorDeployment va
                  @ '': '') err)), ate), w1)
              | Inr vectorDeployment \<Rightarrow>
                  (case buildRouteRules (Route E) (vaStage va) vectorDeployment of
                     Inl err \<Rightarrow> (((noResult, Some err), ate), w1)
                   | Inr rules \<Rightarrow>
                       if length rules = 0 then removeStageRoute E namespace (vaStage va) ate w1
                       else routeStage E namespace (vaStage va) config rules ate w1)))"

definition reconcileActivationTaskExecution ::
  "'s act_env \<Rightarrow> NamespacedName \<Rightarrow> ActivationTaskExecution \<Rightarrow> 's act_world \<Rightarrow>
   (reconcile_ret \<times> ActivationTaskExecution) \<times> 's act_world" where
  "reconcileActivationTaskExecution E req ate w =
     (if IsStatusConditionTrue (Lib E) (ateConditions ate) (ActivationTaskExecutionFailed (Api E)) then
        (((noResult, None), ate), w)
      else
        (let key = nsname (nnNamespace req) (ateVectorActivation ate);
             (v, w1) = call (GetVectorActivation E key) (EvGetVectorActivation key) w
         in case v of
              Inl err \<Rightarrow> (((noResult, Some (ErrWrap ''unable to fetch vectorActivation: '' err)), ate), w1)
            | Inr va \<Rightarrow>
                (let (s, w2) = isSuperseded E (nnNamespace req) va w1 in
                 case s of
                   Inl err \<Rightarrow> (((noResult, Some err), ate), w2)
                 | Inr superseded \<Rightarrow>
                     if superseded then
                       (let (ate', w3) = markSucceeded E ate w2 in (((noResult, None), ate'), w3))
                     else activateVector E (nnNamespace req) va ate w2)))"

definition Activation_Reconcile ::
  "'s act_env \<Rightarrow> NamespacedName \<Rightarrow> 's act_world \<Rightarrow> reconcile_ret \<times> 's act_world" where
  "Activation_Reconcile E req w =
     (let (g, w1) = call (GetExecution E req) (EvGetExecution req) w in
      case g of
        Inl err \<Rightarrow> ((noResult, IgnoreNotFound err), w1)
      | Inr original \<Rightarrow>
          (let (((result, err), ate), w2) = reconcileActivationTaskExecution E req original w1 in
           if ateConditions ate \<noteq> ateConditions original then
             (let (p, w3) = call (PatchExecutionStatus E original ate) (EvPatchExecutionStatus original ate) w2 in
              case p of
                Inl patchError \<Rightarrow>
                  (case err of
                     Some e \<Rightarrow> ((noResult, Some (ErrWrap2 ''unable to update activationTaskExecution status: '' patchError
                       ''; '' (ErrWrap ''an error occurred while reconciling activationTaskExecution: '' e))), w3)
                   | None \<Rightarrow> ((noResult, Some (ErrWrap ''unable to update activationTaskExecution status: '' patchError)), w3))
              | Inr _ \<Rightarrow> ((result, err), w3))
           else ((result, err), w2)))"

text \<open>
  The event filter and the watch predicate: executions of this type, and for updates a new
  generation (the library's predicate, an argument).
\<close>

definition Activation_event_filter :: "ActivationTaskExecution \<Rightarrow> bool" where
  "Activation_event_filter ate \<longleftrightarrow> ateType ate = TypeGatewayRoute"

definition Activation_update_predicate ::
  "(int \<Rightarrow> int \<Rightarrow> bool) \<Rightarrow> ActivationTaskExecution \<Rightarrow> ActivationTaskExecution \<Rightarrow> bool" where
  "Activation_update_predicate generationChanged old new \<longleftrightarrow>
     Activation_event_filter new \<and> generationChanged (Generation old) (Generation new)"

section \<open>Cleaning up after a stage\<close>

definition deleteStageRoute ::
  "'s act_env \<Rightarrow> string \<Rightarrow> string \<Rightarrow> 's act_world \<Rightarrow> go_error option \<times> 's act_world" where
  "deleteStageRoute E namespace stage w =
     (case ClientFor E namespace of
        Inl err \<Rightarrow> (Some (ErrWrap (''resolve landscape client for stage '' @ stage @ '' cleanup: '') err), w)
      | Inr c \<Rightarrow> deleteRouteOf c namespace stage w)"

definition StageRouteCleanup_Reconcile ::
  "'s act_env \<Rightarrow> NamespacedName \<Rightarrow> 's act_world \<Rightarrow> reconcile_ret \<times> 's act_world" where
  "StageRouteCleanup_Reconcile E req w =
     (let (s, w1) = call (GetStage E req) (EvGetStage req) w in
      case s of
        Inl err \<Rightarrow> ((noResult, IgnoreNotFound err), w1)
      | Inr stage \<Rightarrow>
          if DeletionTimestamp stage = None \<or> \<not> ContainsFinalizer (Lib E) (Finalizers stage) stageRouteFinalizer then
            ((noResult, None), w1)
          else
            (let (e, w2) = deleteStageRoute E (nnNamespace req) (Name stage) w1 in
             case e of
               Some err \<Rightarrow> ((noResult, Some err), w2)
             | None \<Rightarrow>
                 (let stage' = stage\<lparr>Finalizers := RemoveFinalizer (Lib E) (Finalizers stage) stageRouteFinalizer\<rparr>;
                      (p, w3) = call (PatchStage E stage stage') (EvPatchStage stage stage') w2
                  in case p of
                       Inl err \<Rightarrow> ((noResult, Some (ErrWrap (''remove route finalizer from Stage '' @ Name stage @ '': '') err)), w3)
                     | Inr _ \<Rightarrow> ((noResult, None), w3))))"

section \<open>What a reconciliation has seen before it acts\<close>

text \<open>
  The evidence a trace holds: that an execution is to be carried out (it has not failed, and no
  newer version of its stage is active), that the stage carries the finalizer, and that the Gateway
  may be used.
\<close>

definition version_current :: "string \<Rightarrow> VectorActivation \<Rightarrow> Stage \<Rightarrow> act_event list \<Rightarrow> bool" where
  "version_current ns va stage tr =
     (case stageActiveStageVersion stage of
        None \<Rightarrow> True
      | Some active \<Rightarrow>
          active = vaStageVersion va \<or>
          (\<exists>mine. EvGetStageVersion (nsname ns (vaStageVersion va)) (Inr mine) \<in> set tr \<and>
             ((\<exists>e. EvGetStageVersion (nsname ns active) (Inl e) \<in> set tr \<and> IsNotFound e) \<or>
              (\<exists>a. EvGetStageVersion (nsname ns active) (Inr a) \<in> set tr \<and>
                 time_of (CreationTimestamp a) \<le> time_of (CreationTimestamp mine)))))"

definition not_superseded :: "string \<Rightarrow> VectorActivation \<Rightarrow> act_event list \<Rightarrow> bool" where
  "not_superseded ns va tr \<longleftrightarrow>
     (\<exists>stage. EvGetStage (nsname ns (vaStage va)) (Inr stage) \<in> set tr \<and> version_current ns va stage tr)"

definition activating ::
  "'s act_env \<Rightarrow> NamespacedName \<Rightarrow> ActivationTaskExecution \<Rightarrow> VectorActivation \<Rightarrow> act_event list \<Rightarrow> bool" where
  "activating E req ate va tr \<longleftrightarrow>
     EvGetExecution req (Inr ate) \<in> set tr \<and>
     \<not> IsStatusConditionTrue (Lib E) (ateConditions ate) (ActivationTaskExecutionFailed (Api E)) \<and>
     EvGetVectorActivation (nsname (nnNamespace req) (ateVectorActivation ate)) (Inr va) \<in> set tr \<and>
     not_superseded (nnNamespace req) va tr"

definition has_rules ::
  "'s act_env \<Rightarrow> NamespacedName \<Rightarrow> VectorActivation \<Rightarrow> HTTPRouteRule list \<Rightarrow> act_event list \<Rightarrow> bool" where
  "has_rules E req va rules tr \<longleftrightarrow>
     (\<exists>d. EvGetVectorDeployment (nsname (nnNamespace req) (vaVectorDeployment va)) (Inr d) \<in> set tr \<and>
        buildRouteRules (Route E) (vaStage va) d = Inr rules)"

definition stage_bound :: "meta_lib \<Rightarrow> NamespacedName \<Rightarrow> act_event list \<Rightarrow> bool" where
  "stage_bound L key tr \<longleftrightarrow>
     (\<exists>stage. EvGetStage key (Inr stage) \<in> set tr \<and>
        (ContainsFinalizer L (Finalizers stage) stageRouteFinalizer \<or>
         EvPatchStage stage (stage\<lparr>Finalizers := AddFinalizer L (Finalizers stage) stageRouteFinalizer\<rparr>) (Inr ()) \<in> set tr))"

definition gateway_usable :: "net_api \<Rightarrow> meta_lib \<Rightarrow> string \<Rightarrow> act_event list \<Rightarrow> bool" where
  "gateway_usable N L ns tr \<longleftrightarrow>
     (\<exists>g. EvGetGateway (router_key ns) (Inr g) \<in> set tr \<and>
        (\<not> provisioned g \<or> all_cluster N g \<and> \<not> gateway_rejected N L g))"

text \<open>What has to have happened before each call that changes the landscape.\<close>

definition act_guard :: "'s act_env \<Rightarrow> NamespacedName \<Rightarrow> act_event list \<Rightarrow> act_event \<Rightarrow> bool" where
  "act_guard E req tr x =
     (let ns = nnNamespace req; N = Net (Route E); L = Lib E in
      case x of
        EvApplyRoute key spec r \<Rightarrow>
          (\<exists>ate va config rules. activating E req ate va tr \<and> has_rules E req va rules tr \<and> rules \<noteq> [] \<and>
             parseGatewayRouteConfig (Json (Route E)) ate = Inr config \<and>
             key = stage_route_key ns (vaStage va) \<and> spec = stage_route_spec config rules \<and>
             stage_bound L (nsname ns (vaStage va)) tr \<and>
             (if cfgProvisionsGateway config then gateway_usable N L ns tr else True))
      | EvDeleteRoute key r \<Rightarrow>
          (\<exists>ate va. activating E req ate va tr \<and> has_rules E req va [] tr \<and> key = stage_route_key ns (vaStage va))
      | EvCreateGateway g r \<Rightarrow>
          (\<exists>ate va config e. activating E req ate va tr \<and> parseGatewayRouteConfig (Json (Route E)) ate = Inr config \<and>
             cfgProvisionsGateway config \<and> EvGetGateway (router_key ns) (Inl e) \<in> set tr \<and> IsNotFound e \<and>
             EvGetGatewayClass (cfgGatewayClassName config) (Inr ()) \<in> set tr \<and>
             g = newRouterGateway N ns (cfgGatewayClassName config))
      | EvDeleteGateway g r \<Rightarrow>
          EvGetGateway (router_key ns) (Inr g) \<in> set tr \<and> provisioned g \<and>
            (\<exists>now. gsExposed (evaluateRouterGateway N L g now)) \<or>
          (\<exists>g0. EvCreateGateway g0 (Inr g) \<in> set tr) \<and> \<not> requestsClusterRoutability N g
      | _ \<Rightarrow> True)"

definition reads_only :: "act_event \<Rightarrow> bool" where
  "reads_only x \<longleftrightarrow>
     (case x of EvApplyRoute _ _ _ \<Rightarrow> False | EvDeleteRoute _ _ \<Rightarrow> False | EvCreateGateway _ _ \<Rightarrow> False
      | EvDeleteGateway _ _ \<Rightarrow> False | _ \<Rightarrow> True)"

lemma reads_only_guard: "reads_only x \<Longrightarrow> act_guard E req tr x"
  by (auto simp: reads_only_def act_guard_def Let_def split: act_event.splits)

lemma guarded_reads:
  "guarded (act_guard E req) tr \<Longrightarrow> list_all reads_only evs \<Longrightarrow> guarded (act_guard E req) (tr @ evs)"
  by (intro guarded_append) (auto simp: list_all_iff reads_only_guard)

lemma version_current_mono:
  "version_current ns va stage tr \<Longrightarrow> set tr \<subseteq> set tr' \<Longrightarrow> version_current ns va stage tr'"
  by (auto simp: version_current_def split: option.splits)

lemma not_superseded_mono: "not_superseded ns va tr \<Longrightarrow> set tr \<subseteq> set tr' \<Longrightarrow> not_superseded ns va tr'"
  using version_current_mono by (auto simp: not_superseded_def)

lemma activating_mono: "activating E req ate va tr \<Longrightarrow> set tr \<subseteq> set tr' \<Longrightarrow> activating E req ate va tr'"
  using not_superseded_mono by (auto simp: activating_def)

lemma has_rules_mono: "has_rules E req va rules tr \<Longrightarrow> set tr \<subseteq> set tr' \<Longrightarrow> has_rules E req va rules tr'"
  by (auto simp: has_rules_def)

lemma stage_bound_mono: "stage_bound L key tr \<Longrightarrow> set tr \<subseteq> set tr' \<Longrightarrow> stage_bound L key tr'"
  by (auto simp: stage_bound_def)

lemma gateway_usable_mono: "gateway_usable N L ns tr \<Longrightarrow> set tr \<subseteq> set tr' \<Longrightarrow> gateway_usable N L ns tr'"
  by (auto simp: gateway_usable_def)

lemmas evidence_mono = not_superseded_mono activating_mono has_rules_mono stage_bound_mono gateway_usable_mono

lemma not_superseded_Cons:
  "version_current ns va stage (EvGetStage (nsname ns (vaStage va)) (Inr stage) # evs) \<Longrightarrow>
     not_superseded ns va (EvGetStage (nsname ns (vaStage va)) (Inr stage) # evs)"
  by (auto simp: not_superseded_def)

section \<open>The steps\<close>

lemma provisioned_iff: "go_index (Labels g) labelProvisionedBy = provisionedByOrchestrator \<longleftrightarrow> provisioned g"
  by (auto simp: go_index_def provisioned_def provisionedByOrchestrator_def split: option.split)

lemma isSuperseded_trace:
  assumes "isSuperseded E ns va w = (r, w')"
  shows "\<exists>evs. trace w' = trace w @ evs \<and> list_all reads_only evs \<and> (r = Inr False \<longrightarrow> not_superseded ns va evs)"
  using assms unfolding isSuperseded_def
  by (auto simp: Let_def reads_only_def version_current_def intro!: not_superseded_Cons dest!: call_traceD
      split: prod.splits sum.splits option.splits if_splits)

lemma ensureStageFinalizer_trace:
  assumes "ensureStageFinalizer E ns stage w = (r, w')"
  shows "\<exists>evs. trace w' = trace w @ evs \<and> list_all reads_only evs \<and>
    (r = None \<longrightarrow> stage_bound (Lib E) (nsname ns stage) evs)"
  using assms unfolding ensureStageFinalizer_def
  by (auto simp: Let_def reads_only_def stage_bound_def dest!: call_traceD
      split: prod.splits sum.splits option.splits if_splits)

lemma markSucceeded_trace: "markSucceeded E ate w = (ate', w') \<Longrightarrow> trace w' = trace w"
  by (auto simp: markSucceeded_def Let_def dest: set_condition_eqD(1) split: prod.splits)

lemma reportRouterGateway_trace:
  assumes "reportRouterGateway E ate state w = (r, w')"
  shows "\<exists>evs. trace w' = trace w @ evs \<and> list_all reads_only evs"
  using assms by (auto simp: reportRouterGateway_def Let_def reads_only_def emit_trace dest!: set_unstamped_eqD(1)
      split: prod.splits if_splits)

lemma publishStageRoute_guarded:
  assumes "publishStageRoute E c (nnNamespace req) (vaStage va) config rules ate0 w = (r, w')"
    and "guarded (act_guard E req) (trace w)" and "activating E req ate va (trace w)"
    and "has_rules E req va rules (trace w)" and "rules \<noteq> []"
    and "parseGatewayRouteConfig (Json (Route E)) ate = Inr config"
    and "stage_bound (Lib E) (nsname (nnNamespace req) (vaStage va)) (trace w)"
    and "cfgProvisionsGateway config \<longrightarrow> gateway_usable (Net (Route E)) (Lib E) (nnNamespace req) (trace w)"
  shows "guarded (act_guard E req) (trace w')"
proof -
  let ?key = "stage_route_key (nnNamespace req) (vaStage va)" and ?spec = "stage_route_spec config rules"
  obtain res w1 where c: "call (CreateOrUpdateRoute c ?key (\<lambda>route. route\<lparr>hrSpec := ?spec\<rparr>)) (EvApplyRoute ?key ?spec) w = (res, w1)"
    by fastforce
  have "act_guard E req (trace w) (EvApplyRoute ?key ?spec res)"
    using assms(3-8) unfolding act_guard_def Let_def by auto
  with assms(2) call_traceD [OF c] have "guarded (act_guard E req) (trace w1)" by simp
  moreover have "\<exists>evs. trace w' = trace w1 @ evs \<and> list_all reads_only evs"
    using assms(1) c unfolding publishStageRoute_def applyStageRoute_def
    by (auto simp: Let_def emit_trace reads_only_def dest!: markSucceeded_trace split: prod.splits sum.splits)
  ultimately show ?thesis using guarded_reads by fastforce
qed

lemma deleteExposedGateway_trace:
  "deleteExposedGateway c ns g w = (r, w') \<Longrightarrow> \<exists>d. trace w' = trace w @ [EvDeleteGateway g d]"
  by (auto simp: deleteExposedGateway_def Let_def dest!: call_traceD split: prod.splits option.splits)

definition provisioning ::
  "'s act_env \<Rightarrow> NamespacedName \<Rightarrow> gatewayRouteConfig \<Rightarrow> act_event list \<Rightarrow> bool" where
  "provisioning E req config tr \<longleftrightarrow>
     (\<exists>ate va. activating E req ate va tr \<and> parseGatewayRouteConfig (Json (Route E)) ate = Inr config) \<and>
     cfgProvisionsGateway config"

lemma provisioning_mono: "provisioning E req config tr \<Longrightarrow> set tr \<subseteq> set tr' \<Longrightarrow> provisioning E req config tr'"
  unfolding provisioning_def using activating_mono by blast

lemma missing_class_not_ready: "gsPhase (missingGatewayClassState k s n) \<noteq> routerGatewayReady"
  by (simp add: missingGatewayClassState_def Let_def)

lemma unrequested_not_ready:
  "\<not> requestsClusterRoutability N g \<Longrightarrow> gsPhase (evaluateRouterGateway N L g now) \<noteq> routerGatewayReady"
  by (simp add: evaluateRouterGateway_def Let_def)

lemma createRouterGateway_guarded:
  assumes run: "createRouterGateway (Net (Route E)) (Lib E) c (nnNamespace req) (cfgGatewayClassName config) t now w = (r, w')"
    and g: "guarded (act_guard E req) (trace w)" and p: "provisioning E req config (trace w)"
    and nf: "EvGetGateway (router_key (nnNamespace req)) (Inl e) \<in> set (trace w)" "IsNotFound e"
  shows "guarded (act_guard E req) (trace w') \<and> set (trace w) \<subseteq> set (trace w') \<and>
    (\<forall>st. r = Inr st \<longrightarrow> gsPhase st \<noteq> routerGatewayReady)"
proof -
  let ?N = "Net (Route E)" and ?k = "cfgGatewayClassName config"
  let ?g = "newRouterGateway ?N (nnNamespace req) ?k"
  obtain k w1 where k: "call (GetGatewayClass c ?k) (EvGetGatewayClass ?k) w = (k, w1)" by (rule prod.exhaust)
  note t1 = call_traceD [OF k]
  have g1: "guarded (act_guard E req) (trace w1)" using g by (simp add: t1 reads_only_guard reads_only_def)
  show ?thesis
  proof (cases k)
    case (Inl err)
    with run k g1 t1 missing_class_not_ready show ?thesis
      by (auto simp: createRouterGateway_def split: if_splits)
  next
    case (Inr u)
    obtain x w2 where x: "call (CreateGateway c ?g) (EvCreateGateway ?g) w1 = (x, w2)" by (rule prod.exhaust)
    note t2 = call_traceD [OF x]
    from p obtain ate va where a: "activating E req ate va (trace w)" "cfgProvisionsGateway config"
      "parseGatewayRouteConfig (Json (Route E)) ate = Inr config" by (auto simp: provisioning_def)
    have "activating E req ate va (trace w1)" by (rule activating_mono [OF a(1)]) (auto simp: t1)
    moreover have "EvGetGateway (router_key (nnNamespace req)) (Inl e) \<in> set (trace w1)" using nf t1 by simp
    moreover have "EvGetGatewayClass ?k (Inr ()) \<in> set (trace w1)" using t1 Inr by simp
    ultimately have "act_guard E req (trace w1) (EvCreateGateway ?g x)"
      using a(2,3) nf(2) unfolding act_guard_def Let_def act_event.case by blast
    with g1 have g2: "guarded (act_guard E req) (trace w2)" by (simp add: t2)
    show ?thesis
    proof (cases "\<exists>stored. x = Inr stored \<and> \<not> requestsClusterRoutability ?N stored")
      case True
      then obtain stored where st: "x = Inr stored" "\<not> requestsClusterRoutability ?N stored" by blast
      obtain d w3 where d: "deleteExposedGateway c (nnNamespace req) stored w2 = (d, w3)" by (rule prod.exhaust)
      from deleteExposedGateway_trace [OF d] obtain q where t3: "trace w3 = trace w2 @ [EvDeleteGateway stored q]" ..
      have "act_guard E req (trace w2) (EvDeleteGateway stored q)"
        using st unfolding act_guard_def Let_def t2 by auto
      with g2 have "guarded (act_guard E req) (trace w3)" by (simp add: t3)
      moreover have "w' = w3" "\<forall>s. r = Inr s \<longrightarrow> gsPhase s \<noteq> routerGatewayReady"
        using run k Inr x st d unrequested_not_ready [OF st(2)]
        by (auto simp: createRouterGateway_def Let_def split: option.splits)
      ultimately show ?thesis using t1 t2 t3 by auto
    next
      case False
      with run k Inr x have "w' = w2" "\<forall>s. r = Inr s \<longrightarrow> gsPhase s \<noteq> routerGatewayReady"
        by (auto simp: createRouterGateway_def Let_def split: sum.splits if_splits)
      with g2 t1 t2 show ?thesis by auto
    qed
  qed
qed

lemma ensureRouterGateway_guarded:
  assumes run: "ensureRouterGateway (Net (Route E)) (Lib E) c (nnNamespace req) (cfgGatewayClassName config) t now w = (r, w')"
    and g: "guarded (act_guard E req) (trace w)" and p: "provisioning E req config (trace w)"
  shows "guarded (act_guard E req) (trace w') \<and> set (trace w) \<subseteq> set (trace w') \<and>
    (\<forall>st. r = Inr st \<and> gsPhase st = routerGatewayReady \<longrightarrow>
       gateway_usable (Net (Route E)) (Lib E) (nnNamespace req) (trace w'))"
proof -
  let ?N = "Net (Route E)" and ?k = "router_key (nnNamespace req)"
  obtain x w1 where x: "call (GetGateway c ?k) (EvGetGateway ?k) w = (x, w1)" by (rule prod.exhaust)
  note t1 = call_traceD [OF x]
  have g1: "guarded (act_guard E req) (trace w1)" using g by (simp add: t1 reads_only_guard reads_only_def)
  show ?thesis
  proof (cases x)
    case (Inl e)
    show ?thesis
    proof (cases "IsNotFound e")
      case True
      have "provisioning E req config (trace w1)" by (rule provisioning_mono [OF p]) (auto simp: t1)
      moreover have "EvGetGateway ?k (Inl e) \<in> set (trace w1)" using t1 Inl by simp
      moreover have "createRouterGateway ?N (Lib E) c (nnNamespace req) (cfgGatewayClassName config) t now w1 = (r, w')"
        using run x Inl True by (simp add: ensureRouterGateway_def)
      ultimately have "guarded (act_guard E req) (trace w') \<and> set (trace w1) \<subseteq> set (trace w') \<and>
          (\<forall>st. r = Inr st \<longrightarrow> gsPhase st \<noteq> routerGatewayReady)"
        using createRouterGateway_guarded g1 True by blast
      then show ?thesis using t1 by auto
    next
      case False
      with run x Inl g1 t1 show ?thesis by (auto simp: ensureRouterGateway_def)
    qed
  next
    case (Inr gw)
    show ?thesis
    proof (cases "provisioned gw \<and> gsExposed (evaluateRouterGateway ?N (Lib E) gw now)")
      case True
      obtain d w2 where d: "deleteExposedGateway c (nnNamespace req) gw w1 = (d, w2)" by (rule prod.exhaust)
      from deleteExposedGateway_trace [OF d] obtain q where t2: "trace w2 = trace w1 @ [EvDeleteGateway gw q]" ..
      have "act_guard E req (trace w1) (EvDeleteGateway gw q)"
        using True Inr unfolding act_guard_def Let_def t1 by auto
      with g1 have "guarded (act_guard E req) (trace w2)" by (simp add: t2)
      moreover have "w' = w2" "\<forall>s. r = Inr s \<longrightarrow> gsPhase s \<noteq> routerGatewayReady"
        using run x Inr True d evaluate_exposed_not_ready [of ?N "Lib E" gw now]
        by (auto simp: ensureRouterGateway_def Let_def provisioned_iff split: option.splits)
      ultimately show ?thesis using t1 t2 by auto
    next
      case False
      with run x Inr have "w' = w1" "r = Inr (if provisioned gw then evaluateRouterGateway ?N (Lib E) gw now else readyState)"
        by (auto simp: ensureRouterGateway_def Let_def provisioned_iff split: if_splits)
      with g1 t1 Inr show ?thesis
        by (auto simp: gateway_usable_def evaluate_ready_iff split: if_splits)
    qed
  qed
qed

lemma routeStage_guarded:
  assumes run: "routeStage E (nnNamespace req) (vaStage va) config rules ate w = (r, w')"
    and g: "guarded (act_guard E req) (trace w)" and a: "activating E req ate va (trace w)"
    and h: "has_rules E req va rules (trace w)" "rules \<noteq> []" and cfg: "parseGatewayRouteConfig (Json (Route E)) ate = Inr config"
  shows "guarded (act_guard E req) (trace w')"
proof -
  obtain f w1 where f: "ensureStageFinalizer E (nnNamespace req) (vaStage va) w = (f, w1)" by (rule prod.exhaust)
  from ensureStageFinalizer_trace [OF f] obtain evs where t1: "trace w1 = trace w @ evs" "list_all reads_only evs"
    and b: "f = None \<longrightarrow> stage_bound (Lib E) (nsname (nnNamespace req) (vaStage va)) evs" by blast
  have g1: "guarded (act_guard E req) (trace w1)" using guarded_reads [OF g t1(2)] t1(1) by simp
  have sub: "set (trace w) \<subseteq> set (trace w1)" using t1 by auto
  note publish = publishStageRoute_guarded [OF _ _ activating_mono [OF a] has_rules_mono [OF h(1)] h(2) cfg]
  show ?thesis
  proof (cases f)
    case (Some err)
    with run f g1 show ?thesis by (simp add: routeStage_def)
  next
    case None
    have b1: "stage_bound (Lib E) (nsname (nnNamespace req) (vaStage va)) (trace w1)"
      by (rule stage_bound_mono [of _ _ evs]) (use b None t1 in auto)
    show ?thesis
    proof (cases "cfgProvisionsGateway config")
      case False
      with run f None have "publishStageRoute E (Local E) (nnNamespace req) (vaStage va) config rules ate w1 = (r, w')"
        by (simp add: routeStage_def ClientFor_def)
      from publish [OF this g1 sub sub b1] False show ?thesis by simp
    next
      case True
      obtain now w2 where n: "silent (Now E) w1 = (now, w2)" by (rule prod.exhaust)
      note t2 = silent_traceD [OF n]
      obtain x w3 where x: "ensureRouterGateway (Net (Route E)) (Lib E) (Local E) (nnNamespace req) (cfgGatewayClassName config)
          (time_of (CreationTimestamp ate)) now w2 = (x, w3)" by (rule prod.exhaust)
      have "provisioning E req config (trace w2)"
        using activating_mono [OF a sub] cfg True by (auto simp: provisioning_def t2)
      from ensureRouterGateway_guarded [OF x _ this] g1 t2
      have g3: "guarded (act_guard E req) (trace w3)" and s3: "set (trace w1) \<subseteq> set (trace w3)"
        and u: "\<forall>st. x = Inr st \<and> gsPhase st = routerGatewayReady \<longrightarrow>
          gateway_usable (Net (Route E)) (Lib E) (nnNamespace req) (trace w3)" by simp_all
      consider e where "x = Inl e" | st where "x = Inr st" "gsPhase st \<noteq> routerGatewayReady"
        | st where "x = Inr st" "gsPhase st = routerGatewayReady" by (cases x) auto
      then show ?thesis
      proof cases
        case 1
        with run f None True n x g3 show ?thesis by (simp add: routeStage_def ClientFor_def)
      next
        case 2
        obtain q w4 where q: "reportRouterGateway E ate st w3 = (q, w4)" by (rule prod.exhaust)
        with run f None True n x 2 have "w' = w4" by (simp add: routeStage_def ClientFor_def split: prod.splits)
        with reportRouterGateway_trace [OF q] guarded_reads [OF g3] show ?thesis by auto
      next
        case 3
        with run f None True n x
        have "publishStageRoute E (Local E) (nnNamespace req) (vaStage va) config rules ate w3 = (r, w')"
          by (simp add: routeStage_def ClientFor_def)
        from publish [OF this g3 _ _ stage_bound_mono [OF b1 s3]] u 3 sub s3 show ?thesis by blast
      qed
    qed
  qed
qed

lemma removeStageRoute_guarded:
  assumes run: "removeStageRoute E (nnNamespace req) (vaStage va) ate0 w = (r, w')"
    and g: "guarded (act_guard E req) (trace w)" and a: "activating E req ate va (trace w)"
    and h: "has_rules E req va [] (trace w)"
  shows "guarded (act_guard E req) (trace w')"
proof -
  let ?key = "stage_route_key (nnNamespace req) (vaStage va)"
  obtain d w1 where c: "call (DeleteRoute (Local E) ?key) (EvDeleteRoute ?key) w = (d, w1)" by (rule prod.exhaust)
  have "act_guard E req (trace w) (EvDeleteRoute ?key d)"
    using a h unfolding act_guard_def Let_def act_event.case by blast
  with g call_traceD [OF c] have "guarded (act_guard E req) (trace w1)" by simp
  moreover have "trace w' = trace w1"
    using run c by (auto simp: removeStageRoute_def ClientFor_def deleteRouteOf_def Let_def
        dest!: markSucceeded_trace split: option.splits prod.splits)
  ultimately show ?thesis by simp
qed

lemma activateVector_guarded:
  assumes run: "activateVector E (nnNamespace req) va ate w = (r, w')"
    and g: "guarded (act_guard E req) (trace w)" and a: "activating E req ate va (trace w)"
  shows "guarded (act_guard E req) (trace w')"
proof (cases "parseGatewayRouteConfig (Json (Route E)) ate")
  case (Inl e)
  with run g show ?thesis by (simp add: activateVector_def)
next
  case (Inr config)
  let ?k = "nsname (nnNamespace req) (vaVectorDeployment va)"
  obtain d w1 where d: "call (GetVectorDeployment E ?k) (EvGetVectorDeployment ?k) w = (d, w1)" by (rule prod.exhaust)
  note t1 = call_traceD [OF d]
  have g1: "guarded (act_guard E req) (trace w1)" using g by (simp add: t1 reads_only_guard reads_only_def)
  have a1: "activating E req ate va (trace w1)" by (rule activating_mono [OF a]) (auto simp: t1)
  consider "w' = w1" | dep rules where "d = Inr dep" "buildRouteRules (Route E) (vaStage va) dep = Inr rules"
    using run Inr d by (cases d) (auto simp: activateVector_def Let_def split: sum.splits)
  then show ?thesis
  proof cases
    case 1
    with g1 show ?thesis by simp
  next
    case (2 dep rules)
    then have h: "has_rules E req va rules (trace w1)" by (auto simp: has_rules_def t1)
    show ?thesis
    proof (cases "rules = []")
      case True
      with run Inr d 2 have "removeStageRoute E (nnNamespace req) (vaStage va) ate w1 = (r, w')"
        by (simp add: activateVector_def Let_def)
      from removeStageRoute_guarded [OF this g1 a1] h True show ?thesis by simp
    next
      case False
      with run Inr d 2 have "routeStage E (nnNamespace req) (vaStage va) config rules ate w1 = (r, w')"
        by (simp add: activateVector_def Let_def)
      from routeStage_guarded [OF this g1 a1 h False Inr] show ?thesis .
    qed
  qed
qed

lemma reconcile_guarded:
  assumes run: "reconcileActivationTaskExecution E req ate w = (r, w')"
    and g: "guarded (act_guard E req) (trace w)" and x: "EvGetExecution req (Inr ate) \<in> set (trace w)"
  shows "guarded (act_guard E req) (trace w')"
proof (cases "IsStatusConditionTrue (Lib E) (ateConditions ate) (ActivationTaskExecutionFailed (Api E))")
  case True
  with run g show ?thesis by (simp add: reconcileActivationTaskExecution_def)
next
  case False
  let ?k = "nsname (nnNamespace req) (ateVectorActivation ate)"
  obtain v w1 where v: "call (GetVectorActivation E ?k) (EvGetVectorActivation ?k) w = (v, w1)" by (rule prod.exhaust)
  note t1 = call_traceD [OF v]
  have g1: "guarded (act_guard E req) (trace w1)" using g by (simp add: t1 reads_only_guard reads_only_def)
  show ?thesis
  proof (cases v)
    case (Inl e)
    with run False v g1 show ?thesis by (simp add: reconcileActivationTaskExecution_def Let_def)
  next
    case (Inr va)
    obtain s w2 where s: "isSuperseded E (nnNamespace req) va w1 = (s, w2)" by (rule prod.exhaust)
    from isSuperseded_trace [OF s] obtain evs where t2: "trace w2 = trace w1 @ evs" "list_all reads_only evs"
      and c: "s = Inr False \<longrightarrow> not_superseded (nnNamespace req) va evs" by blast
    have g2: "guarded (act_guard E req) (trace w2)" using guarded_reads [OF g1 t2(2)] t2(1) by simp
    show ?thesis
    proof (cases "s = Inr False")
      case True
      with c have "not_superseded (nnNamespace req) va (trace w2)"
        by (auto simp: t2(1) intro: not_superseded_mono [of _ _ evs])
      with x False Inr have "activating E req ate va (trace w2)" by (simp add: activating_def t1 t2(1))
      moreover from run v Inr s True False have "activateVector E (nnNamespace req) va ate w2 = (r, w')"
        by (simp add: reconcileActivationTaskExecution_def Let_def)
      ultimately show ?thesis using activateVector_guarded g2 by blast
    next
      case no: False
      obtain m w3 where m: "markSucceeded E ate w2 = (m, w3)" by (rule prod.exhaust)
      from no have "(\<exists>e. s = Inl e) \<or> s = Inr True" by (cases s) auto
      with run False v Inr s m have "w' = w2 \<or> w' = w3"
        by (auto simp: reconcileActivationTaskExecution_def Let_def)
      with markSucceeded_trace [OF m] have "trace w' = trace w2" by auto
      with g2 show ?thesis by simp
    qed
  qed
qed

lemma Activation_Reconcile_guarded:
  assumes run: "Activation_Reconcile E req w = (ret, w')" and "trace w = []"
  shows "guarded (act_guard E req) (trace w')"
proof -
  obtain x w1 where x: "call (GetExecution E req) (EvGetExecution req) w = (x, w1)" by (rule prod.exhaust)
  note t1 = call_traceD [OF x]
  have g1: "guarded (act_guard E req) (trace w1)"
    using guarded_reads [of E req "[]" "[EvGetExecution req x]"] by (simp add: t1 assms(2) reads_only_def)
  show ?thesis
  proof (cases x)
    case (Inl e)
    with run x g1 show ?thesis by (simp add: Activation_Reconcile_def)
  next
    case (Inr ate)
    obtain q w2 where q: "reconcileActivationTaskExecution E req ate w1 = (q, w2)" by (rule prod.exhaust)
    have "EvGetExecution req (Inr ate) \<in> set (trace w1)" by (simp add: t1 Inr)
    from reconcile_guarded [OF q g1 this] have g2: "guarded (act_guard E req) (trace w2)" .
    have "\<exists>evs. trace w' = trace w2 @ evs \<and> list_all reads_only evs"
      using run x Inr q by (auto simp: Activation_Reconcile_def Let_def reads_only_def dest!: call_traceD
          split: prod.splits sum.splits option.splits if_splits)
    with guarded_reads [OF g2] show ?thesis by auto
  qed
qed

end
