(* ===== verification/Activation_Properties.thy ===== *)
theory Activation_Properties
  imports Activation_Controller
begin

text \<open>
  What the activation controllers guarantee: which calls may change a landscape and when, how an
  execution ends, what the landscape looks like afterwards, and that a stage is not released before
  its route is gone.
\<close>

section \<open>Changes of the landscape\<close>

text \<open>
  C16. A route is applied only for an execution that has not failed and whose stage version is not
  older than the active one, only after the stage has been given the finalizer that binds the route
  to it, with the rules built from the vector deployment; and when the Gateway is the one the
  orchestrator provisions itself, only after a read that showed a Gateway of the administrator or
  one that is not rejected and all of whose addresses are cluster-routable.
\<close>

theorem route_apply_guarded:
  assumes "Activation_Reconcile E req w = (ret, w')" and "trace w = []"
    and "trace w' = pre @ EvApplyRoute key spec r # post"
  shows "\<exists>ate va config rules. activating E req ate va pre \<and> has_rules E req va rules pre \<and> rules \<noteq> [] \<and>
    parseGatewayRouteConfig (Json (Route E)) ate = Inr config \<and>
    key = stage_route_key (nnNamespace req) (vaStage va) \<and> spec = stage_route_spec config rules \<and>
    stage_bound (Lib E) (nsname (nnNamespace req) (vaStage va)) pre \<and>
    (if cfgProvisionsGateway config then gateway_usable (Net (Route E)) (Lib E) (nnNamespace req) pre else True)"
  using guardedD [OF Activation_Reconcile_guarded [OF assms(1,2)] assms(3)]
  by (simp add: act_guard_def Let_def)

text \<open>
  C19. A Gateway is deleted only when the orchestrator provisioned it and it may be reachable from
  outside: it was just read with the orchestrator's label and judged exposed, or it was just
  created and the API server dropped the request for cluster routability. A Gateway without the
  label is never deleted.
\<close>

theorem gateway_delete_guarded:
  assumes "Activation_Reconcile E req w = (ret, w')" and "trace w = []"
    and "trace w' = pre @ EvDeleteGateway g r # post"
  shows "EvGetGateway (router_key (nnNamespace req)) (Inr g) \<in> set pre \<and> provisioned g \<and>
      (\<exists>now. gsExposed (evaluateRouterGateway (Net (Route E)) (Lib E) g now)) \<or>
    (\<exists>g0. EvCreateGateway g0 (Inr g) \<in> set pre) \<and> \<not> requestsClusterRoutability (Net (Route E)) g"
  using guardedD [OF Activation_Reconcile_guarded [OF assms(1,2)] assms(3)]
  by (simp add: act_guard_def Let_def)

section \<open>The outcome of an execution\<close>

definition holds :: "'s act_env \<Rightarrow> ActivationTaskExecution \<Rightarrow> (konf_api \<Rightarrow> string) \<Rightarrow> bool" where
  "holds E ate ty = IsStatusConditionTrue (Lib E) (ateConditions ate) (ty (Api E))"

text \<open>
  How a reconciliation may end: with an error and the status as it was; waiting, to be run again
  after the polling interval; or finished.
\<close>

definition outcome_ok :: "'s act_env \<Rightarrow> ActivationTaskExecution \<Rightarrow> reconcile_ret \<Rightarrow> ActivationTaskExecution \<Rightarrow> bool" where
  "outcome_ok E ate ret ate' \<longleftrightarrow>
     (case ret of
        (res, Some e) \<Rightarrow> res = noResult \<and> ate' = ate
      | (res, None) \<Rightarrow>
          res = \<lparr>RequeueAfter = routerGatewayPollInterval\<rparr> \<and> holds E ate' ActivationTaskExecutionInProgress \<and>
            \<not> holds E ate' ActivationTaskExecutionFailed \<or>
          res = noResult \<and> \<not> holds E ate' ActivationTaskExecutionInProgress \<and>
            (holds E ate' ActivationTaskExecutionSucceeded \<or> holds E ate' ActivationTaskExecutionFailed))"

lemma poll_interval_nonzero [simp]:
  "\<lparr>RequeueAfter = routerGatewayPollInterval\<rparr> \<noteq> noResult" "noResult \<noteq> \<lparr>RequeueAfter = routerGatewayPollInterval\<rparr>"
  by (simp_all add: noResult_def routerGatewayPollInterval_def Second_def)

lemma markSucceeded_holds:
  assumes "meta_lib_ok (Lib E)" and "konf_api_ok (Api E)" and "markSucceeded E ate w = (ate', w')"
  shows "\<not> holds E ate' ActivationTaskExecutionInProgress" and "holds E ate' ActivationTaskExecutionSucceeded"
    and "holds E ate' ActivationTaskExecutionFailed = holds E ate ActivationTaskExecutionFailed"
  using assms
  by (auto simp: markSucceeded_def holds_def Let_def konf_api_ok_def is_true_set_condition is_true_remove
      split: prod.splits)

lemma reportRouterGateway_holds:
  assumes "meta_lib_ok (Lib E)" and "konf_api_ok (Api E)" and "reportRouterGateway E ate state w = ((res, ate'), w')"
    and "\<not> holds E ate ActivationTaskExecutionFailed"
  shows "if gsPhase state = routerGatewayPending
    then res = \<lparr>RequeueAfter = routerGatewayPollInterval\<rparr> \<and> holds E ate' ActivationTaskExecutionInProgress \<and>
      \<not> holds E ate' ActivationTaskExecutionFailed
    else res = noResult \<and> \<not> holds E ate' ActivationTaskExecutionInProgress \<and> holds E ate' ActivationTaskExecutionFailed"
  using assms
  by (auto simp: reportRouterGateway_def holds_def Let_def konf_api_ok_def is_true_set_unstamped is_true_remove
      split: prod.splits)

lemma markSucceeded_outcome:
  assumes "meta_lib_ok (Lib E)" and "konf_api_ok (Api E)" and "markSucceeded E ate w = (ate', w')"
  shows "outcome_ok E ate (noResult, None) ate'"
  using markSucceeded_holds [OF assms] by (simp add: outcome_ok_def)

lemma error_outcome: "outcome_ok E ate (noResult, Some e) ate"
  by (simp add: outcome_ok_def)

lemma publishStageRoute_outcome:
  assumes "meta_lib_ok (Lib E)" and "konf_api_ok (Api E)"
    and "publishStageRoute E c ns stage config rules ate w = ((ret, ate'), w')"
  shows "outcome_ok E ate ret ate'"
  using assms(3) unfolding publishStageRoute_def
  by (auto simp: Let_def error_outcome intro: markSucceeded_outcome [OF assms(1,2)] split: prod.splits option.splits)

lemma routeStage_outcome:
  assumes "meta_lib_ok (Lib E)" and "konf_api_ok (Api E)" and "\<not> holds E ate ActivationTaskExecutionFailed"
    and "routeStage E ns stage config rules ate w = ((ret, ate'), w')"
  shows "outcome_ok E ate ret ate'"
proof -
  have report: "outcome_ok E ate (res, None) a" if "reportRouterGateway E ate state v = ((res, a), v')" for state v res a v'
    using reportRouterGateway_holds [OF assms(1,2) that assms(3)] by (auto simp: outcome_ok_def split: if_splits)
  show ?thesis
    using assms(4) unfolding routeStage_def
    by (auto simp: Let_def error_outcome ClientFor_def intro: publishStageRoute_outcome [OF assms(1,2)] report
        split: prod.splits option.splits sum.splits if_splits)
qed

lemma activateVector_outcome:
  assumes "meta_lib_ok (Lib E)" and "konf_api_ok (Api E)" and "\<not> holds E ate ActivationTaskExecutionFailed"
    and "activateVector E ns va ate w = ((ret, ate'), w')"
  shows "outcome_ok E ate ret ate'"
proof -
  have rem: "outcome_ok E ate r a" if "removeStageRoute E ns stage ate v = ((r, a), v')" for stage v r a v'
    using that unfolding removeStageRoute_def
    by (auto simp: Let_def error_outcome ClientFor_def intro: markSucceeded_outcome [OF assms(1,2)]
        split: prod.splits option.splits)
  show ?thesis
    using assms(4) unfolding activateVector_def
    by (auto simp: Let_def error_outcome intro: routeStage_outcome [OF assms(1-3)] rem
        split: prod.splits option.splits sum.splits if_splits)
qed

text \<open>
  C18. A reconciliation of an execution that is not waiting and failed at once ends in one of three
  ways: with an error, the status untouched; in progress, not failed, to be reconciled again after
  the polling interval; or finished, no longer in progress and succeeded or failed. A failed
  execution stays as it is.
\<close>

theorem activation_outcome:
  assumes "meta_lib_ok (Lib E)" and "konf_api_ok (Api E)"
    and "\<not> (holds E ate ActivationTaskExecutionInProgress \<and> holds E ate ActivationTaskExecutionFailed)"
    and "reconcileActivationTaskExecution E req ate w = ((ret, ate'), w')"
  shows "outcome_ok E ate ret ate' \<and> (holds E ate ActivationTaskExecutionFailed \<longrightarrow> ate' = ate \<and> w' = w)"
proof (cases "holds E ate ActivationTaskExecutionFailed")
  case True
  with assms show ?thesis by (auto simp: reconcileActivationTaskExecution_def holds_def outcome_ok_def)
next
  case False
  then have "\<not> IsStatusConditionTrue (Lib E) (ateConditions ate) (ActivationTaskExecutionFailed (Api E))"
    by (simp add: holds_def)
  with assms(4) False show ?thesis
    unfolding reconcileActivationTaskExecution_def
    by (auto simp: Let_def error_outcome
        intro: markSucceeded_outcome [OF assms(1,2)] activateVector_outcome [OF assms(1,2) False]
        split: prod.splits option.splits sum.splits if_splits)
qed

section \<open>Cleaning up\<close>

text \<open>
  C22. The finalizer of a stage is taken off only for a stage that is being deleted, and only after
  the API server has confirmed that the stage's route is deleted or was not there.
\<close>

theorem cleanup_finalizer_after_delete:
  assumes "StageRouteCleanup_Reconcile E req w = (ret, w')" and "trace w = []"
    and "trace w' = pre @ EvPatchStage old new r # post"
  shows "\<exists>d. pre = [EvGetStage req (Inr old), EvDeleteRoute (stage_route_key (nnNamespace req) (Name old)) d] \<and>
    hard_error d = None \<and> DeletionTimestamp old \<noteq> None \<and>
    new = old\<lparr>Finalizers := RemoveFinalizer (Lib E) (Finalizers old) stageRouteFinalizer\<rparr>"
  using assms unfolding StageRouteCleanup_Reconcile_def
  by (auto simp: Let_def deleteStageRoute_def ClientFor_def deleteRouteOf_def trace_splits dest!: call_traceD
      split: prod.splits sum.splits option.splits if_splits) metis+

section \<open>The landscape afterwards\<close>

text \<open>
  The abstract view of a landscape: the specification of the HTTPRoute under each key. The laws are
  what the API promises about the calls that write routes; the other calls leave routes alone.
\<close>

type_synonym route_view = "NamespacedName \<Rightarrow> HTTPRouteSpec option"

definition route_store_ok :: "'s act_env \<Rightarrow> ('s \<Rightarrow> route_view) \<Rightarrow> bool" where
  "route_store_ok E view \<longleftrightarrow>
     (\<forall>k f s. case CreateOrUpdateRoute (Local E) k f s of
          (Inr _, s') \<Rightarrow> \<exists>route. view s' = (view s)(k \<mapsto> hrSpec (f route))
        | (Inl _, s') \<Rightarrow> True) \<and>
     (\<forall>k s. case DeleteRoute (Local E) k s of
          (Inr _, s') \<Rightarrow> view s' = (view s)(k := None)
        | (Inl e, s') \<Rightarrow> IsNotFound e \<longrightarrow> view s' = view s \<and> view s k = None) \<and>
     (\<forall>s. view (snd (Now E s)) = view s) \<and>
     (\<forall>k s. view (snd (GetVectorDeployment E k s)) = view s) \<and>
     (\<forall>k s. view (snd (GetStage E k s)) = view s) \<and>
     (\<forall>a b s. view (snd (PatchStage E a b s)) = view s) \<and>
     (\<forall>k s. view (snd (GetGateway (Local E) k s)) = view s) \<and>
     (\<forall>k s. view (snd (GetGatewayClass (Local E) k s)) = view s) \<and>
     (\<forall>g s. view (snd (CreateGateway (Local E) g s)) = view s) \<and>
     (\<forall>g s. view (snd (DeleteGateway (Local E) g s)) = view s)"

text \<open>The route a stage should have: the specification of the component.\<close>

definition desired_route :: "'s act_env \<Rightarrow> string \<Rightarrow> ActivationTaskExecution \<Rightarrow> VectorDeployment \<Rightarrow> HTTPRouteSpec option" where
  "desired_route E stage ate d =
     (case (parseGatewayRouteConfig (Json (Route E)) ate, buildRouteRules (Route E) stage d) of
        (Inr config, Inr rules) \<Rightarrow> if rules = [] then None else Some (stage_route_spec config rules)
      | _ \<Rightarrow> None)"

lemma view_call:
  assumes "call f ev w = (r, w')" and "\<forall>s. view (snd (f s)) = view s"
  shows "view (srv w') = view (srv w)"
  using call_eqD [OF assms(1)] assms(2) by simp

lemma view_silent:
  assumes "silent f w = (r, w')" and "\<forall>s. view (snd (f s)) = view s"
  shows "view (srv w') = view (srv w)"
  using silent_eqD [OF assms(1)] assms(2) by simp

lemma route_store_reads:
  assumes "route_store_ok E view"
  shows "\<forall>s. view (snd (Now E s)) = view s" "\<forall>s. view (snd (GetVectorDeployment E k s)) = view s"
    "\<forall>s. view (snd (GetStage E k s)) = view s" "\<forall>s. view (snd (PatchStage E a b s)) = view s"
    "\<forall>s. view (snd (GetGateway (Local E) k s)) = view s" "\<forall>s. view (snd (GetGatewayClass (Local E) cl s)) = view s"
    "\<forall>s. view (snd (CreateGateway (Local E) g s)) = view s" "\<forall>s. view (snd (DeleteGateway (Local E) g s)) = view s"
  using assms unfolding route_store_ok_def by (elim conjE, simp)+

lemma view_markSucceeded:
  assumes "route_store_ok E view" and "markSucceeded E ate w = (ate', w')"
  shows "view (srv w') = view (srv w)"
  using assms(2) view_silent [OF _ route_store_reads(1) [OF assms(1)]]
  by (auto simp: markSucceeded_def set_condition_def Let_def split: prod.splits)

lemma view_ensureStageFinalizer:
  assumes "route_store_ok E view" and "ensureStageFinalizer E ns stage w = (r, w')"
  shows "view (srv w') = view (srv w)"
  using assms(2) unfolding ensureStageFinalizer_def
  by (auto simp: Let_def dest!: view_call [where view = view, OF _ route_store_reads(3) [OF assms(1)]]
      view_call [where view = view, OF _ route_store_reads(4) [OF assms(1)]]
      split: prod.splits sum.splits if_splits)

lemma view_deleteExposedGateway:
  assumes "route_store_ok E view" and "deleteExposedGateway (Local E) ns g w = (r, w')"
  shows "view (srv w') = view (srv w)"
  using assms(2) unfolding deleteExposedGateway_def
  by (auto simp: Let_def dest!: view_call [where view = view, OF _ route_store_reads(8) [OF assms(1)]]
      split: prod.splits option.splits)

lemma view_createRouterGateway:
  assumes "route_store_ok E view" and "createRouterGateway N L (Local E) ns k t now w = (r, w')"
  shows "view (srv w') = view (srv w)"
  using assms(2) unfolding createRouterGateway_def
  by (auto simp: Let_def dest!: view_call [where view = view, OF _ route_store_reads(6) [OF assms(1)]]
      view_call [where view = view, OF _ route_store_reads(7) [OF assms(1)]] view_deleteExposedGateway [OF assms(1)]
      split: prod.splits sum.splits option.splits if_splits)

lemma view_ensureRouterGateway:
  assumes "route_store_ok E view" and "ensureRouterGateway N L (Local E) ns k t now w = (r, w')"
  shows "view (srv w') = view (srv w)"
  using assms(2) unfolding ensureRouterGateway_def
  by (auto simp: Let_def dest!: view_call [where view = view, OF _ route_store_reads(5) [OF assms(1)]]
      view_createRouterGateway [OF assms(1)] view_deleteExposedGateway [OF assms(1)]
      split: prod.splits sum.splits option.splits if_splits)

lemma route_store_writes:
  assumes "route_store_ok E view"
  shows "case CreateOrUpdateRoute (Local E) k f s of
      (Inr _, s') \<Rightarrow> \<exists>route. view s' = (view s)(k \<mapsto> hrSpec (f route)) | (Inl _, s') \<Rightarrow> True"
    and "case DeleteRoute (Local E) k s of
      (Inr _, s') \<Rightarrow> view s' = (view s)(k := None)
    | (Inl e, s') \<Rightarrow> IsNotFound e \<longrightarrow> view s' = view s \<and> view s k = None"
proof -
  note laws = assms [unfolded route_store_ok_def]
  show "case CreateOrUpdateRoute (Local E) k f s of
      (Inr _, s') \<Rightarrow> \<exists>route. view s' = (view s)(k \<mapsto> hrSpec (f route)) | (Inl _, s') \<Rightarrow> True"
    by (rule laws [THEN conjunct1, THEN spec, THEN spec, THEN spec])
  show "case DeleteRoute (Local E) k s of
      (Inr _, s') \<Rightarrow> view s' = (view s)(k := None)
    | (Inl e, s') \<Rightarrow> IsNotFound e \<longrightarrow> view s' = view s \<and> view s k = None"
    by (rule laws [THEN conjunct2, THEN conjunct1, THEN spec, THEN spec])
qed

lemma view_applyStageRoute:
  assumes "route_store_ok E view" and "applyStageRoute (Local E) ns stage config rules w = (None, w')"
  shows "view (srv w') = (view (srv w))(stage_route_key ns stage \<mapsto> stage_route_spec config rules)"
proof -
  let ?k = "stage_route_key ns stage" and ?f = "\<lambda>route :: HTTPRoute. route\<lparr>hrSpec := stage_route_spec config rules\<rparr>"
  obtain x s' where c: "CreateOrUpdateRoute (Local E) ?k ?f (srv w) = (x, s')" by (rule prod.exhaust)
  have "\<exists>u. x = Inr u" "srv w' = s'"
    using assms(2) c by (auto simp: applyStageRoute_def Let_def call_def split: sum.splits)
  then show ?thesis using c route_store_writes(1) [OF assms(1), where k = ?k and f = ?f and s = "srv w"] by auto
qed

lemma view_deleteRouteOf:
  assumes "route_store_ok E view" and "deleteRouteOf (Local E) ns stage w = (None, w')"
  shows "view (srv w') = (view (srv w))(stage_route_key ns stage := None)"
proof -
  let ?k = "stage_route_key ns stage"
  obtain x s' where c: "DeleteRoute (Local E) ?k (srv w) = (x, s')" by (rule prod.exhaust)
  have "hard_error x = None" "srv w' = s'"
    using assms(2) c by (auto simp: deleteRouteOf_def Let_def call_def split: option.splits)
  then show ?thesis using c route_store_writes(2) [OF assms(1), where k = ?k and s = "srv w"] by (cases x) auto
qed

text \<open>
  C17. Activation refines its specification: when it finishes without an error and without a
  failure, the route of the stage is the desired one, absent when nothing is to be routed, and no
  other route of the landscape has changed.
\<close>

theorem activation_refines_desired_route:
  assumes "meta_lib_ok (Lib E)" and "konf_api_ok (Api E)" and "route_store_ok E view"
    and "\<not> holds E ate ActivationTaskExecutionFailed"
    and "activateVector E ns va ate w = (((noResult, None), ate'), w')"
    and "\<not> holds E ate' ActivationTaskExecutionFailed"
    and "fst (GetVectorDeployment E (nsname ns (vaVectorDeployment va)) (srv w)) = Inr d"
  shows "view (srv w') = (view (srv w))(stage_route_key ns (vaStage va) := desired_route E (vaStage va) ate d)"
proof -
  let ?k = "nsname ns (vaVectorDeployment va)" and ?key = "stage_route_key ns (vaStage va)"
  obtain x w1 where x: "call (GetVectorDeployment E ?k) (EvGetVectorDeployment ?k) w = (x, w1)" by (rule prod.exhaust)
  have xd: "x = Inr d" using call_eqD [OF x] assms(7) by simp
  have v1: "view (srv w1) = view (srv w)" by (rule view_call [OF x route_store_reads(2) [OF assms(3)]])
  obtain config rules where cfg: "parseGatewayRouteConfig (Json (Route E)) ate = Inr config"
    and rules: "buildRouteRules (Route E) (vaStage va) d = Inr rules"
    using assms(5) x xd by (auto simp: activateVector_def Let_def split: sum.splits)
  have publish: "view (srv v') = (view (srv v))(?key \<mapsto> stage_route_spec config rules)"
    if "publishStageRoute E (Local E) ns (vaStage va) config rules ate v = (((noResult, None), a), v')" for v a v'
  proof -
    from that obtain u u' where "applyStageRoute (Local E) ns (vaStage va) config rules v = (None, u)"
      "markSucceeded E ate u' = (a, v')" "srv u' = srv u"
      by (auto simp: publishStageRoute_def Let_def emit_srv split: prod.splits option.splits)
    then show ?thesis using view_applyStageRoute [OF assms(3)] view_markSucceeded [OF assms(3)] by metis
  qed
  show ?thesis
  proof (cases "rules = []")
    case True
    with assms(5) x xd cfg rules have "removeStageRoute E ns (vaStage va) ate w1 = (((noResult, None), ate'), w')"
      by (simp add: activateVector_def Let_def)
    then obtain u where "deleteRouteOf (Local E) ns (vaStage va) w1 = (None, u)" "markSucceeded E ate u = (ate', w')"
      by (auto simp: removeStageRoute_def ClientFor_def split: prod.splits option.splits)
    then show ?thesis
      using view_deleteRouteOf [OF assms(3)] view_markSucceeded [OF assms(3)] v1 cfg rules True
      by (simp add: desired_route_def)
  next
    case False
    with assms(5) x xd cfg rules have run: "routeStage E ns (vaStage va) config rules ate w1 = (((noResult, None), ate'), w')"
      by (simp add: activateVector_def Let_def)
    then obtain w2 where f: "ensureStageFinalizer E ns (vaStage va) w1 = (None, w2)"
      by (auto simp: routeStage_def split: prod.splits option.splits)
    have v2: "view (srv w2) = view (srv w)" using view_ensureStageFinalizer [OF assms(3) f] v1 by simp
    have "\<exists>w3. view (srv w3) = view (srv w2) \<and>
        publishStageRoute E (Local E) ns (vaStage va) config rules ate w3 = (((noResult, None), ate'), w')"
    proof (cases "cfgProvisionsGateway config")
      case True
      obtain now w3 where n: "silent (Now E) w2 = (now, w3)" by (rule prod.exhaust)
      obtain g w4 where g: "ensureRouterGateway (Net (Route E)) (Lib E) (Local E) ns (cfgGatewayClassName config)
          (time_of (CreationTimestamp ate)) now w3 = (g, w4)" by (rule prod.exhaust)
      have v4: "view (srv w4) = view (srv w2)"
        using view_ensureRouterGateway [OF assms(3) g] view_silent [OF n route_store_reads(1) [OF assms(3)]] by simp
      from run f True n g obtain st where st: "g = Inr st"
        by (auto simp: routeStage_def ClientFor_def split: sum.splits)
      show ?thesis
      proof (cases "gsPhase st = routerGatewayReady")
        case ready: True
        with run f True n g st v4 show ?thesis by (auto simp: routeStage_def ClientFor_def)
      next
        case False
        with run f True n g st have "reportRouterGateway E ate st w4 = ((noResult, ate'), w')"
          by (simp add: routeStage_def ClientFor_def split: prod.splits)
        from reportRouterGateway_holds [OF assms(1,2) this assms(4)] assms(6) show ?thesis
          using poll_interval_nonzero by (auto split: if_splits)
      qed
    next
      case no: False
      with run f show ?thesis by (auto simp: routeStage_def ClientFor_def)
    qed
    with publish v2 cfg rules False show ?thesis by (auto simp: desired_route_def)
  qed
qed

end
