(* ===== verification/Activation_Examples.thy ===== *)
theory Activation_Examples
  imports Activation_Properties
begin

text \<open>
  A concrete landscape for the properties of the activation controllers: one stage, one vector
  deployment with one exposed service, and a Gateway given as a parameter. The state of the server
  is the view of its routes.
\<close>

section \<open>Objects\<close>

definition sample_json :: json_env where
  "sample_json =
     \<lparr>DecodeServicePorts = (\<lambda>old j. Some [\<lparr>spName = ''http'', spProtocol = ''TCP'', spPort = 8080, spOther = []\<rparr>]),
      FieldFold = (\<lambda>r. r), UnmarshalErrorText = (\<lambda>raw. [])\<rparr>"

definition sample_net :: net_api where
  "sample_net =
     \<lparr>RoutabilityCluster = ''Cluster'', GatewayConditionAccepted = ''Accepted'', GatewayConditionProgrammed = ''Programmed'',
      HTTPProtocolType = ''HTTP'', FilterRequestHeaderModifier = ''RequestHeaderModifier'', ProtocolTCP = ''TCP''\<rparr>"

definition sample_route :: route_env where
  "sample_route = \<lparr>Json = sample_json, Net = sample_net, SortSlice = sort_key tgName\<rparr>"

definition sample_service :: string where
  "sample_service =
     (let q = (\<lambda>s. [dquote] @ s @ [dquote]) in
      ''{'' @ q ''K8sName'' @ '':'' @ q ''shop-svc'' @ '','' @ q ''IngressExposedPortName'' @ '':'' @ q ''http''
        @ '','' @ q ''ServicePorts'' @ '':[]}'')"

definition sample_class :: string where
  "sample_class = (let q = (\<lambda>s. [dquote] @ s @ [dquote]) in ''{'' @ q ''gatewayClassName'' @ '':'' @ q ''istio'' @ ''}'')"

definition sample_ate :: ActivationTaskExecution where
  "sample_ate = ObjectMeta.extend (new_meta ''land'' ''exec'')
     (ActivationTaskExecution.fields TypeGatewayRoute ''act'' sample_class [])"

definition sample_va :: VectorActivation where
  "sample_va = ObjectMeta.extend (new_meta ''land'' ''act'') (VectorActivation.fields ''prod'' ''sv1'' ''vec1'')"

definition sample_dep :: VectorDeployment where
  "sample_dep = ObjectMeta.extend (new_meta ''land'' ''vec1'')
     (VectorDeployment.fields [(''acme.org/shop'', [\<lparr>drName = ''shop'', drType = TypeHTTPK8sService, drSpec = sample_service\<rparr>])])"

definition sample_stage :: Stage where
  "sample_stage = ObjectMeta.extend (new_meta ''land'' ''prod'') (Stage.fields None)"

definition sample_gateway :: "string \<Rightarrow> Gateway" where
  "sample_gateway routability = ObjectMeta.extend
     ((new_meta ''land'' defaultGatewayName)\<lparr>Labels := [(labelProvisionedBy, provisionedByOrchestrator)]\<rparr>)
     (Gateway.fields ''istio'' [''Cluster''] []
        [\<lparr>cType = ''Programmed'', cStatus = ConditionTrue, cReason = [], cMessage = [], cObservedGeneration = 1, cLastTransitionTime = None\<rparr>]
        [\<lparr>gaRoutability = Some routability, gaValue = ''10.0.0.1''\<rparr>])"

definition blank_route :: HTTPRoute where
  "blank_route = ObjectMeta.extend (new_meta [] []) (HTTPRoute.fields \<lparr>rsParentRefs = [], rsRules = []\<rparr>)"

definition sample_act :: "Gateway \<Rightarrow> route_view act_env" where
  "sample_act gw =
     \<lparr>Lib = plain_lib, Api = plain_api, Now = (\<lambda>s. (100, s)), Route = sample_route,
      Local = \<lparr>GetGateway = (\<lambda>k s. (Inr gw, s)), GetGatewayClass = (\<lambda>k s. (Inr (), s)),
        CreateGateway = (\<lambda>g s. (Inr g, s)), DeleteGateway = (\<lambda>g s. (Inr (), s)),
        CreateOrUpdateRoute = (\<lambda>k f s. (Inr (), s(k \<mapsto> hrSpec (f blank_route)))),
        DeleteRoute = (\<lambda>k s. (Inr (), s(k := None)))\<rparr>,
      GetExecution = (\<lambda>k s. (Inr sample_ate, s)), PatchExecutionStatus = (\<lambda>a b s. (Inr (), s)),
      GetVectorActivation = (\<lambda>k s. (Inr sample_va, s)), GetVectorDeployment = (\<lambda>k s. (Inr sample_dep, s)),
      GetStage = (\<lambda>k s. (Inr sample_stage, s)), GetStageVersion = (\<lambda>k s. (Inr (new_meta ''land'' ''sv1''), s)),
      PatchStage = (\<lambda>a b s. (Inr (), s))\<rparr>"

lemma sample_act_sel [simp]:
  "Lib (sample_act gw) = plain_lib" "Api (sample_act gw) = plain_api" "Now (sample_act gw) = (\<lambda>s. (100, s))"
  "Route (sample_act gw) = sample_route" "GetGateway (Local (sample_act gw)) = (\<lambda>k s. (Inr gw, s))"
  "GetGatewayClass (Local (sample_act gw)) = (\<lambda>k s. (Inr (), s))" "CreateGateway (Local (sample_act gw)) = (\<lambda>g s. (Inr g, s))"
  "DeleteGateway (Local (sample_act gw)) = (\<lambda>g s. (Inr (), s))"
  "CreateOrUpdateRoute (Local (sample_act gw)) = (\<lambda>k f s. (Inr (), s(k \<mapsto> hrSpec (f blank_route))))"
  "DeleteRoute (Local (sample_act gw)) = (\<lambda>k s. (Inr (), s(k := None)))"
  "GetExecution (sample_act gw) = (\<lambda>k s. (Inr sample_ate, s))" "PatchExecutionStatus (sample_act gw) = (\<lambda>a b s. (Inr (), s))"
  "GetVectorActivation (sample_act gw) = (\<lambda>k s. (Inr sample_va, s))"
  "GetVectorDeployment (sample_act gw) = (\<lambda>k s. (Inr sample_dep, s))"
  "GetStage (sample_act gw) = (\<lambda>k s. (Inr sample_stage, s))" "PatchStage (sample_act gw) = (\<lambda>a b s. (Inr (), s))"
  by (simp_all add: sample_act_def)

lemma sample_obj_sel [simp]:
  "ateConditions sample_ate = []" "ateVectorActivation sample_ate = ''act''" "ateSpecRaw sample_ate = sample_class"
  "CreationTimestamp sample_ate = None" "Name sample_ate = ''exec''" "Generation sample_ate = 0"
  "vaStage sample_va = ''prod''" "vaStageVersion sample_va = ''sv1''" "vaVectorDeployment sample_va = ''vec1''"
  "Name sample_dep = ''vec1''" "stageActiveStageVersion sample_stage = None" "Finalizers sample_stage = []"
  "vdepDeploymentResults sample_dep =
     [(''acme.org/shop'', [\<lparr>drName = ''shop'', drType = TypeHTTPK8sService, drSpec = sample_service\<rparr>])]"
  by (simp_all add: sample_ate_def sample_va_def sample_dep_def sample_stage_def new_meta_def ObjectMeta.extend_def
      ActivationTaskExecution.fields_def VectorActivation.fields_def VectorDeployment.fields_def Stage.fields_def)

section \<open>Decoding\<close>

lemma sample_unquote:
  "unquote ''gatewayClassName'' = ''gatewayClassName''" "unquote ''istio'' = ''istio''" "unquote ''K8sName'' = ''K8sName''"
  "unquote ''shop-svc'' = ''shop-svc''" "unquote ''IngressExposedPortName'' = ''IngressExposedPortName''"
  "unquote ''http'' = ''http''" "unquote ''ServicePorts'' = ''ServicePorts''"
  by (simp_all add: unquote_plain byte_def bslash_def)

definition sample_config :: gatewayRouteConfig where
  "sample_config = \<lparr>cfgGatewayName = defaultGatewayName, cfgGatewayNamespace = [], cfgGatewayClassName = ''istio'',
     cfgProvisionsGateway = True\<rparr>"

lemma sample_parse_config: "parseGatewayRouteConfig sample_json sample_ate = Inr sample_config"
proof -
  have "json_parse sample_class = Some (JObj [(''gatewayClassName'', JStr ''istio'')])"
    by (simp add: json_eval sample_class_def)
  moreover have "sample_class \<noteq> []" by (simp add: sample_class_def)
  ultimately show ?thesis
    by (simp add: parseGatewayRouteConfig_def unmarshal_struct_def set_config_def sample_unquote EqualFold_def
        sample_json_def decode_string_def zero_config_def sample_config_def string_eval)
qed

definition sample_spec :: ServiceSpec where
  "sample_spec = \<lparr>ssNamespace = [], ssK8sName = ''shop-svc'',
     ssServicePorts = [\<lparr>spName = ''http'', spProtocol = ''TCP'', spPort = 8080, spOther = []\<rparr>],
     ssIngressExposedPortName = ''http''\<rparr>"

lemma sample_parse_service: "unmarshal_ServiceSpec sample_json sample_service = Inr sample_spec"
proof -
  have "json_parse sample_service = Some (JObj [(''K8sName'', JStr ''shop-svc''),
      (''IngressExposedPortName'', JStr ''http''), (''ServicePorts'', JArr [])])"
    by (simp add: json_eval sample_service_def)
  then show ?thesis
    by (simp add: unmarshal_ServiceSpec_def unmarshal_struct_def set_ServiceSpec_def sample_unquote EqualFold_def
        sample_json_def decode_string_def zero_ServiceSpec_def sample_spec_def string_eval)
qed

definition sample_rule :: HTTPRouteRule where
  "sample_rule = route_rule sample_net ''prod'' ''vec1'' \<lparr>tgName = ''shop'', tgService = ''shop-svc'', tgPort = 8080\<rparr>"

lemma sample_rules: "buildRouteRules sample_route ''prod'' sample_dep = Inr [sample_rule]"
  using sample_parse_service
  by (simp add: buildRouteRules_def result_target_def sample_route_def sample_rule_def sample_spec_def sample_net_def)

lemma sample_sort: "sort_slice_ok (SortSlice sample_route)"
  by (simp add: sort_slice_ok_def sample_route_def)


section \<open>Runs\<close>

definition sample_req :: NamespacedName where
  "sample_req = nsname ''land'' ''exec''"

definition sample_act_world :: "route_view act_world" where
  "sample_act_world = \<lparr>srv = Map.empty, trace = []\<rparr>"

lemma sample_req_sel [simp]: "nnNamespace sample_req = ''land''" "trace sample_act_world = []"
  by (simp_all add: sample_req_def sample_act_world_def)

lemma sample_gateway_sel [simp]:
  "provisioned (sample_gateway r)" "gwAddresses (sample_gateway r) = [''Cluster'']"
  "gwStatusAddresses (sample_gateway r) = [\<lparr>gaRoutability = Some r, gaValue = ''10.0.0.1''\<rparr>]"
  "gwConditions (sample_gateway r) =
     [\<lparr>cType = ''Programmed'', cStatus = ConditionTrue, cReason = [], cMessage = [], cObservedGeneration = 1, cLastTransitionTime = None\<rparr>]"
  by (simp_all add: sample_gateway_def provisioned_def new_meta_def ObjectMeta.extend_def Gateway.fields_def)

lemma sample_gateway_ready:
  "gsPhase (evaluateRouterGateway sample_net plain_lib (sample_gateway ''Cluster'') now) = routerGatewayReady"
  by (simp add: evaluate_ready_iff all_cluster_def gateway_rejected_def sample_net_def plain_lib_def)

lemma sample_gateway_exposed:
  "gsExposed (evaluateRouterGateway sample_net plain_lib (sample_gateway ''Public'') now)"
  by (simp add: evaluate_exposed_iff all_cluster_def gateway_rejected_def sample_net_def plain_lib_def)

lemmas run_defs = Activation_Reconcile_def reconcileActivationTaskExecution_def isSuperseded_def activateVector_def
  routeStage_def ensureStageFinalizer_def ClientFor_def ensureRouterGateway_def deleteExposedGateway_def
  publishStageRoute_def applyStageRoute_def markSucceeded_def reportRouterGateway_def set_condition_def set_unstamped_def
  call_def silent_def emit_def Let_def

lemma sample_env_sel [simp]: "Json sample_route = sample_json" "Net sample_route = sample_net"
  by (simp_all add: sample_route_def)

lemma plain_lib_sel [simp]:
  "\<not> IsStatusConditionTrue plain_lib [] ty" "ContainsFinalizer plain_lib fs f \<longleftrightarrow> f \<in> set fs"
  by (simp_all add: plain_lib_def)

lemma sample_config_sel [simp]: "cfgProvisionsGateway sample_config" "cfgGatewayClassName sample_config = ''istio''"
  by (simp_all add: sample_config_def)

lemma sample_provisioned: "go_index (Labels (sample_gateway r)) labelProvisionedBy = provisionedByOrchestrator"
  by (simp add: provisioned_iff)

lemma sample_not_exposed:
  "\<not> gsExposed (evaluateRouterGateway sample_net plain_lib (sample_gateway ''Cluster'') now)"
  using sample_gateway_ready [of now] evaluate_exposed_not_ready by fastforce

lemma sample_run_ready:
  "EvApplyRoute (stage_route_key ''land'' ''prod'') (stage_route_spec sample_config [sample_rule]) (Inr ()) \<in>
     set (trace (snd (Activation_Reconcile (sample_act (sample_gateway ''Cluster'')) sample_req sample_act_world)))"
  by (simp add: run_defs sample_gateway_ready sample_not_exposed sample_provisioned sample_rules sample_parse_config)

lemma sample_run_exposed:
  "EvDeleteGateway (sample_gateway ''Public'') (Inr ()) \<in>
     set (trace (snd (Activation_Reconcile (sample_act (sample_gateway ''Public'')) sample_req sample_act_world)))"
  by (simp add: run_defs sample_gateway_exposed evaluate_exposed_not_ready sample_provisioned sample_rules sample_parse_config)

theorem route_apply_guarded_witness:
  "\<exists>pre post ate. trace (snd (Activation_Reconcile (sample_act (sample_gateway ''Cluster'')) sample_req sample_act_world)) =
       pre @ EvApplyRoute (stage_route_key ''land'' ''prod'') (stage_route_spec sample_config [sample_rule]) (Inr ()) # post \<and>
     EvGetExecution sample_req (Inr ate) \<in> set pre"
proof -
  let ?E = "sample_act (sample_gateway ''Cluster'')" and ?run = "Activation_Reconcile (sample_act (sample_gateway ''Cluster'')) sample_req sample_act_world"
  let ?ev = "EvApplyRoute (stage_route_key ''land'' ''prod'') (stage_route_spec sample_config [sample_rule]) (Inr ())"
  obtain pre post where t: "trace (snd ?run) = pre @ ?ev # post" using sample_run_ready by (metis split_list)
  have "?run = (fst ?run, snd ?run)" by simp
  from route_apply_guarded [OF this sample_req_sel(2) t] t show ?thesis by (auto simp: activating_def)
qed

theorem gateway_delete_guarded_witness:
  "\<exists>pre post. trace (snd (Activation_Reconcile (sample_act (sample_gateway ''Public'')) sample_req sample_act_world)) =
       pre @ EvDeleteGateway (sample_gateway ''Public'') (Inr ()) # post \<and>
     (EvGetGateway (router_key ''land'') (Inr (sample_gateway ''Public'')) \<in> set pre \<or>
      (\<exists>g0. EvCreateGateway g0 (Inr (sample_gateway ''Public'')) \<in> set pre))"
proof -
  let ?run = "Activation_Reconcile (sample_act (sample_gateway ''Public'')) sample_req sample_act_world"
  obtain pre post where t: "trace (snd ?run) = pre @ EvDeleteGateway (sample_gateway ''Public'') (Inr ()) # post"
    using sample_run_exposed by (metis split_list)
  have "?run = (fst ?run, snd ?run)" by simp
  from gateway_delete_guarded [OF this sample_req_sel(2) t] t show ?thesis by auto
qed

theorem activation_outcome_witness:
  "let E = sample_act (sample_gateway ''Public'');
       ((ret, ate'), w') = reconcileActivationTaskExecution E sample_req sample_ate sample_act_world
   in outcome_ok E sample_ate ret ate'"
proof -
  let ?E = "sample_act (sample_gateway ''Public'')"
  obtain ret ate' w' where r: "reconcileActivationTaskExecution ?E sample_req sample_ate sample_act_world = ((ret, ate'), w')"
    by (metis prod.exhaust)
  have "\<not> (holds ?E sample_ate ActivationTaskExecutionInProgress \<and> holds ?E sample_ate ActivationTaskExecutionFailed)"
    by (simp add: holds_def)
  from activation_outcome [OF _ _ this r] r show ?thesis by (simp add: plain_lib_ok plain_api_ok)
qed

theorem activation_refines_desired_route_witness:
  "let E = sample_act (sample_gateway ''Cluster'');
       ((ret, ate'), w') = activateVector E ''land'' sample_va sample_ate sample_act_world
   in srv w' (stage_route_key ''land'' ''prod'') = desired_route E ''prod'' sample_ate sample_dep"
proof -
  let ?E = "sample_act (sample_gateway ''Cluster'')"
  obtain a w' where r: "activateVector ?E ''land'' sample_va sample_ate sample_act_world = (((noResult, None), a), w')"
    by (simp add: run_defs sample_gateway_ready sample_not_exposed sample_provisioned sample_rules sample_parse_config)
  have m: "meta_lib_ok (Lib ?E)" "konf_api_ok (Api ?E)" by (simp_all add: plain_lib_ok plain_api_ok)
  have s: "route_store_ok ?E (\<lambda>s. s)" unfolding route_store_ok_def by (auto intro!: exI [of _ blank_route])
  have f: "\<not> holds ?E sample_ate ActivationTaskExecutionFailed" by (simp add: holds_def)
  have "\<exists>v v'. markSucceeded ?E sample_ate v = (a, v')"
    using r by (auto simp: run_defs sample_gateway_ready sample_not_exposed sample_provisioned sample_rules sample_parse_config)
  with markSucceeded_holds(3) [OF m] f have f': "\<not> holds ?E a ActivationTaskExecutionFailed" by blast
  have "fst (GetVectorDeployment ?E (nsname ''land'' (vaVectorDeployment sample_va)) (srv sample_act_world)) = Inr sample_dep"
    by simp
  from activation_refines_desired_route [OF m s f r f' this] r show ?thesis by simp
qed

definition deleted_stage :: Stage where
  "deleted_stage = sample_stage\<lparr>DeletionTimestamp := Some 1, Finalizers := [stageRouteFinalizer]\<rparr>"

definition deleting_env :: "route_view act_env" where
  "deleting_env = (sample_act (sample_gateway ''Cluster''))\<lparr>GetStage := (\<lambda>k s. (Inr deleted_stage, s))\<rparr>"

theorem cleanup_finalizer_after_delete_witness:
  "\<exists>pre new r post d. trace (snd (StageRouteCleanup_Reconcile deleting_env sample_req sample_act_world)) =
       pre @ EvPatchStage deleted_stage new r # post \<and>
     EvDeleteRoute (stage_route_key ''land'' (Name deleted_stage)) d \<in> set pre"
proof -
  let ?run = "StageRouteCleanup_Reconcile deleting_env sample_req sample_act_world"
  have "\<exists>new r. EvPatchStage deleted_stage new r \<in> set (trace (snd ?run))"
    by (auto simp: StageRouteCleanup_Reconcile_def deleteStageRoute_def deleteRouteOf_def run_defs deleting_env_def
        deleted_stage_def sample_act_def sample_act_world_def)
  then obtain new r pre post where t: "trace (snd ?run) = pre @ EvPatchStage deleted_stage new r # post"
    by (metis split_list)
  have "?run = (fst ?run, snd ?run)" by simp
  from cleanup_finalizer_after_delete [OF this sample_req_sel(2) t]
  obtain d where "EvDeleteRoute (stage_route_key ''land'' (Name deleted_stage)) d \<in> set pre" by auto
  with t show ?thesis by blast
qed

end
