(* ===== verification/Task_Execution.thy ===== *)
theory Task_Execution
  imports Kube
begin

text \<open>
  The TaskExecution controller,
  \<^verbatim>\<open>internal/taskexecution/internal/controller/taskexecution_controller.go\<close>: it runs a task
  execution of type \<^verbatim>\<open>k8s-job\<close> as one Kubernetes Job and reports how the Job ended.

  The client is the environment record \<open>te_env\<close>. The specification of a Job is a type of
  \<^verbatim>\<open>k8s.io/api/batch/v1\<close> the controller never looks into: it is a type variable, and its decoder is a
  parameter, as are \<^verbatim>\<open>SetControllerReference\<close>, \<^verbatim>\<open>GetControllerOf\<close>, \<^verbatim>\<open>rand.String(8)\<close> and the names of
  the Job conditions. A Go panic is the value \<open>None\<close>.
\<close>

section \<open>Data\<close>

record TaskExecution = ObjectMeta +
  teType :: string
  teSpec :: string
  teConditions :: "Condition list"

record JobCondition =
  jcType :: string
  jcStatus :: ConditionStatus

record 'j Job = ObjectMeta +
  jobSpec :: 'j
  jobConditions :: "JobCondition list"

definition TaskExecutionControllerName :: string where
  "TaskExecutionControllerName = ''task-execution-controller''"

definition taskExecutionOwnerKey :: string where
  "taskExecutionOwnerKey = ''.metadata.controller''"

record ('s, 'j) te_env = "'s base_env" +
  JobComplete :: string
  JobFailed :: string
  DecodeJobSpec :: "string \<Rightarrow> 'j result"
  RandString8 :: "'s \<Rightarrow> string \<times> 's"
  SetJobController :: "TaskExecution \<Rightarrow> 'j Job \<Rightarrow> 'j Job result"
  GetControllerOf :: "OwnerReference list \<Rightarrow> OwnerReference option"
  GetTaskExecution :: "NamespacedName \<Rightarrow> 's \<Rightarrow> TaskExecution result \<times> 's"
  ListJobs :: "string \<Rightarrow> string \<Rightarrow> string \<Rightarrow> 's \<Rightarrow> 'j Job list result \<times> 's"
  CreateJob :: "'j Job \<Rightarrow> 's \<Rightarrow> 'j Job result \<times> 's"
  PatchTaskStatus :: "TaskExecution \<Rightarrow> TaskExecution \<Rightarrow> 's \<Rightarrow> TaskExecution result \<times> 's"

datatype 'j te_event =
    EvGetTaskExecution NamespacedName "TaskExecution result"
  | EvListJobs string string string "'j Job list result"
  | EvCreateJob "'j Job" "'j Job result"
  | EvPatchTaskStatus TaskExecution TaskExecution "TaskExecution result"
  | EvTaskRecorded string string

type_synonym ('s, 'j) te_world = "('s, 'j te_event) world"

section \<open>The Job of a task execution\<close>

text \<open>Cutting a string at a negative index panics.\<close>

definition boundedJobName :: "string \<Rightarrow> string \<Rightarrow> string option" where
  "boundedJobName base suffix =
     (let maxJobNameLen = 63; full = ''-'' @ suffix;
          room = maxJobNameLen - int (length full)
      in if int (length base) > room
         then if room < 0 then None
              else Some (TrimRightChar (take (nat room) base) (CHR ''-'') @ full)
         else Some (base @ full))"

definition job_template :: "TaskExecution \<Rightarrow> string \<Rightarrow> 'j \<Rightarrow> 'j Job" where
  "job_template te name spec = ObjectMeta.extend (new_meta (Namespace te) name) (Job.fields spec [])"

definition constructJob ::
  "('s, 'j) te_env \<Rightarrow> TaskExecution \<Rightarrow> ('s, 'j) te_world \<Rightarrow> 'j Job result option \<times> ('s, 'j) te_world" where
  "constructJob E te w =
     (case DecodeJobSpec E (teSpec te) of
        Inl e \<Rightarrow> (Some (Inl (ErrWrap ''unable to unmarshal taskExecution spec: '' e)), w)
      | Inr spec \<Rightarrow>
          (let (suffix, w1) = silent (RandString8 E) w
           in case boundedJobName (Name te) suffix of
                None \<Rightarrow> (None, w1)
              | Some name \<Rightarrow>
                  (case SetJobController E te (job_template te name spec) of
                     Inl e \<Rightarrow> (Some (Inl (ErrWrap ''unable to set controller reference for job: '' e)), w1)
                   | Inr job \<Rightarrow> (Some (Inr job), w1))))"

definition createOrGetJob ::
  "('s, 'j) te_env \<Rightarrow> TaskExecution \<Rightarrow> ('s, 'j) te_world \<Rightarrow> 'j Job result option \<times> ('s, 'j) te_world" where
  "createOrGetJob E te w =
     (let (l, w1) = call (ListJobs E (Namespace te) taskExecutionOwnerKey (Name te))
            (EvListJobs (Namespace te) taskExecutionOwnerKey (Name te)) w
      in case l of
           Inl e \<Rightarrow> (Some (Inl (ErrWrap ''unable to list jobs: '' e)), w1)
         | Inr jobs \<Rightarrow>
             if length jobs > 1 then
               (Some (Inl (ErrMsg (''multiple matching jobs found for taskExecution: '' @ Name te))), w1)
             else if jobs = [] then
               (let (n, w2) = constructJob E te w1
                in case n of
                     None \<Rightarrow> (None, w2)
                   | Some (Inl e) \<Rightarrow> (Some (Inl (ErrWrap ''unable to construct job from template: '' e)), w2)
                   | Some (Inr newJob) \<Rightarrow>
                       (let (c, w3) = call (CreateJob E newJob) (EvCreateJob newJob) w2
                        in case c of
                             Inl e \<Rightarrow> (Some (Inl (ErrWrap ''unable to create job: '' e)), w3)
                           | Inr stored \<Rightarrow>
                               (Some (Inr stored),
                                emit (EvTaskRecorded ''JobCreated'' (''Created Job '' @ Name stored
                                  @ '' for TaskExecution '' @ Name te)) w3)))
             else (Some (Inr (hd jobs)), w1))"

fun finished_loop :: "('s, 'j) te_env \<Rightarrow> JobCondition list \<Rightarrow> bool \<times> string" where
  "finished_loop E [] = (False, '''')"
| "finished_loop E (c # cs) =
     (if (jcType c = JobComplete E \<or> jcType c = JobFailed E) \<and> jcStatus c = ConditionTrue
      then (True, jcType c) else finished_loop E cs)"

definition isJobFinished :: "('s, 'j) te_env \<Rightarrow> 'j Job \<Rightarrow> bool \<times> string" where
  "isJobFinished E job = finished_loop E (jobConditions job)"

section \<open>The handler\<close>

text \<open>Lines 69 to 92: the condition that reports the end of the Job.\<close>

definition verdict_conditions ::
  "('s, 'j) te_env \<Rightarrow> TaskExecution \<Rightarrow> string \<Rightarrow> ('s, 'j) te_world \<Rightarrow> Condition list \<times> ('s, 'j) te_world" where
  "verdict_conditions E te jobResult w =
     (if jobResult = JobFailed E then
        set_condition E (teConditions te) (TaskFailed (Api E)) ConditionTrue (TaskFailed (Api E))
          (''Reconciling TaskExecution '' @ Name te @ '' failed'') (Generation te) w
      else if jobResult = JobComplete E then
        set_condition E (teConditions te) (TaskSucceeded (Api E)) ConditionTrue (TaskSucceeded (Api E))
          (''TaskExecution '' @ Name te @ '' reconciled successfully'') (Generation te) w
      else (teConditions te, w))"

definition Task_Reconcile ::
  "('s, 'j) te_env \<Rightarrow> NamespacedName \<Rightarrow> ('s, 'j) te_world \<Rightarrow> reconcile_ret option \<times> ('s, 'j) te_world" where
  "Task_Reconcile E req w =
     (let (g, w1) = call (GetTaskExecution E req) (EvGetTaskExecution req) w
      in case g of
           Inl e \<Rightarrow> (Some (noResult, IgnoreNotFound e), w1)
         | Inr te \<Rightarrow>
             (let (j, w2) = createOrGetJob E te w1
              in case j of
                   None \<Rightarrow> (None, w2)
                 | Some (Inl e) \<Rightarrow> (Some (noResult, Some e), w2)
                 | Some (Inr job) \<Rightarrow>
                     (let (finished, jobResult) = isJobFinished E job
                      in if \<not> finished then (Some (noResult, None), w2)
                         else
                           (let (cs, w3) = verdict_conditions E te jobResult w2;
                                te' = te\<lparr>teConditions := cs\<rparr>
                            in if cs \<noteq> teConditions te then
                                 (let (p, w4) = call (PatchTaskStatus E te te') (EvPatchTaskStatus te te') w3
                                  in case p of
                                       Inl e \<Rightarrow> (Some (noResult, Some (ErrWrap
                                         ''unable to update taskExecution status: '' e)), w4)
                                     | Inr _ \<Rightarrow> (Some (noResult, None), w4))
                               else (Some (noResult, None), w3)))))"

text \<open>
  The index the list is served from, and the events the controller is woken by: of the controller's
  own kind, and Jobs owned by some task execution.
\<close>

definition job_owner_index :: "('s, 'j) te_env \<Rightarrow> 'j Job \<Rightarrow> string list" where
  "job_owner_index E job =
     (case GetControllerOf E (OwnerReferences job) of
        None \<Rightarrow> []
      | Some owner \<Rightarrow>
          if orAPIVersion owner \<noteq> GroupVersionString (Api E) \<or> orKind owner \<noteq> TaskExecutionKind (Api E)
          then [] else [orName owner])"

fun jobOwnerRefsContainKind :: "OwnerReference list \<Rightarrow> string \<Rightarrow> bool" where
  "jobOwnerRefsContainKind [] kind = False"
| "jobOwnerRefsContainKind (ref # refs) kind = (if orKind ref = kind then True else jobOwnerRefsContainKind refs kind)"

datatype 'j te_object = ObjTaskExecution TaskExecution | ObjJob "'j Job" | ObjOther

fun taskExecutionFilter :: "('s, 'j) te_env \<Rightarrow> 'j te_object \<Rightarrow> bool" where
  "taskExecutionFilter E (ObjTaskExecution te) = (teType te = ''k8s-job'')"
| "taskExecutionFilter E (ObjJob job) = jobOwnerRefsContainKind (OwnerReferences job) (TaskExecutionKind (Api E))"
| "taskExecutionFilter E ObjOther = False"

section \<open>Names\<close>

lemma boundedJobName_panics: "boundedJobName base suffix = None \<longleftrightarrow> 62 < length suffix"
  by (auto simp: boundedJobName_def Let_def)

lemma boundedJobName_short:
  assumes "length base + length suffix \<le> 62"
  shows "boundedJobName base suffix = Some (base @ ''-'' @ suffix)"
  using assms by (simp add: boundedJobName_def Let_def)

lemma boundedJobName_long:
  assumes "62 < length base + length suffix" and "length suffix \<le> 62"
  shows "boundedJobName base suffix =
    Some (TrimRightChar (take (62 - length suffix) base) (CHR ''-'') @ ''-'' @ suffix)"
proof -
  have "nat (63 - int (length (''-'' @ suffix))) = 62 - length suffix" using assms(2) by simp
  with assms show ?thesis by (simp add: boundedJobName_def Let_def)
qed

lemma boundedJobName_shape:
  assumes "boundedJobName base suffix = Some name"
  obtains n where "name = take n base @ ''-'' @ suffix" and "length name \<le> 63"
proof (cases "length base + length suffix \<le> 62")
  case True
  with assms have "name = take (length base) base @ ''-'' @ suffix" by (simp add: boundedJobName_short)
  then show thesis using that [of "length base"] True by simp
next
  case False
  moreover have suffix: "length suffix \<le> 62" using assms boundedJobName_panics [of base suffix] by fastforce
  ultimately have name: "name = TrimRightChar (take (62 - length suffix) base) (CHR ''-'') @ ''-'' @ suffix"
    using assms by (simp add: boundedJobName_long)
  obtain n where n: "TrimRightChar (take (62 - length suffix) base) (CHR ''-'') = take n (take (62 - length suffix) base)"
    using TrimRightChar_take by blast
  have "length name \<le> 63" using length_TrimRightChar [of "take (62 - length suffix) base" "CHR ''-''"] name suffix by (simp add: min_def split: if_splits)
  moreover have "name = take (min n (62 - length suffix)) base @ ''-'' @ suffix" by (simp only: name n take_take)
  ultimately show thesis by (rule that [rotated])
qed

section \<open>What the handler's calls are preceded by\<close>

abbreviation listed :: "TaskExecution \<Rightarrow> 'j Job list result \<Rightarrow> 'j te_event" where
  "listed te \<equiv> EvListJobs (Namespace te) taskExecutionOwnerKey (Name te)"

definition job_for :: "('s, 'j) te_env \<Rightarrow> TaskExecution \<Rightarrow> 'j Job \<Rightarrow> bool" where
  "job_for E te job \<longleftrightarrow>
     (\<exists>spec suffix name. DecodeJobSpec E (teSpec te) = Inr spec \<and> boundedJobName (Name te) suffix = Some name \<and>
        SetJobController E te (job_template te name spec) = Inr job)"

text \<open>The Job a reconciliation works with: the one listed, or the one it has created.\<close>

definition job_seen :: "TaskExecution \<Rightarrow> 'j Job \<Rightarrow> 'j te_event list \<Rightarrow> bool" where
  "job_seen te j tr \<longleftrightarrow>
     listed te (Inr [j]) \<in> set tr \<or>
     listed te (Inr []) \<in> set tr \<and>
       (\<exists>job. EvCreateJob job (Inr j) \<in> set tr)"

text \<open>The status that reports the end of a Job: one condition true, the other one as it was.\<close>

definition reports :: "('s, 'j) te_env \<Rightarrow> string \<Rightarrow> Condition list \<Rightarrow> Condition list \<Rightarrow> bool" where
  "reports E ty old new \<longleftrightarrow>
     (IsStatusConditionTrue (Lib E) new (TaskFailed (Api E)) \<longleftrightarrow>
        ty = JobFailed E \<or> IsStatusConditionTrue (Lib E) old (TaskFailed (Api E))) \<and>
     (IsStatusConditionTrue (Lib E) new (TaskSucceeded (Api E)) \<longleftrightarrow>
        ty \<noteq> JobFailed E \<or> IsStatusConditionTrue (Lib E) old (TaskSucceeded (Api E)))"

fun te_guard :: "('s, 'j) te_env \<Rightarrow> NamespacedName \<Rightarrow> 'j te_event list \<Rightarrow> 'j te_event \<Rightarrow> bool" where
  "te_guard E req pre (EvCreateJob job r) =
     (\<exists>te. EvGetTaskExecution req (Inr te) \<in> set pre \<and>
        listed te (Inr []) \<in> set pre \<and>
        job_for E te job \<and> (\<forall>job' r'. EvCreateJob job' r' \<notin> set pre))"
| "te_guard E req pre (EvPatchTaskStatus old new r) =
     (EvGetTaskExecution req (Inr old) \<in> set pre \<and>
      (\<exists>j ty cs. job_seen old j pre \<and> isJobFinished E j = (True, ty) \<and>
         new = old\<lparr>teConditions := cs\<rparr> \<and> reports E ty (teConditions old) cs))"
| "te_guard E req pre _ = True"

lemma isJobFinished_type: "isJobFinished E j = (True, ty) \<Longrightarrow> ty = JobFailed E \<or> ty = JobComplete E"
proof -
  have "finished_loop E cs = (True, ty) \<Longrightarrow> ty = JobFailed E \<or> ty = JobComplete E" for cs
    by (induction cs) (auto split: if_splits)
  then show "isJobFinished E j = (True, ty) \<Longrightarrow> ty = JobFailed E \<or> ty = JobComplete E"
    by (simp add: isJobFinished_def)
qed

lemma constructJob_eqD:
  assumes "constructJob E te w = (r, w')"
  shows "trace w' = trace w" and "r = Some (Inr job) \<Longrightarrow> job_for E te job"
  using assms unfolding constructJob_def job_for_def
  by (auto dest: silent_eqD split: sum.splits prod.splits option.splits)

text \<open>The traces of \<open>createOrGetJob\<close>.\<close>

lemma createOrGetJob_cases:
  fixes E :: "('s, 'j) te_env" and w :: "('s, 'j) te_world"
  assumes "createOrGetJob E te w = (r, w')"
  obtains (failed) l :: "'j Job list result" where "trace w' = trace w @ [listed te l]" and "\<forall>j. r \<noteq> Some (Inr j)"
  | (existing) j :: "'j Job" where "trace w' = trace w @ [listed te (Inr [j])]" and "r = Some (Inr j)"
  | (refused) job :: "'j Job" and e where "trace w' = trace w @ [listed te (Inr []), EvCreateJob job (Inl e)]"
      and "job_for E te job" and "\<forall>j. r \<noteq> Some (Inr j)"
  | (created) job j :: "'j Job" and reason msg where
      "trace w' = trace w @ [listed te (Inr []), EvCreateJob job (Inr j), EvTaskRecorded reason msg]"
      and "job_for E te job" and "r = Some (Inr j)"
proof -
  obtain l w1 where l: "call (ListJobs E (Namespace te) taskExecutionOwnerKey (Name te))
      (listed te) w = (l, w1)" by (rule prod.exhaust)
  note t1 = call_traceD [OF l]
  consider (err) e where "l = Inl e" | (many) j j' js where "l = Inr (j # j' # js)"
    | (none) "l = Inr []" | (one) j where "l = Inr [j]"
  proof (cases l)
    case (Inr jobs)
    then show ?thesis using that by (cases jobs rule: remdups_adj.cases) auto
  qed
  then show thesis
  proof cases
    case err
    with assms(1) l t1 show thesis by (intro failed [of l]) (auto simp: createOrGetJob_def)
  next
    case many
    with assms(1) l t1 show thesis by (intro failed [of l]) (auto simp: createOrGetJob_def)
  next
    case one
    with assms(1) l t1 show thesis by (intro existing [of j]) (auto simp: createOrGetJob_def)
  next
    case none
    obtain n w2 where n: "constructJob E te w1 = (n, w2)" by (rule prod.exhaust)
    note t2 = constructJob_eqD [OF n]
    show thesis
    proof (cases "\<exists>job. n = Some (Inr job)")
      case False
      with assms(1) l n none t1 t2(1) show thesis
        by (intro failed [of l]) (auto simp: createOrGetJob_def split: option.splits sum.splits)
    next
      case True
      then obtain job where job: "n = Some (Inr job)" ..
      obtain c w3 where c: "call (CreateJob E job) (EvCreateJob job) w2 = (c, w3)" by (rule prod.exhaust)
      note t3 = call_traceD [OF c]
      show thesis
      proof (cases c)
        case (Inl e)
        with assms(1) l n none job c t1 t2 t3 show thesis
          by (intro refused [of job e]) (auto simp: createOrGetJob_def)
      next
        case (Inr j)
        with assms(1) l n none job c t1 t2 t3 show thesis
          by (intro created [of job j]) (auto simp: createOrGetJob_def emit_trace)
      qed
    qed
  qed
qed

lemma verdict_reports:
  assumes "meta_lib_ok (Lib E)" and "konf_api_ok (Api E)" and "isJobFinished E j = (True, ty)"
    and "verdict_conditions E te ty w = (cs, w')"
  shows "trace w' = trace w" and "reports E ty (teConditions te) cs"
proof -
  have distinct: "TaskFailed (Api E) \<noteq> TaskSucceeded (Api E)" using assms(2) by (simp add: konf_api_ok_def)
  consider "ty = JobFailed E" | "ty \<noteq> JobFailed E" "ty = JobComplete E" using isJobFinished_type [OF assms(3)] by blast
  then show "trace w' = trace w" "reports E ty (teConditions te) cs"
    using assms(4) distinct
    by (cases; auto simp: verdict_conditions_def reports_def is_true_set_condition [OF assms(1)]
        dest: set_condition_eqD(1))+
qed

text \<open>After \<open>createOrGetJob\<close>: the calls are guarded and the Job is one the trace shows.\<close>

lemma createOrGetJob_guarded:
  assumes "createOrGetJob E te w = (r, w')" and "trace w = [EvGetTaskExecution req (Inr te)]"
  shows "guarded (te_guard E req) (trace w')" and "r = Some (Inr j) \<Longrightarrow> job_seen te j (trace w')"
    and "EvGetTaskExecution req (Inr te) \<in> set (trace w')"
proof -
  note step = guarded_snoc [of "te_guard E req" "[]", simplified]
    guarded_snoc [of "te_guard E req" "[x]" for x, simplified]
    guarded_snoc [of "te_guard E req" "[x, y]" for x y, simplified]
    guarded_snoc [of "te_guard E req" "[x, y, z]" for x y z, simplified]
  from assms(1) show "guarded (te_guard E req) (trace w')"
    by (rule createOrGetJob_cases) (auto simp: assms(2) step)
  from assms(1) show "job_seen te j (trace w')" if "r = Some (Inr j)"
    by (rule createOrGetJob_cases) (use that in \<open>auto simp: job_seen_def\<close>)
  from assms(1) show "EvGetTaskExecution req (Inr te) \<in> set (trace w')"
    by (rule createOrGetJob_cases) (auto simp: assms(2))
qed

text \<open>How a reconciliation ends, as far as its trace shows.\<close>

lemma Task_Reconcile_cases:
  fixes E :: "('s, 'j) te_env" and w :: "('s, 'j) te_world"
  assumes "Task_Reconcile E req w = (r, w')" and "trace w = []"
  obtains (missing) e where "trace w' = [EvGetTaskExecution req (Inl e)]" and "r = Some (noResult, IgnoreNotFound e)"
  | (no_job) te w1 w2 j where "trace w1 = [EvGetTaskExecution req (Inr te)]" and "createOrGetJob E te w1 = (j, w2)"
      and "trace w' = trace w2" and "j = None \<and> r = None \<or> (\<exists>e. j = Some (Inl e) \<and> r = Some (noResult, Some e))"
  | (running) te w1 w2 job where "trace w1 = [EvGetTaskExecution req (Inr te)]"
      and "createOrGetJob E te w1 = (Some (Inr job), w2)" and "trace w' = trace w2"
      and "\<not> fst (isJobFinished E job)" and "r = Some (noResult, None)"
  | (over) te w1 w2 job ty cs w3 where "trace w1 = [EvGetTaskExecution req (Inr te)]"
      and "createOrGetJob E te w1 = (Some (Inr job), w2)" and "isJobFinished E job = (True, ty)"
      and "verdict_conditions E te ty w2 = (cs, w3)"
      and "if cs = teConditions te then trace w' = trace w3 \<and> r = Some (noResult, None)
        else \<exists>p. trace w' = trace w3 @ [EvPatchTaskStatus te (te\<lparr>teConditions := cs\<rparr>) p] \<and>
          (case p of Inl e \<Rightarrow> \<exists>e'. r = Some (noResult, Some e') | Inr _ \<Rightarrow> r = Some (noResult, None))"
proof -
  obtain g w1 where g: "call (GetTaskExecution E req) (EvGetTaskExecution req) w = (g, w1)" by (rule prod.exhaust)
  note t1 = call_traceD [OF g]
  show thesis
  proof (cases g)
    case (Inl e)
    with assms g t1 show thesis by (intro missing [of e]) (auto simp: Task_Reconcile_def)
  next
    case (Inr te)
    obtain j w2 where j: "createOrGetJob E te w1 = (j, w2)" by (rule prod.exhaust)
    have w1: "trace w1 = [EvGetTaskExecution req (Inr te)]" using t1 Inr assms(2) by simp
    show thesis
    proof (cases "\<exists>job. j = Some (Inr job)")
      case False
      with assms(1) g Inr j w1 show thesis
        by (intro no_job [OF w1 j]) (auto simp: Task_Reconcile_def split: option.splits sum.splits)
    next
      case True
      then obtain job where job: "j = Some (Inr job)" ..
      obtain fin ty where fin: "isJobFinished E job = (fin, ty)" by (rule prod.exhaust)
      show thesis
      proof (cases fin)
        case False
        with assms(1) g Inr j job fin show thesis
          by (intro running [OF w1 j [unfolded job]]) (auto simp: Task_Reconcile_def)
      next
        case True
        obtain cs w3 where cs: "verdict_conditions E te ty w2 = (cs, w3)" by (rule prod.exhaust)
        obtain p w4 where p: "call (PatchTaskStatus E te (te\<lparr>teConditions := cs\<rparr>))
            (EvPatchTaskStatus te (te\<lparr>teConditions := cs\<rparr>)) w3 = (p, w4)" by (rule prod.exhaust)
        note t4 = call_traceD [OF p]
        have fin': "isJobFinished E job = (True, ty)" using fin True by simp
        from assms(1) g Inr j job fin cs p t4 True show thesis
          by (intro over [OF w1 j [unfolded job] fin' cs], cases p) (auto simp: Task_Reconcile_def)
      qed
    qed
  qed
qed

lemma Task_Reconcile_guarded:
  assumes "meta_lib_ok (Lib E)" and "konf_api_ok (Api E)"
    and "Task_Reconcile E req w = (r, w')" and "trace w = []"
  shows "guarded (te_guard E req) (trace w')"
  using assms(3,4)
proof (cases rule: Task_Reconcile_cases)
  case (missing e)
  then show ?thesis using guarded_snoc [of "te_guard E req" "[]"] by simp
next
  case (no_job te w1 w2 j)
  then show ?thesis using createOrGetJob_guarded(1) by metis
next
  case (running te w1 w2 job)
  then show ?thesis using createOrGetJob_guarded(1) by metis
next
  case (over te w1 w2 job ty cs w3)
  note verdict = verdict_reports [OF assms(1,2) over(3,4)] and created = createOrGetJob_guarded [OF over(2,1)]
  have "te_guard E req (trace w3) (EvPatchTaskStatus te (te\<lparr>teConditions := cs\<rparr>) p)" for p
    using created(2) [OF refl] created(3) verdict over(3) by auto
  then have "guarded (te_guard E req) (trace w3 @ [EvPatchTaskStatus te (te\<lparr>teConditions := cs\<rparr>) p])" for p
    using created(1) verdict(1) by (simp del: te_guard.simps)
  then show ?thesis using over(5) created(1) verdict(1) by (metis (no_types, lifting))
qed

end
