(* ===== verification/Task_Properties.thy ===== *)
theory Task_Properties
  imports Task_Execution "HOL-Library.Sublist"
begin

text \<open>
  What the TaskExecution controller guarantees: names that fit a pod label, at most one Job for a
  task execution over any sequence of reconciliations, a status that reports how that Job ended, and
  no panic. \<open>set_controller_ok\<close> and \<open>job_store_ok\<close> say what the controller relies on of
  \<^verbatim>\<open>SetControllerReference\<close> and of the client; \<open>sample_task_env\<close> is a small Job store that keeps these
  promises.
\<close>

section \<open>What the controller relies on\<close>

definition set_controller_ok :: "('s, 'j) te_env \<Rightarrow> bool" where
  "set_controller_ok E \<longleftrightarrow>
     (\<forall>te j j'. SetJobController E te j = Inr j' \<longrightarrow>
        Name j' = Name j \<and> Namespace j' = Namespace j \<and> jobSpec j' = jobSpec j \<and>
        (\<exists>ref. GetControllerOf E (OwnerReferences j') = Some ref \<and>
           orAPIVersion ref = GroupVersionString (Api E) \<and> orKind ref = TaskExecutionKind (Api E) \<and>
           orName ref = Name te))"

text \<open>The Jobs the field index files under the task execution \<open>k\<close>.\<close>

definition owned :: "('s, 'j) te_env \<Rightarrow> NamespacedName \<Rightarrow> 'j Job list \<Rightarrow> 'j Job list" where
  "owned E k = filter (\<lambda>j. Namespace j = nnNamespace k \<and> nnName k \<in> set (job_owner_index E j))"

text \<open>
  The store of Jobs behind the client, read off the state of the world by \<open>jobs\<close>: a list that
  succeeds is served from the index over the present Jobs, a successful create adds the Job, and
  nothing else the controller calls changes them. The store answers for the object asked for.
\<close>

definition job_store_ok :: "('s, 'j) te_env \<Rightarrow> ('s \<Rightarrow> 'j Job list) \<Rightarrow> bool" where
  "job_store_ok E jobs \<longleftrightarrow>
     (\<forall>s. jobs (snd (Now E s)) = jobs s) \<and> (\<forall>s. jobs (snd (RandString8 E s)) = jobs s) \<and>
     (\<forall>k s. jobs (snd (GetTaskExecution E k s)) = jobs s \<and>
        (\<forall>te. fst (GetTaskExecution E k s) = Inr te \<longrightarrow> nsname (Namespace te) (Name te) = k)) \<and>
     (\<forall>old new s. jobs (snd (PatchTaskStatus E old new s)) = jobs s) \<and>
     (\<forall>ns n s. jobs (snd (ListJobs E ns taskExecutionOwnerKey n s)) = jobs s \<and>
        (\<forall>js. fst (ListJobs E ns taskExecutionOwnerKey n s) = Inr js \<longrightarrow> js = owned E (nsname ns n) (jobs s))) \<and>
     (\<forall>j s. case fst (CreateJob E j s) of
        Inl _ \<Rightarrow> jobs (snd (CreateJob E j s)) = jobs s
      | Inr j' \<Rightarrow> jobs (snd (CreateJob E j s)) = jobs s @ [j'] \<and> Namespace j' = Namespace j \<and>
          OwnerReferences j' = OwnerReferences j)"

section \<open>Names\<close>

text \<open>
  C35. The name of a Job fits the 63 characters of a pod label and ends with the random suffix, so
  that different suffixes give different names whatever the two task executions are called. What
  precedes the suffix is the name of the task execution, cut only where it has to be and then never
  after a hyphen.
\<close>

theorem boundedJobName_correct:
  assumes "length sfx \<le> 62"
  shows "\<exists>p. boundedJobName base sfx = Some (p @ ''-'' @ sfx) \<and> prefix p base \<and>
    length (p @ ''-'' @ sfx) \<le> 63 \<and> (length base + length sfx \<le> 62 \<longrightarrow> p = base) \<and>
    (p \<noteq> base \<and> p \<noteq> [] \<longrightarrow> last p \<noteq> CHR ''-'') \<and>
    (\<forall>base' sfx'. length sfx' = length sfx \<and> sfx' \<noteq> sfx \<longrightarrow>
       boundedJobName base' sfx' \<noteq> Some (p @ ''-'' @ sfx))"
proof -
  have distinct: "boundedJobName base' sfx' \<noteq> Some (p @ ''-'' @ sfx)"
    if "length sfx' = length sfx" "sfx' \<noteq> sfx" for base' sfx' p
  proof
    assume "boundedJobName base' sfx' = Some (p @ ''-'' @ sfx)"
    then obtain n where "p @ ''-'' @ sfx = take n base' @ ''-'' @ sfx'" by (rule boundedJobName_shape)
    with that show False by (metis append_assoc append_eq_append_conv)
  qed
  show ?thesis
  proof (cases "length base + length sfx \<le> 62")
    case True
    then show ?thesis using distinct by (intro exI [of _ base]) (auto simp: boundedJobName_short)
  next
    case False
    let ?p = "TrimRightChar (take (62 - length sfx) base) (CHR ''-'')"
    have name: "boundedJobName base sfx = Some (?p @ ''-'' @ sfx)"
      using False assms by (simp add: boundedJobName_long)
    have "length (?p @ ''-'' @ sfx) \<le> 63" using name boundedJobName_shape by (metis option.inject)
    moreover have "prefix ?p base" by (metis TrimRightChar_take prefix_order.trans take_is_prefix)
    ultimately show ?thesis using False name distinct last_TrimRightChar
      by (intro exI [of _ ?p]) auto
  qed
qed

theorem boundedJobName_correct_witness:
  "boundedJobName ''migrate'' ''abcdefgh'' = Some ''migrate-abcdefgh'' \<and>
   boundedJobName (replicate 53 (CHR ''a'') @ ''--bc'') ''abcdefgh'' = Some (replicate 53 (CHR ''a'') @ ''-abcdefgh'') \<and>
   (\<exists>p. boundedJobName ''migrate'' ''abcdefgh'' = Some (p @ ''-'' @ ''abcdefgh'') \<and> prefix p ''migrate'')"
proof -
  have "boundedJobName ''migrate'' ''abcdefgh'' = Some ''migrate-abcdefgh''" by code_simp
  moreover have "boundedJobName (replicate 53 (CHR ''a'') @ ''--bc'') ''abcdefgh'' = Some (replicate 53 (CHR ''a'') @ ''-abcdefgh'')"
    by code_simp
  ultimately show ?thesis using boundedJobName_correct [of "''abcdefgh''" "''migrate''"] by auto
qed

section \<open>One Job for a task execution\<close>

lemma job_for_index:
  assumes "set_controller_ok E" and "job_for E te job"
  shows "job_owner_index E job = [Name te]" and "Namespace job = Namespace te" and "length (Name job) \<le> 63"
    and "DecodeJobSpec E (teSpec te) = Inr (jobSpec job)"
proof -
  obtain spec sfx name where spec: "DecodeJobSpec E (teSpec te) = Inr spec"
    and name: "boundedJobName (Name te) sfx = Some name"
    and job: "SetJobController E te (job_template te name spec) = Inr job"
    using assms(2) unfolding job_for_def by blast
  note law = assms(1) [unfolded set_controller_ok_def, rule_format, OF job]
  then obtain ref where "GetControllerOf E (OwnerReferences job) = Some ref"
    "orAPIVersion ref = GroupVersionString (Api E)" "orKind ref = TaskExecutionKind (Api E)" "orName ref = Name te" by blast
  then show "job_owner_index E job = [Name te]" by (simp add: job_owner_index_def)
  from law show "Namespace job = Namespace te"
    by (simp add: job_template_def ObjectMeta.extend_def new_meta_def)
  from name have "length name \<le> 63" by (rule boundedJobName_shape)
  with law show "length (Name job) \<le> 63" by (simp add: job_template_def ObjectMeta.extend_def new_meta_def)
  from law spec show "DecodeJobSpec E (teSpec te) = Inr (jobSpec job)"
    by (simp add: job_template_def ObjectMeta.extend_def Job.fields_def)
qed

text \<open>
  C32. A Job is created only for the task execution that was read, only after the index was asked
  and had no Job for it, and at most once in a reconciliation. It carries the decoded
  specification, lives in the namespace of the task execution under a name of at most 63 characters,
  and the index files it under the task execution, so that the next reconciliation finds it.
\<close>

theorem job_create_guarded:
  assumes "meta_lib_ok (Lib E)" and "konf_api_ok (Api E)" and "set_controller_ok E"
    and "Task_Reconcile E req \<lparr>srv = s, trace = []\<rparr> = (r, w')" and "trace w' = pre @ EvCreateJob job a # post"
  shows "\<exists>te. EvGetTaskExecution req (Inr te) \<in> set pre \<and>
    EvListJobs (Namespace te) taskExecutionOwnerKey (Name te) (Inr []) \<in> set pre \<and>
    DecodeJobSpec E (teSpec te) = Inr (jobSpec job) \<and> Namespace job = Namespace te \<and>
    length (Name job) \<le> 63 \<and> job_owner_index E job = [Name te] \<and>
    (\<forall>job' a'. EvCreateJob job' a' \<notin> set pre \<and> EvCreateJob job' a' \<notin> set post)"
proof -
  have guarded: "guarded (te_guard E req) (trace w')" by (rule Task_Reconcile_guarded [OF assms(1,2,4)]) simp
  have "te_guard E req pre (EvCreateJob job a)" by (rule guardedD [OF guarded assms(5)])
  then obtain te where te: "EvGetTaskExecution req (Inr te) \<in> set pre"
    "EvListJobs (Namespace te) taskExecutionOwnerKey (Name te) (Inr []) \<in> set pre" "job_for E te job"
    "\<forall>job' r'. EvCreateJob job' r' \<notin> set pre" by auto
  have "EvCreateJob job' a' \<notin> set post" for job' a'
  proof
    assume "EvCreateJob job' a' \<in> set post"
    then obtain xs ys where "post = xs @ EvCreateJob job' a' # ys" by (auto dest: split_list)
    then have "te_guard E req (pre @ EvCreateJob job a # xs) (EvCreateJob job' a')"
      using assms(5) by (intro guardedD [OF guarded, of _ _ ys]) simp
    then show False by auto
  qed
  with te job_for_index [OF assms(3) te(3)] show ?thesis by blast
qed

section \<open>The store under reconciliation\<close>

lemma job_store_calls:
  assumes "job_store_ok E jobs"
  shows "jobs (snd (Now E s)) = jobs s" and "jobs (snd (RandString8 E s)) = jobs s"
    and "jobs (snd (GetTaskExecution E k s)) = jobs s" and "jobs (snd (PatchTaskStatus E old new s)) = jobs s"
    and "jobs (snd (ListJobs E ns taskExecutionOwnerKey n s)) = jobs s"
    and "fst (GetTaskExecution E k s) = Inr te \<Longrightarrow> nsname (Namespace te) (Name te) = k"
    and "fst (ListJobs E ns taskExecutionOwnerKey n s) = Inr js \<Longrightarrow> js = owned E (nsname ns n) (jobs s)"
    and "fst (CreateJob E j s) = Inl e \<Longrightarrow> jobs (snd (CreateJob E j s)) = jobs s"
    and "fst (CreateJob E j s) = Inr j' \<Longrightarrow> jobs (snd (CreateJob E j s)) = jobs s @ [j'] \<and>
      Namespace j' = Namespace j \<and> OwnerReferences j' = OwnerReferences j"
  using assms unfolding job_store_ok_def by (auto split: sum.splits) (metis sum.case)+

lemma constructJob_store:
  assumes "job_store_ok E jobs" and "constructJob E te w = (r, w')"
  shows "jobs (srv w') = jobs (srv w)"
  using assms(2) unfolding constructJob_def
  by (auto dest!: silent_eqD simp: job_store_calls [OF assms(1)] split: sum.splits prod.splits option.splits)

lemma createOrGetJob_store:
  assumes "job_store_ok E jobs" and "set_controller_ok E" and "createOrGetJob E te w = (r, w')"
  shows "(jobs (srv w') = jobs (srv w) \<and>
      ((\<exists>j. r = Some (Inr j)) \<longrightarrow> length (owned E (nsname (Namespace te) (Name te)) (jobs (srv w))) = 1)) \<or>
    (owned E (nsname (Namespace te) (Name te)) (jobs (srv w)) = [] \<and>
      (\<exists>j. jobs (srv w') = jobs (srv w) @ [j] \<and> Namespace j = Namespace te \<and> job_owner_index E j = [Name te]))"
proof -
  let ?ns = "Namespace te" and ?n = "Name te"
  note laws = job_store_calls [OF assms(1)]
  obtain l w1 where l: "call (ListJobs E ?ns taskExecutionOwnerKey ?n) (EvListJobs ?ns taskExecutionOwnerKey ?n) w = (l, w1)"
    by (rule prod.exhaust)
  note c1 = call_eqD [OF l]
  have s1: "jobs (srv w1) = jobs (srv w)" using c1 laws(5) by simp
  have listed: "js = owned E (nsname ?ns ?n) (jobs (srv w))" if "l = Inr js" for js using c1 laws(7) that by simp
  obtain n w2 where n: "constructJob E te w1 = (n, w2)" by (rule prod.exhaust)
  have s2: "jobs (srv w2) = jobs (srv w)" using constructJob_store [OF assms(1) n] s1 by simp
  show ?thesis
  proof (cases "\<exists>job. l = Inr [] \<and> n = Some (Inr job)")
    case False
    have one: "js \<noteq> [] \<Longrightarrow> \<not> 1 < length js \<Longrightarrow> length js = 1" for js :: "'b Job list"
      by (cases js rule: remdups_adj.cases) auto
    from False show ?thesis using assms(3) l n s1 s2 listed one
      by (auto simp: createOrGetJob_def split: sum.splits option.splits if_splits)
  next
    case True
    then obtain job where job: "l = Inr []" "n = Some (Inr job)" by blast
    note for_te = job_for_index [OF assms(2) constructJob_eqD(2) [OF n job(2)]]
    obtain c w3 where c: "call (CreateJob E job) (EvCreateJob job) w2 = (c, w3)" by (rule prod.exhaust)
    note c3 = call_eqD [OF c]
    show ?thesis
    proof (cases c)
      case (Inl e)
      then have "jobs (srv w3) = jobs (srv w)" using c3 laws(8) s2 by simp
      then show ?thesis using assms(3) l n job c Inl by (auto simp: createOrGetJob_def)
    next
      case (Inr j)
      then have "jobs (srv w3) = jobs (srv w) @ [j] \<and> Namespace j = Namespace job \<and> OwnerReferences j = OwnerReferences job"
        using c3 laws(9) s2 by simp
      moreover from this for_te have "job_owner_index E j = [?n]" by (simp add: job_owner_index_def)
      moreover have "srv w' = srv w3" using assms(3) l n job c Inr by (auto simp: createOrGetJob_def emit_srv)
      ultimately show ?thesis using for_te(2) listed [OF job(1)] by simp
    qed
  qed
qed

lemma verdict_store:
  assumes "job_store_ok E jobs" and "verdict_conditions E te ty w = (cs, w')"
  shows "jobs (srv w') = jobs (srv w)"
  using assms(2) unfolding verdict_conditions_def set_condition_def
  by (auto dest!: silent_eqD simp: job_store_calls [OF assms(1)] split: if_splits prod.splits)

text \<open>A reconciliation adds at most one Job, and only to an execution that has none.\<close>

lemma Task_Reconcile_store:
  assumes "job_store_ok E jobs" and "set_controller_ok E" and "Task_Reconcile E req w = (r, w')"
  shows "jobs (srv w') = jobs (srv w) \<or>
    (owned E req (jobs (srv w)) = [] \<and>
      (\<exists>j. jobs (srv w') = jobs (srv w) @ [j] \<and> Namespace j = nnNamespace req \<and> job_owner_index E j = [nnName req]))"
proof -
  note laws = job_store_calls [OF assms(1)]
  obtain g w1 where g: "call (GetTaskExecution E req) (EvGetTaskExecution req) w = (g, w1)" by (rule prod.exhaust)
  note c1 = call_eqD [OF g]
  have s1: "jobs (srv w1) = jobs (srv w)" using c1 laws(3) by simp
  show ?thesis
  proof (cases g)
    case (Inl e)
    with assms(3) g s1 show ?thesis by (simp add: Task_Reconcile_def)
  next
    case (Inr te)
    have req: "nsname (Namespace te) (Name te) = req" using c1 Inr laws(6) by simp
    obtain j w2 where j: "createOrGetJob E te w1 = (j, w2)" by (rule prod.exhaust)
    have "jobs (srv w') = jobs (srv w2)"
      using assms(3) g Inr j
      by (auto simp: Task_Reconcile_def Let_def laws(4) dest!: call_eqD [of "PatchTaskStatus _ _ _"]
          verdict_store [OF assms(1)] split: option.splits sum.splits prod.splits if_splits)
    moreover have "nnNamespace req = Namespace te" "nnName req = Name te" using req by auto
    ultimately show ?thesis using createOrGetJob_store [OF assms(1,2) j] s1 req by auto
  qed
qed

text \<open>The controller's work queue: one reconciliation after the other.\<close>

fun Task_runs :: "('s, 'j) te_env \<Rightarrow> NamespacedName list \<Rightarrow> ('s, 'j) te_world \<Rightarrow> ('s, 'j) te_world" where
  "Task_runs E [] w = w"
| "Task_runs E (req # reqs) w = Task_runs E reqs (snd (Task_Reconcile E req w))"

lemma owned_append: "owned E k (xs @ ys) = owned E k xs @ owned E k ys"
  by (simp add: owned_def)


section \<open>The status\<close>

text \<open>
  C33. A status is written only for the task execution that was read and only from a Job of it that
  has finished; it differs from the status read in its conditions alone, and it adds the failed
  condition exactly when the Job's first true terminal condition is the failure, the succeeded
  condition exactly when it is the completion.
\<close>

theorem task_status_faithful:
  assumes "meta_lib_ok (Lib E)" and "konf_api_ok (Api E)"
    and "Task_Reconcile E req \<lparr>srv = s, trace = []\<rparr> = (r, w')" and "trace w' = pre @ EvPatchTaskStatus old new a # post"
  shows "EvGetTaskExecution req (Inr old) \<in> set pre \<and>
    (\<exists>j ty cs. job_seen old j pre \<and> isJobFinished E j = (True, ty) \<and> new = old\<lparr>teConditions := cs\<rparr> \<and>
       (IsStatusConditionTrue (Lib E) cs (TaskFailed (Api E)) \<longleftrightarrow>
          ty = JobFailed E \<or> IsStatusConditionTrue (Lib E) (teConditions old) (TaskFailed (Api E))) \<and>
       (IsStatusConditionTrue (Lib E) cs (TaskSucceeded (Api E)) \<longleftrightarrow>
          ty \<noteq> JobFailed E \<or> IsStatusConditionTrue (Lib E) (teConditions old) (TaskSucceeded (Api E))))"
proof -
  have "guarded (te_guard E req) (trace w')" by (rule Task_Reconcile_guarded [OF assms(1,2,3)]) simp
  then have "te_guard E req pre (EvPatchTaskStatus old new a)" by (rule guardedD [OF _ assms(4)])
  then show ?thesis by (simp add: reports_def)
qed

definition verdict :: "('s, 'j) te_env \<Rightarrow> string \<Rightarrow> string" where
  "verdict E ty = (if ty = JobFailed E then TaskFailed (Api E) else TaskSucceeded (Api E))"

text \<open>
  C34. The end of a Job does not go unreported: when a reconciliation that read the task execution
  returns without an error, either its Job is still running, or the verdict already stood in the
  status, or it has been written and the write was accepted.
\<close>

theorem task_verdict_reported:
  assumes "meta_lib_ok (Lib E)" and "konf_api_ok (Api E)"
    and "Task_Reconcile E req \<lparr>srv = s, trace = []\<rparr> = (Some (res, None), w')"
    and "EvGetTaskExecution req (Inr te) \<in> set (trace w')"
  shows "\<exists>j. job_seen te j (trace w') \<and>
    (\<not> fst (isJobFinished E j) \<or>
     IsStatusConditionTrue (Lib E) (teConditions te) (verdict E (snd (isJobFinished E j))) \<or>
     (\<exists>cs stored. EvPatchTaskStatus te (te\<lparr>teConditions := cs\<rparr>) (Inr stored) \<in> set (trace w') \<and>
        IsStatusConditionTrue (Lib E) cs (verdict E (snd (isJobFinished E j)))))"
proof -
  have only: "te' = te" if "trace w1 = [EvGetTaskExecution req (Inr te')]" "createOrGetJob E te' w1 = (j, w2)"
    "EvGetTaskExecution req (Inr te) \<in> set (trace w2)" for te' w1 j w2
    using that(2) by (rule createOrGetJob_cases) (use that(1,3) in auto)
  have "trace \<lparr>srv = s, trace = []\<rparr> = []" by simp
  with assms(3) show ?thesis
  proof (cases rule: Task_Reconcile_cases)
    case (missing e)
    with assms(4) show ?thesis by simp
  next
    case (no_job te' w1 w2 j)
    then show ?thesis by auto
  next
    case (running te' w1 w2 job)
    with only assms(4) have "te' = te" by metis
    with running createOrGetJob_guarded(2) [OF running(2,1)] show ?thesis by auto
  next
    case (over te' w1 w2 job ty cs w3)
    note verdict = verdict_reports [OF assms(1,2) over(3,4)]
    have "EvGetTaskExecution req (Inr te) \<in> set (trace w2)"
      using over(5) assms(4) verdict(1) by (auto split: if_splits)
    then have te: "te' = te" using only over(1,2) by metis
    have seen: "job_seen te job (trace w')"
      using createOrGetJob_guarded(2) [OF over(2,1) refl] over(5) verdict(1) te
      by (auto simp: job_seen_def split: if_splits)
    have "IsStatusConditionTrue (Lib E) cs (verdict E ty)" using verdict(2) by (simp add: reports_def verdict_def)
    moreover have "cs = teConditions te \<or>
        (\<exists>stored. EvPatchTaskStatus te (te\<lparr>teConditions := cs\<rparr>) (Inr stored) \<in> set (trace w'))"
    proof (cases "cs = teConditions te")
      case False
      obtain p where p: "trace w' = trace w3 @ [EvPatchTaskStatus te (te\<lparr>teConditions := cs\<rparr>) p] \<and>
          (case p of Inl e \<Rightarrow> \<exists>e'. Some (res, None :: go_error option) = Some (noResult, Some e')
           | Inr _ \<Rightarrow> Some (res, None :: go_error option) = Some (noResult, None))"
        using over(5) [unfolded te if_not_P [OF False]] ..
      then obtain stored where "p = Inr stored" by (cases p) auto
      with p show ?thesis by auto
    qed simp
    ultimately show ?thesis using seen over(3) by (intro exI [of _ job]) auto
  qed
qed

text \<open>
  With \<^verbatim>\<open>rand.String(8)\<close> giving eight characters no reconciliation panics, whatever the name of
  the task execution and whatever the API server answers.
\<close>

theorem task_no_panic:
  assumes "\<forall>s. length (fst (RandString8 E s)) = 8"
  shows "\<exists>r w'. Task_Reconcile E req w = (Some r, w')"
proof -
  have construct: "fst (constructJob E te v) \<noteq> None" for te v
    using assms boundedJobName_panics [of "Name te"]
    by (auto simp: constructJob_def dest!: silent_eqD split: sum.splits prod.splits option.splits)
  have job: "fst (createOrGetJob E te v) \<noteq> None" for te v
    using construct [of te] by (auto simp: createOrGetJob_def split: sum.splits prod.splits option.splits) (metis fst_conv option.distinct(1))
  have "fst (Task_Reconcile E req w) \<noteq> None"
    using job by (auto simp: Task_Reconcile_def Let_def split: sum.splits prod.splits option.splits) (metis fst_conv option.distinct(1))
  then show ?thesis by (metis option.exhaust prod.collapse)
qed

section \<open>A sample Job store\<close>

text \<open>
  A store with one task execution \<^verbatim>\<open>migrate\<close> in the namespace \<^verbatim>\<open>land\<close>. It fails the Jobs it is given
  at once, so that a reconciliation runs through to the status.
\<close>

definition sample_task :: TaskExecution where
  "sample_task = ObjectMeta.extend (new_meta ''land'' ''migrate'') (TaskExecution.fields ''k8s-job'' ''{}'' [])"

definition controller_ref :: "TaskExecution \<Rightarrow> OwnerReference" where
  "controller_ref te = \<lparr>orAPIVersion = GroupVersionString plain_api, orKind = TaskExecutionKind plain_api,
     orName = Name te, orController = True\<rparr>"

abbreviation sample_list :: "string \<Rightarrow> string \<Rightarrow> string Job list \<Rightarrow> string Job list" where
  "sample_list ns n \<equiv> filter (\<lambda>j. Namespace j = ns \<and>
     n \<in> set (case find orController (OwnerReferences j) of None \<Rightarrow> []
       | Some owner \<Rightarrow> if orAPIVersion owner \<noteq> GroupVersionString plain_api \<or> orKind owner \<noteq> TaskExecutionKind plain_api
           then [] else [orName owner]))"

definition sample_task_env :: "(string Job list, string) te_env" where
  "sample_task_env = base_env.extend \<lparr>Lib = plain_lib, Api = plain_api, Now = \<lambda>s. (7, s)\<rparr>
     (te_env.fields ''Complete'' ''Failed'' Inr (\<lambda>s. (''abcdefgh'', s))
       (\<lambda>te j. Inr (j\<lparr>OwnerReferences := [controller_ref te]\<rparr>)) (find orController)
       (\<lambda>k s. (if k = nsname ''land'' ''migrate'' then Inr sample_task else Inl (ErrApi ReasonNotFound ''not found''), s))
       (\<lambda>ns key n s. (Inr (sample_list ns n s), s))
       (\<lambda>j s. let j' = j\<lparr>jobConditions := [\<lparr>jcType = ''Failed'', jcStatus = ConditionTrue\<rparr>]\<rparr> in (Inr j', s @ [j']))
       (\<lambda>old new s. (Inr new, s)))"

lemmas sample_task_simps = sample_task_env_def base_env.extend_def te_env.fields_def

lemma sample_task_ok:
  "meta_lib_ok (Lib sample_task_env)" "konf_api_ok (Api sample_task_env)" "set_controller_ok sample_task_env"
  "job_store_ok sample_task_env (\<lambda>s. s)"
  by (auto simp: sample_task_simps plain_lib_ok plain_api_ok set_controller_ok_def controller_ref_def
      job_store_ok_def owned_def job_owner_index_def sample_task_def ObjectMeta.extend_def new_meta_def
      TaskExecution.fields_def Let_def)

abbreviation sample_task_run :: "reconcile_ret option \<times> (string Job list, string) te_world" where
  "sample_task_run \<equiv> Task_Reconcile sample_task_env (nsname ''land'' ''migrate'') \<lparr>srv = [], trace = []\<rparr>"

abbreviation sample_job :: "string Job" where
  "sample_job \<equiv> (job_template sample_task ''migrate-abcdefgh'' ''{}'')\<lparr>OwnerReferences := [controller_ref sample_task]\<rparr>"

abbreviation sample_failed :: "string Job" where
  "sample_failed \<equiv> sample_job\<lparr>jobConditions := [\<lparr>jcType = ''Failed'', jcStatus = ConditionTrue\<rparr>]\<rparr>"

abbreviation sample_verdict :: Condition where
  "sample_verdict \<equiv> \<lparr>cType = ''Failed'', cStatus = ConditionTrue, cReason = ''Failed'',
     cMessage = ''Reconciling TaskExecution migrate failed'', cObservedGeneration = 0, cLastTransitionTime = Some 7\<rparr>"

lemma sample_task_trace:
  "fst sample_task_run = Some (noResult, None)"
  "trace (snd sample_task_run) =
    [EvGetTaskExecution (nsname ''land'' ''migrate'') (Inr sample_task),
     EvListJobs ''land'' taskExecutionOwnerKey ''migrate'' (Inr []),
     EvCreateJob sample_job (Inr sample_failed),
     EvTaskRecorded ''JobCreated'' ''Created Job migrate-abcdefgh for TaskExecution migrate'',
     EvPatchTaskStatus sample_task (sample_task\<lparr>teConditions := [sample_verdict]\<rparr>)
       (Inr (sample_task\<lparr>teConditions := [sample_verdict]\<rparr>))]"
  by code_simp+

theorem job_create_guarded_witness:
  "length (Name sample_job) \<le> 63 \<and> job_owner_index sample_task_env sample_job = [''migrate'']"
proof -
  have "trace (snd sample_task_run) =
    [EvGetTaskExecution (nsname ''land'' ''migrate'') (Inr sample_task),
     EvListJobs ''land'' taskExecutionOwnerKey ''migrate'' (Inr [])] @ EvCreateJob sample_job (Inr sample_failed) #
    [EvTaskRecorded ''JobCreated'' ''Created Job migrate-abcdefgh for TaskExecution migrate'',
     EvPatchTaskStatus sample_task (sample_task\<lparr>teConditions := [sample_verdict]\<rparr>)
       (Inr (sample_task\<lparr>teConditions := [sample_verdict]\<rparr>))]"
    by (simp only: sample_task_trace append.simps)
  from job_create_guarded [OF sample_task_ok(1-3) prod.collapse [symmetric] this]
  show ?thesis by (auto simp: sample_task_def ObjectMeta.extend_def new_meta_def TaskExecution.fields_def)
qed


theorem task_status_faithful_witness:
  "\<exists>j ty. isJobFinished sample_task_env j = (True, ty) \<and>
     EvPatchTaskStatus sample_task (sample_task\<lparr>teConditions := [sample_verdict]\<rparr>)
       (Inr (sample_task\<lparr>teConditions := [sample_verdict]\<rparr>)) \<in> set (trace (snd sample_task_run))"
proof -
  have "trace (snd sample_task_run) =
    [EvGetTaskExecution (nsname ''land'' ''migrate'') (Inr sample_task),
     EvListJobs ''land'' taskExecutionOwnerKey ''migrate'' (Inr []), EvCreateJob sample_job (Inr sample_failed),
     EvTaskRecorded ''JobCreated'' ''Created Job migrate-abcdefgh for TaskExecution migrate''] @
     EvPatchTaskStatus sample_task (sample_task\<lparr>teConditions := [sample_verdict]\<rparr>)
       (Inr (sample_task\<lparr>teConditions := [sample_verdict]\<rparr>)) # []"
    by (simp only: sample_task_trace append.simps)
  from task_status_faithful [OF sample_task_ok(1,2) prod.collapse [symmetric] this]
  show ?thesis by (auto simp: sample_task_trace)
qed

theorem task_verdict_reported_witness:
  "\<exists>j. job_seen sample_task j (trace (snd sample_task_run))"
proof -
  have "sample_task_run = (Some (noResult, None), snd sample_task_run)"
    by (simp only: sample_task_trace(1) [symmetric] prod.collapse)
  moreover have "EvGetTaskExecution (nsname ''land'' ''migrate'') (Inr sample_task) \<in> set (trace (snd sample_task_run))"
    unfolding sample_task_trace(2) by simp
  ultimately show ?thesis using task_verdict_reported [OF sample_task_ok(1,2)] by blast
qed

theorem task_no_panic_witness:
  "\<exists>r w'. sample_task_run = (Some r, w')"
  by (rule task_no_panic) (simp add: sample_task_simps)

end
