(* ===== verification/Flux_Names.thy ===== *)
theory Flux_Names
  imports Activation_Data
begin

text \<open>
  The pure part of the Flux deployer: resource names and labels
  (\<^verbatim>\<open>internal/fluxdeployer/internal/fluxcd/utils/utils.go\<close>), and the translation of an OCM resource
  into a Helm chart or a Kustomize resource (\<^verbatim>\<open>fluxcd/mapper.go\<close>).

  \<^verbatim>\<open>distribution/reference\<close> is the record \<open>ref_lib\<close>; \<open>lowerU\<close> is the Unicode table of lower-case
  letters for the characters that do not map to ASCII.
\<close>

section \<open>Names\<close>

text \<open>
  \<^verbatim>\<open>unicode.ToLower\<close>: the ASCII letters, and the two characters outside ASCII whose lower-case letter
  is an ASCII one, are written out.
\<close>

definition lower_rune :: "(nat \<Rightarrow> nat) \<Rightarrow> nat \<Rightarrow> nat" where
  "lower_rune lowerU r =
     (if 65 \<le> r \<and> r \<le> 90 then r + 32
      else if r < 0x80 then r
      else if r = 0x130 then 105
      else if r = 0x212A then 107
      else lowerU r)"

definition ToLower :: "(nat \<Rightarrow> nat) \<Rightarrow> string \<Rightarrow> string" where
  "ToLower lowerU s = encode_runes (map (lower_rune lowerU) (runes s))"

text \<open>The character class \<^verbatim>\<open>[a-z0-9-]\<close> and the letters and digits of it.\<close>

definition alnum :: "nat \<Rightarrow> bool" where
  "alnum r \<longleftrightarrow> (97 \<le> r \<and> r \<le> 122) \<or> (48 \<le> r \<and> r \<le> 57)"

definition name_rune :: "nat \<Rightarrow> bool" where
  "name_rune r \<longleftrightarrow> alnum r \<or> r = 45"

text \<open>\<^verbatim>\<open>ReplaceAllString\<close> with the complement of that class: one dash for every other character.\<close>

definition replace_other :: "string \<Rightarrow> string" where
  "replace_other s = map (\<lambda>r. if name_rune r then char_of r else CHR ''-'') (runes s)"

text \<open>
  The trimming functions are applied to the result of the replacement, whose characters are single
  bytes.
\<close>

definition trim_alnum :: "string \<Rightarrow> string" where
  "trim_alnum s = rev (dropWhile (\<lambda>c. \<not> alnum (byte c)) (rev (dropWhile (\<lambda>c. \<not> alnum (byte c)) s)))"

definition SanitizeK8sResourceName :: "(nat \<Rightarrow> nat) \<Rightarrow> string \<Rightarrow> string" where
  "SanitizeK8sResourceName lowerU name =
     (let name1 = ToLower lowerU name;
          name2 = replace_other name1;
          name3 = trim_alnum name2
      in if length name3 > 63 then take 63 name3 else name3)"

definition GetKonfidenceLabel :: "string gomap \<Rightarrow> string \<Rightarrow> string result" where
  "GetKonfidenceLabel labels label =
     (let value = go_index labels (''konfidence.cloud/'' @ label)
      in if value = [] then Inl (ErrMsg (''label '' @ label @ '' not found in metadata'')) else Inr value)"

definition removeProtocol :: "string \<Rightarrow> string" where
  "removeProtocol stringUrl = (case SplitN2 stringUrl ''//'' of [_, rest] \<Rightarrow> rest | _ \<Rightarrow> stringUrl)"

definition ParseHostnameWithPortFromURL :: "string \<Rightarrow> string result" where
  "ParseHostnameWithPortFromURL stringUrl =
     (case SplitN2 (removeProtocol stringUrl) ''/'' of
        [] \<Rightarrow> Inl (ErrMsg (''invalid URL: '' @ stringUrl))
      | host # _ \<Rightarrow> Inr host)"

text \<open>\<^verbatim>\<open>strconv.ParseBool\<close>\<close>

definition ParseBool :: "string \<Rightarrow> bool option" where
  "ParseBool s =
     (if s \<in> set [''1'', ''t'', ''T'', ''true'', ''TRUE'', ''True''] then Some True
      else if s \<in> set [''0'', ''f'', ''F'', ''false'', ''FALSE'', ''False''] then Some False
      else None)"

section \<open>OCM resources\<close>

record OCMResource =
  ocmName :: string
  ocmType :: string
  ocmContent :: string

record HelmChartResource =
  hcOCMResource :: OCMResource
  hcRepository :: string
  hcChartName :: string
  hcVersion :: string
  hcInsecure :: bool

record KustomizeResource =
  kzOCMResource :: OCMResource
  kzRepository :: string
  kzPath :: string
  kzTag :: string
  kzInsecure :: bool

text \<open>A parsed reference: its domain and path, and its tag if it is a \<^verbatim>\<open>NamedTagged\<close> reference.\<close>

record ImageRef =
  refDomain :: string
  refPath :: string
  refTag :: "string option"

record ref_lib =
  ParseReference :: "string \<Rightarrow> ImageRef result"

text \<open>
  The content structs of the mapper. Each of them is decoded with the fields it declares; the
  record holds the fields of all of them.
\<close>

record access =
  acType :: string
  acHelmRepository :: string
  acHelmChart :: string
  acVersion :: string
  acImageReference :: string

definition zero_access :: access where
  "zero_access = \<lparr>acType = [], acHelmRepository = [], acHelmChart = [], acVersion = [], acImageReference = []\<rparr>"

definition set_accessType :: "json_env \<Rightarrow> string \<Rightarrow> json \<Rightarrow> access \<Rightarrow> access option" where
  "set_accessType J k v a =
     (if EqualFold (FieldFold J) k ''type'' then map_option (\<lambda>x. a\<lparr>acType := x\<rparr>) (decode_string v (acType a))
      else Some a)"

definition set_helmContent :: "json_env \<Rightarrow> string \<Rightarrow> json \<Rightarrow> access \<Rightarrow> access option" where
  "set_helmContent J k v a =
     (if EqualFold (FieldFold J) k ''type'' then map_option (\<lambda>x. a\<lparr>acType := x\<rparr>) (decode_string v (acType a))
      else if EqualFold (FieldFold J) k ''helmRepository'' then
        map_option (\<lambda>x. a\<lparr>acHelmRepository := x\<rparr>) (decode_string v (acHelmRepository a))
      else if EqualFold (FieldFold J) k ''helmChart'' then
        map_option (\<lambda>x. a\<lparr>acHelmChart := x\<rparr>) (decode_string v (acHelmChart a))
      else if EqualFold (FieldFold J) k ''version'' then
        map_option (\<lambda>x. a\<lparr>acVersion := x\<rparr>) (decode_string v (acVersion a))
      else Some a)"

definition set_ociContent :: "json_env \<Rightarrow> string \<Rightarrow> json \<Rightarrow> access \<Rightarrow> access option" where
  "set_ociContent J k v a =
     (if EqualFold (FieldFold J) k ''type'' then map_option (\<lambda>x. a\<lparr>acType := x\<rparr>) (decode_string v (acType a))
      else if EqualFold (FieldFold J) k ''imageReference'' then
        map_option (\<lambda>x. a\<lparr>acImageReference := x\<rparr>) (decode_string v (acImageReference a))
      else Some a)"

definition decode_access ::
  "json_env \<Rightarrow> (json_env \<Rightarrow> string \<Rightarrow> json \<Rightarrow> access \<Rightarrow> access option) \<Rightarrow> string \<Rightarrow> string \<Rightarrow> access result" where
  "decode_access J setter msg raw =
     (case unmarshal_struct (setter J) zero_access raw of
        None \<Rightarrow> Inl (ErrWrap msg (ErrMsg (UnmarshalErrorText J raw)))
      | Some a \<Rightarrow> Inr a)"

definition splitScheme :: "string \<Rightarrow> string \<times> bool" where
  "splitScheme imageReference =
     (if HasPrefix imageReference ''http://'' then (TrimPrefix imageReference ''http://'', True)
      else if HasPrefix imageReference ''https://'' then (TrimPrefix imageReference ''https://'', False)
      else (imageReference, False))"

text \<open>Lines 67 to 76 and 107 to 116: the tagged reference both functions ask for.\<close>

definition tagged_reference :: "ref_lib \<Rightarrow> string \<Rightarrow> (ImageRef \<times> string \<times> bool) result" where
  "tagged_reference P imageReference =
     (let (bareRef, insecure) = splitScheme imageReference
      in case ParseReference P bareRef of
           Inl e \<Rightarrow> Inl (ErrWrap ''unable to parse kustomizeImage reference: '' e)
         | Inr ref \<Rightarrow>
             (case refTag ref of
                None \<Rightarrow> Inl (ErrMsg (''imageReference must be in format '' @ go_quote ''<repository-url>:<tag>''
                  @ '', got '' @ go_quote imageReference))
              | Some tag \<Rightarrow> Inr (ref, tag, insecure)))"

definition ToHelm :: "json_env \<Rightarrow> ref_lib \<Rightarrow> OCMResource \<Rightarrow> HelmChartResource result" where
  "ToHelm J P m =
     (if ocmType m \<noteq> ''helmChart''
      then Inl (ErrMsg (''type '' @ [squote] @ ocmType m @ [squote] @ '' not parsable to HelmChartResource''))
      else case decode_access J set_accessType ''unable to unmarshal content to accessType wrapper: '' (ocmContent m) of
        Inl e \<Rightarrow> Inl e
      | Inr accessType \<Rightarrow>
          if acType accessType = ''helm'' then
            (case decode_access J set_helmContent ''unable to unmarshal content to HelmChartResource: '' (ocmContent m) of
               Inl e \<Rightarrow> Inl e
             | Inr c \<Rightarrow>
                 if CHR '':'' \<in> set (acHelmChart c)
                 then let parts = SplitChar (acHelmChart c) (CHR '':'')
                      in Inr \<lparr>hcOCMResource = m, hcRepository = acHelmRepository c, hcChartName = parts ! 0,
                           hcVersion = parts ! 1, hcInsecure = False\<rparr>
                 else Inr \<lparr>hcOCMResource = m, hcRepository = acHelmRepository c, hcChartName = acHelmChart c,
                        hcVersion = acVersion c, hcInsecure = False\<rparr>)
          else if acType accessType = ''ociArtifact'' then
            (case decode_access J set_ociContent ''unable to unmarshal content to HelmChartResource: '' (ocmContent m) of
               Inl e \<Rightarrow> Inl e
             | Inr c \<Rightarrow>
                 (case tagged_reference P (acImageReference c) of
                    Inl e \<Rightarrow> Inl e
                  | Inr (ref, tag, insecure) \<Rightarrow>
                      Inr \<lparr>hcOCMResource = m, hcRepository = ''oci://'' @ refDomain ref @ ''/'' @ path_Dir (refPath ref),
                        hcChartName = path_Base (refPath ref), hcVersion = tag, hcInsecure = insecure\<rparr>))
          else Inl (ErrMsg (''type '' @ [squote] @ ocmType m @ [squote]
            @ '' not parsable to HelmChartResource (supported: helm, ociArtifact)'')))"

definition ToKustomize :: "json_env \<Rightarrow> ref_lib \<Rightarrow> OCMResource \<Rightarrow> KustomizeResource result" where
  "ToKustomize J P m =
     (if ocmType m \<noteq> ''kustomize''
      then Inl (ErrMsg (''type '' @ [squote] @ ocmType m @ [squote] @ '' not parsable to KustomizeResource''))
      else case decode_access J set_ociContent ''unable to unmarshal content to KustomizeResource: '' (ocmContent m) of
        Inl e \<Rightarrow> Inl e
      | Inr c \<Rightarrow>
          if acType c \<noteq> ''ociArtifact''
          then Inl (ErrMsg (''type '' @ [squote] @ acType c @ [squote] @ '' not parsable to KustomizeResource''))
          else
            (case tagged_reference P (acImageReference c) of
               Inl e \<Rightarrow> Inl e
             | Inr (ref, tag, insecure) \<Rightarrow>
                 Inr \<lparr>kzOCMResource = m, kzRepository = ''oci://'' @ refDomain ref @ ''/'' @ refPath ref, kzPath = ''./'',
                   kzTag = tag, kzInsecure = insecure\<rparr>))"

section \<open>Sanitized names\<close>

text \<open>DNS-1123 labels.\<close>

definition dns_label :: "string \<Rightarrow> bool" where
  "dns_label s \<longleftrightarrow> s \<noteq> [] \<and> length s \<le> 63 \<and> (\<forall>c \<in> set s. name_rune (byte c)) \<and> alnum (byte (hd s)) \<and> alnum (byte (last s))"

lemma name_rune_ascii: "name_rune r \<Longrightarrow> r < 0x80"
  by (auto simp: name_rune_def alnum_def)

lemma replace_other_names: "c \<in> set (replace_other s) \<Longrightarrow> name_rune (byte c)"
proof -
  have "name_rune (byte (CHR ''-''))" by (simp add: name_rune_def byte_def)
  moreover have "name_rune r \<Longrightarrow> name_rune (byte (char_of r))" for r using name_rune_ascii [of r] by simp
  ultimately show "c \<in> set (replace_other s) \<Longrightarrow> name_rune (byte c)" by (auto simp: replace_other_def)
qed

text \<open>What trimming takes away on either side.\<close>

lemma trim_alnum_split:
  obtains a b where "s = a @ trim_alnum s @ b" and "\<forall>c \<in> set a. \<not> alnum (byte c)" and "\<forall>c \<in> set b. \<not> alnum (byte c)"
proof -
  let ?P = "\<lambda>c. \<not> alnum (byte c)"
  let ?t = "dropWhile ?P s"
  have "s = takeWhile ?P s @ ?t" by simp
  moreover have "?t = trim_alnum s @ rev (takeWhile ?P (rev ?t))"
    unfolding trim_alnum_def by (metis rev_append rev_rev_ident takeWhile_dropWhile_id)
  ultimately have "s = takeWhile ?P s @ trim_alnum s @ rev (takeWhile ?P (rev ?t))" by metis
  then show thesis by (rule that) (auto dest: set_takeWhileD)
qed

lemma trim_alnum_set: "set (trim_alnum s) \<subseteq> set s"
  by (rule trim_alnum_split [of s]) (metis Un_iff set_append subsetI)

lemma trim_alnum_last:
  assumes "trim_alnum s \<noteq> []"
  shows "alnum (byte (last (trim_alnum s)))"
proof -
  have "dropWhile (\<lambda>c. \<not> alnum (byte c)) (rev (dropWhile (\<lambda>c. \<not> alnum (byte c)) s)) \<noteq> []"
    using assms unfolding trim_alnum_def by blast
  from hd_dropWhile [OF this] show ?thesis unfolding trim_alnum_def last_rev by blast
qed

lemma trim_alnum_hd:
  assumes "trim_alnum s \<noteq> []"
  shows "alnum (byte (hd (trim_alnum s)))"
proof -
  let ?t = "dropWhile (\<lambda>c. \<not> alnum (byte c)) s"
  have t: "?t = trim_alnum s @ rev (takeWhile (\<lambda>c. \<not> alnum (byte c)) (rev ?t))"
    unfolding trim_alnum_def by (metis rev_append rev_rev_ident takeWhile_dropWhile_id)
  then have "?t \<noteq> []" using assms by (metis append_is_Nil_conv)
  from hd_dropWhile [OF this] have "alnum (byte (hd ?t))" by blast
  then show ?thesis using t assms by (metis hd_append2)
qed

lemma trim_alnum_id:
  assumes "s \<noteq> []" and "alnum (byte (hd s))" and "alnum (byte (last s))"
  shows "trim_alnum s = s"
proof -
  have "dropWhile (\<lambda>c. \<not> alnum (byte c)) s = s" using assms(1,2) by (cases s) auto
  moreover have "dropWhile (\<lambda>c. \<not> alnum (byte c)) (rev s) = rev s"
    using assms(1,3) by (cases s rule: rev_cases) auto
  ultimately show ?thesis by (simp add: trim_alnum_def)
qed

lemma ToLower_name:
  assumes "\<forall>c \<in> set s. name_rune (byte c)"
  shows "ToLower lowerU s = s" and "replace_other s = s"
proof -
  have ascii: "list_all (\<lambda>c. byte c < 0x80) s" using assms name_rune_ascii by (auto simp: list_all_iff)
  have "map (lower_rune lowerU) (runes s) = map byte s"
    unfolding runes_ascii [OF ascii] using assms by (auto simp: lower_rune_def name_rune_def alnum_def)
  moreover have "encode_runes (map byte s) = s" using ascii
    by (induction s) (auto simp: encode_runes_def EncodeRune_def valid_rune_def enc_rune_def)
  ultimately show "ToLower lowerU s = s" by (simp add: ToLower_def)
  show "replace_other s = s" unfolding replace_other_def runes_ascii [OF ascii] using assms by (simp add: map_idI)
qed

lemma sanitize_dns_label:
  assumes "dns_label s"
  shows "SanitizeK8sResourceName lowerU s = s"
  using assms ToLower_name [of s] trim_alnum_id [of s] by (simp add: dns_label_def SanitizeK8sResourceName_def)

text \<open>
  C40. A sanitized name has at most 63 characters, all of them lower-case letters, digits or dashes,
  and begins with a letter or digit; it ends with one too unless the name had to be cut. It is
  empty exactly when the lower-case name has no letter and no digit, and a DNS label is left as it
  is. So every sanitized name that was not cut and is not empty is a DNS label.
\<close>

theorem SanitizeK8sResourceName_correct:
  "set (SanitizeK8sResourceName lowerU s) \<subseteq> {c. name_rune (byte c)} \<and> length (SanitizeK8sResourceName lowerU s) \<le> 63 \<and>
   (if SanitizeK8sResourceName lowerU s = [] then \<not> list_ex alnum (runes (ToLower lowerU s))
    else alnum (byte (hd (SanitizeK8sResourceName lowerU s)))) \<and>
   (if length (trim_alnum (replace_other (ToLower lowerU s))) \<le> 63 \<and> SanitizeK8sResourceName lowerU s \<noteq> []
    then dns_label (SanitizeK8sResourceName lowerU s) else True) \<and>
   (if dns_label s then SanitizeK8sResourceName lowerU s = s else True)"
proof -
  let ?n = "trim_alnum (replace_other (ToLower lowerU s))"
  have take: "SanitizeK8sResourceName lowerU s = take 63 ?n" by (simp add: SanitizeK8sResourceName_def Let_def)
  have names: "set ?n \<subseteq> {c. name_rune (byte c)}" using trim_alnum_set replace_other_names by fastforce
  have empty: "\<not> list_ex alnum (runes (ToLower lowerU s))" if "?n = []"
  proof
    assume "list_ex alnum (runes (ToLower lowerU s))"
    then obtain r where r: "r \<in> set (runes (ToLower lowerU s))" "alnum r" by (auto simp: list_ex_iff)
    then have "char_of r \<in> set (replace_other (ToLower lowerU s))" by (force simp: replace_other_def name_rune_def)
    moreover have "\<forall>c \<in> set (replace_other (ToLower lowerU s)). \<not> alnum (byte c)"
      by (rule trim_alnum_split [of "replace_other (ToLower lowerU s)"]) (metis Un_iff that append_Nil set_append)
    ultimately show False using r(2) name_rune_ascii [of r] by (auto simp: name_rune_def)
  qed
  have "alnum (byte (hd (take 63 ?n)))" if "?n \<noteq> []" using trim_alnum_hd [OF that] that by (simp add: hd_take)
  moreover have "dns_label ?n" if "length ?n \<le> 63" "?n \<noteq> []"
    using that names trim_alnum_hd [OF that(2)] trim_alnum_last [OF that(2)] by (auto simp: dns_label_def)
  moreover have "take 63 ?n = s" if "dns_label s"
    using sanitize_dns_label [OF that, of lowerU] take by simp
  moreover have "set (take 63 ?n) \<subseteq> {c. name_rune (byte c)}" using names set_take_subset [of 63 ?n] by blast
  moreover have "take 63 ?n = [] \<longleftrightarrow> ?n = []" by simp
  ultimately show ?thesis using empty unfolding take by (auto simp del: take_eq_Nil)
qed

text \<open>A name that is cut may end with a dash, which a DNS label must not.\<close>

lemma sanitized_name_not_a_label:
  "\<not> dns_label (SanitizeK8sResourceName lowerU (replicate 62 (CHR ''a'') @ ''-b''))"
proof -
  let ?s = "replicate 62 (CHR ''a'') @ ''-b''"
  have names: "\<forall>c \<in> set ?s. name_rune (byte c)" by (auto simp: name_rune_def alnum_def byte_def)
  have "trim_alnum ?s = ?s" by (rule trim_alnum_id) (simp_all add: alnum_def byte_def numeral_eq_Suc)
  then have "SanitizeK8sResourceName lowerU ?s = replicate 62 (CHR ''a'') @ ''-''"
    using ToLower_name [OF names] by (simp add: SanitizeK8sResourceName_def)
  then show ?thesis by (simp add: dns_label_def alnum_def byte_def)
qed

lemma splitScheme_cases:
  "splitScheme (''http://'' @ ref) = (ref, True)" "splitScheme (''https://'' @ ref) = (ref, False)"
  "\<not> HasPrefix ref ''http://'' \<Longrightarrow> \<not> HasPrefix ref ''https://'' \<Longrightarrow> splitScheme ref = (ref, False)"
  by (simp_all add: splitScheme_def HasPrefix_def TrimPrefix_def)

end
