(* ===== verification/Deployment_Target.thy ===== *)
theory Deployment_Target
  imports Kube "HOL-Library.Multiset"
begin

text \<open>
  Deployment targets: the validation callback of the DeploymentTarget controller
  (\<^verbatim>\<open>internal/deploymenttarget/setup.go\<close>) and the resolution of the client of a landscape
  (\<^verbatim>\<open>internal/activationexecution/internal/controller/landscape_client.go\<close>), with the constants of
  \<^verbatim>\<open>internal/const.go\<close>.

  Parsing a kubeconfig and building a client are code of client-go and controller-runtime:
  \<open>RESTConfigFromKubeConfig\<close> and \<open>NewClient\<close> are parameters over arbitrary types of configurations
  and clients. Both files read the kubeconfig of a Secret with a function of their own; the
  locale \<open>kubeconfig_source\<close> is what the two have in common.
\<close>

section \<open>Data\<close>

definition ControllerName :: string where
  "ControllerName = ''konfidence.cloud/kubernetes-landscape-orchestrator''"

definition ArtifactTypeHelm :: string where
  "ArtifactTypeHelm = ''helm.konfidence.cloud''"

definition ArtifactTypeKustomize :: string where
  "ArtifactTypeKustomize = ''kustomize.konfidence.cloud''"

definition SupportedArtifactTypes :: "string list" where
  "SupportedArtifactTypes = [ArtifactTypeHelm, ArtifactTypeKustomize]"

definition acceptedKubeconfigKeys :: "string list" where
  "acceptedKubeconfigKeys = [''value'', ''value.yaml'']"

record Parameters =
  pAPIGroup :: string
  pKind :: string
  pName :: string

record DeploymentTarget = ObjectMeta +
  dtArtifactType :: string
  dtParameters :: "Parameters option"
  dtConditions :: "Condition list"

record Secret = ObjectMeta +
  secretData :: "string gomap"

datatype ValidationResult = ValidationSuccess | ValidationFailure string

record ('s, 'rc, 'cl) target_env = "'s base_env" +
  GetSecret :: "NamespacedName \<Rightarrow> 's \<Rightarrow> Secret result \<times> 's"
  ListTargets :: "string \<Rightarrow> 's \<Rightarrow> DeploymentTarget list result \<times> 's"
  RESTConfigFromKubeConfig :: "string \<Rightarrow> 'rc result"
  NewClient :: "'rc \<Rightarrow> 'cl result"

datatype target_event =
    EvGetSecret NamespacedName "Secret result"
  | EvListTargets string "DeploymentTarget list result"

type_synonym 's target_world = "('s, target_event) world"

section \<open>Validation\<close>

text \<open>The loop over the accepted keys, the same in both files.\<close>

fun kubeconfig_loop :: "Secret \<Rightarrow> string list \<Rightarrow> string option" where
  "kubeconfig_loop secret [] = None"
| "kubeconfig_loop secret (key # keys) =
     (case map_of (secretData secret) key of Some data \<Rightarrow> Some data | None \<Rightarrow> kubeconfig_loop secret keys)"

definition validate_kubeconfigFromSecret :: "Secret \<Rightarrow> string result" where
  "validate_kubeconfigFromSecret secret =
     (case kubeconfig_loop secret acceptedKubeconfigKeys of
        Some data \<Rightarrow> Inr data
      | None \<Rightarrow> Inl (ErrMsg (''secret '' @ go_quote (Name secret)
          @ '' contains no kubeconfig: expected key as one of [value value.yaml]'')))"

definition validate ::
  "('s, 'rc, 'cl) target_env \<Rightarrow> DeploymentTarget \<Rightarrow> 's target_world \<Rightarrow> ValidationResult result \<times> 's target_world" where
  "validate E dt w =
     (case dtParameters dt of
        None \<Rightarrow> (Inr ValidationSuccess, w)
      | Some params \<Rightarrow>
          if pAPIGroup params \<noteq> [] \<or> pKind params \<noteq> ''Secret'' \<or> pName params = []
          then (Inr (ValidationFailure ''parameters must refer to a Kubernetes Secret containing a kubeconfig''), w)
          else
            (let secretKey = nsname (Namespace dt) (pName params);
                 (g, w1) = call (GetSecret E secretKey) (EvGetSecret secretKey) w
             in case g of
                  Inl e \<Rightarrow> (Inl (ErrWrap (''get secret '' @ nn_String secretKey @ '': '') e), w1)
                | Inr secret \<Rightarrow>
                    (case validate_kubeconfigFromSecret secret of
                       Inl e \<Rightarrow> (Inr (ValidationFailure (err_string e)), w1)
                     | Inr kubeconfig \<Rightarrow>
                         (case RESTConfigFromKubeConfig E kubeconfig of
                            Inl _ \<Rightarrow> (Inr (ValidationFailure (''secret '' @ go_quote (pName params)
                              @ '' does not contain a valid kubeconfig'')), w1)
                          | Inr _ \<Rightarrow> (Inr ValidationSuccess, w1)))))"

section \<open>The client of a landscape\<close>

definition sameConnection :: "DeploymentTarget \<Rightarrow> DeploymentTarget \<Rightarrow> bool" where
  "sameConnection a b =
     (case dtParameters a of
        None \<Rightarrow> False
      | Some p \<Rightarrow>
          (case dtParameters b of
             None \<Rightarrow> False
           | Some q \<Rightarrow> pAPIGroup p = pAPIGroup q \<and> pKind p = pKind q \<and> pName p = pName q))"

text \<open>The two loops of \<^verbatim>\<open>resolveTarget\<close>: collecting the ready targets and comparing connections.\<close>

fun ready_loop :: "('s, 'rc, 'cl) target_env \<Rightarrow> string \<Rightarrow> DeploymentTarget list \<Rightarrow> DeploymentTarget list \<Rightarrow> DeploymentTarget list" where
  "ready_loop E artifactType ready [] = ready"
| "ready_loop E artifactType ready (t # ts) =
     (if artifactType \<noteq> [] \<and> dtArtifactType t \<noteq> artifactType then ready_loop E artifactType ready ts
      else if IsStatusConditionTrue (Lib E) (dtConditions t) (DeploymentTargetReadyCondition (Api E))
      then ready_loop E artifactType (ready @ [t]) ts
      else ready_loop E artifactType ready ts)"

fun same_loop :: "DeploymentTarget \<Rightarrow> DeploymentTarget list \<Rightarrow> bool" where
  "same_loop first [] = True"
| "same_loop first (t # ts) = (if \<not> sameConnection first t then False else same_loop first ts)"

definition resolveTarget ::
  "('s, 'rc, 'cl) target_env \<Rightarrow> string \<Rightarrow> string \<Rightarrow> 's target_world \<Rightarrow> DeploymentTarget result \<times> 's target_world" where
  "resolveTarget E landscapeNs artifactType w =
     (let (l, w1) = call (ListTargets E landscapeNs) (EvListTargets landscapeNs) w
      in case l of
           Inl e \<Rightarrow> (Inl (ErrWrap (''list DeploymentTargets in namespace '' @ go_quote landscapeNs @ '': '') e), w1)
         | Inr items \<Rightarrow>
             (case ready_loop E artifactType [] items of
                [] \<Rightarrow> (Inl (ErrMsg (''no ready DeploymentTarget in namespace '' @ go_quote landscapeNs
                  @ '' for routing (artifactType '' @ go_quote artifactType @ '')'')), w1)
              | first # rest \<Rightarrow>
                  if same_loop first rest then (Inr first, w1)
                  else (Inl (ErrMsg (''multiple ready DeploymentTargets with different connections in namespace ''
                    @ go_quote landscapeNs @ ''; set artifactType in the activation registration spec'')), w1)))"

definition landscape_kubeconfigFromSecret :: "Secret \<Rightarrow> string result" where
  "landscape_kubeconfigFromSecret secret =
     (case kubeconfig_loop secret acceptedKubeconfigKeys of
        Some data \<Rightarrow> Inr data
      | None \<Rightarrow> Inl (ErrMsg (''secret '' @ go_quote (Name secret) @ '' contains no kubeconfig: expected one of [''
          @ Join acceptedKubeconfigKeys '' '' @ '']'')))"

record 'cl cachedClient =
  ccResourceVersion :: string
  ccClient :: 'cl

text \<open>\<^verbatim>\<open>remoteClient\<close> runs under the provider's lock: it is a function of the cache.\<close>

definition remoteClient ::
  "('s, 'rc, 'cl) target_env \<Rightarrow> string \<Rightarrow> Secret \<Rightarrow> 'cl cachedClient gomap \<Rightarrow> 'cl result \<times> 'cl cachedClient gomap" where
  "remoteClient E cacheKey secret cache =
     (let hit = (case map_of cache cacheKey of
                   Some cached \<Rightarrow> if ccResourceVersion cached = ResourceVersion secret then Some cached else None
                 | None \<Rightarrow> None)
      in case hit of
           Some cached \<Rightarrow> (Inr (ccClient cached), cache)
         | None \<Rightarrow>
             (case landscape_kubeconfigFromSecret secret of
                Inl e \<Rightarrow> (Inl e, cache)
              | Inr kubeconfig \<Rightarrow>
                  (case RESTConfigFromKubeConfig E kubeconfig of
                     Inl e \<Rightarrow> (Inl (ErrWrap (''invalid kubeconfig in secret '' @ go_quote (Name secret) @ '': '') e), cache)
                   | Inr restConfig \<Rightarrow>
                       (case NewClient E restConfig of
                          Inl e \<Rightarrow> (Inl (ErrWrap (''build client for secret '' @ go_quote (Name secret) @ '': '') e), cache)
                        | Inr cl \<Rightarrow> (Inr cl, AList.update cacheKey
                            \<lparr>ccResourceVersion = ResourceVersion secret, ccClient = cl\<rparr> cache)))))"

section \<open>Reading a kubeconfig\<close>

text \<open>
  The contract of both readers: the data of the first accepted key that is present, an error if
  there is none.
\<close>

locale kubeconfig_source =
  fixes kubeconfig :: "Secret \<Rightarrow> string result"
  assumes found: "kubeconfig s = Inr d \<longleftrightarrow>
    map_of (secretData s) ''value'' = Some d \<or>
    map_of (secretData s) ''value'' = None \<and> map_of (secretData s) ''value.yaml'' = Some d"
begin

lemma fails_iff: "(\<exists>e. kubeconfig s = Inl e) \<longleftrightarrow>
    map_of (secretData s) ''value'' = None \<and> map_of (secretData s) ''value.yaml'' = None"
proof (cases "kubeconfig s")
  case (Inl e)
  with found [of s] show ?thesis by (metis not_None_eq sum.distinct(1))
next
  case (Inr d)
  with found [of s d] show ?thesis by auto
qed

text \<open>The reader looks at nothing but the two keys, and prefers the first.\<close>

lemma first_key: "map_of (secretData s) ''value'' = Some d \<Longrightarrow> kubeconfig s = Inr d"
  using found [of s d] by simp

lemma agrees:
  assumes "kubeconfig_source other"
  shows "kubeconfig s = Inr d \<longleftrightarrow> other s = Inr d"
  using found [of s d] kubeconfig_source.found [OF assms, of s d] by simp

end

interpretation validator: kubeconfig_source validate_kubeconfigFromSecret
  by unfold_locales (auto simp: validate_kubeconfigFromSecret_def acceptedKubeconfigKeys_def split: option.splits)

interpretation landscape: kubeconfig_source landscape_kubeconfigFromSecret
  by unfold_locales (auto simp: landscape_kubeconfigFromSecret_def acceptedKubeconfigKeys_def split: option.splits)

section \<open>Clients\<close>

text \<open>What \<^verbatim>\<open>remoteClient\<close> promises without its cache.\<close>

definition build_client :: "('s, 'rc, 'cl) target_env \<Rightarrow> Secret \<Rightarrow> 'cl result" where
  "build_client E secret = fst (remoteClient E [] secret [])"

text \<open>
  Kubernetes changes the resource version of an object with every write: the cache key and the
  resource version determine the Secret, which \<open>H\<close> is the record of. A cache is coherent when every
  entry holds the client of the Secret it was filled from.
\<close>

definition clients_coherent ::
  "('s, 'rc, 'cl) target_env \<Rightarrow> (string \<Rightarrow> string \<Rightarrow> Secret) \<Rightarrow> 'cl cachedClient gomap \<Rightarrow> bool" where
  "clients_coherent E H cache \<longleftrightarrow>
     (\<forall>k c. map_of cache k = Some c \<longrightarrow> build_client E (H k (ccResourceVersion c)) = Inr (ccClient c))"

lemma remoteClient_miss:
  assumes "\<forall>c. map_of cache k = Some c \<longrightarrow> ccResourceVersion c \<noteq> ResourceVersion s"
  shows "remoteClient E k s cache = (build_client E s,
    case build_client E s of Inl _ \<Rightarrow> cache
    | Inr cl \<Rightarrow> AList.update k \<lparr>ccResourceVersion = ResourceVersion s, ccClient = cl\<rparr> cache)"
  using assms by (auto simp: remoteClient_def build_client_def split: option.splits sum.splits)

text \<open>
  C36. Caching is invisible: with a coherent cache \<^verbatim>\<open>remoteClient\<close> answers what building a fresh
  client would answer, errors included, and leaves a coherent cache. An update of the Secret is
  never answered with the client of the old one.
\<close>

theorem remoteClient_equivalent:
  assumes "clients_coherent E H cache" and "secret = H key (ResourceVersion secret)"
    and "remoteClient E key secret cache = (r, cache')"
  shows "r = build_client E secret \<and> clients_coherent E H cache'"
proof (cases "\<exists>c. map_of cache key = Some c \<and> ccResourceVersion c = ResourceVersion secret")
  case True
  then obtain c where c: "map_of cache key = Some c" "ccResourceVersion c = ResourceVersion secret" by blast
  then have "build_client E secret = Inr (ccClient c)" using assms(1,2) unfolding clients_coherent_def by metis
  then show ?thesis using c assms by (simp add: remoteClient_def)
next
  case False
  then have run: "remoteClient E key secret cache = (build_client E secret,
      case build_client E secret of Inl _ \<Rightarrow> cache
      | Inr cl \<Rightarrow> AList.update key \<lparr>ccResourceVersion = ResourceVersion secret, ccClient = cl\<rparr> cache)"
    by (intro remoteClient_miss) blast
  then show ?thesis using assms
    by (auto simp: clients_coherent_def update_conv split: sum.splits if_splits)
qed

text \<open>
  C39. What validation decides. Without parameters a target is valid. With parameters it is valid
  exactly when they name a Secret of the core group, which the API server then returned, and that
  Secret yields a client configuration, so that building the remote client from the same Secret can
  fail only where the client itself is constructed. Validation ends with an error exactly when the
  Secret could not be read, and it reads at most that one Secret.
\<close>

theorem validate_correct:
  assumes "validate E dt \<lparr>srv = s, trace = []\<rparr> = (r, w')"
  shows "(r = Inr ValidationSuccess \<longleftrightarrow> dtParameters dt = None \<or>
      (\<exists>p secret rc. dtParameters dt = Some p \<and> pAPIGroup p = [] \<and> pKind p = ''Secret'' \<and> pName p \<noteq> [] \<and>
         trace w' = [EvGetSecret (nsname (Namespace dt) (pName p)) (Inr secret)] \<and>
         (\<forall>cl. NewClient E rc = Inr cl \<longrightarrow> build_client E secret = Inr cl) \<and>
         (\<exists>d. landscape_kubeconfigFromSecret secret = Inr d \<and> RESTConfigFromKubeConfig E d = Inr rc))) \<and>
    ((\<exists>e. r = Inl e) \<longleftrightarrow> (\<exists>k e. trace w' = [EvGetSecret k (Inl e)])) \<and> length (trace w') \<le> 1"
proof (cases "dtParameters dt")
  case None
  with assms show ?thesis by (auto simp: validate_def)
next
  case (Some p)
  show ?thesis
  proof (cases "pAPIGroup p \<noteq> [] \<or> pKind p \<noteq> ''Secret'' \<or> pName p = []")
    case True
    with Some assms show ?thesis by (auto simp: validate_def)
  next
    case False
    let ?k = "nsname (Namespace dt) (pName p)"
    obtain g w1 where g: "call (GetSecret E ?k) (EvGetSecret ?k) \<lparr>srv = s, trace = []\<rparr> = (g, w1)" by (rule prod.exhaust)
    have t1: "trace w1 = [EvGetSecret ?k g]" using call_traceD [OF g] by simp
    have w': "w' = w1" using assms Some False g by (auto simp: validate_def split: sum.splits)
    show ?thesis
    proof (cases g)
      case (Inl e)
      with assms Some False g t1 w' show ?thesis by (auto simp: validate_def)
    next
      case (Inr secret)
      have built: "build_client E secret = Inr cl"
        if "landscape_kubeconfigFromSecret secret = Inr d" "RESTConfigFromKubeConfig E d = Inr rc" "NewClient E rc = Inr cl"
        for d rc cl using that by (simp add: build_client_def remoteClient_def)
      have agree: "landscape_kubeconfigFromSecret secret = Inr d \<longleftrightarrow> validate_kubeconfigFromSecret secret = Inr d" for d
        by (rule landscape.agrees [OF validator.kubeconfig_source_axioms])
      have "r = Inr ValidationSuccess \<longleftrightarrow>
          (\<exists>d rc. validate_kubeconfigFromSecret secret = Inr d \<and> RESTConfigFromKubeConfig E d = Inr rc)"
        and "\<nexists>e. r = Inl e"
        using assms Some False g Inr by (auto simp: validate_def split: sum.splits)
      moreover have "trace w' = [EvGetSecret ?k (Inr secret)]" using t1 w' Inr by simp
      ultimately show ?thesis using Some False built agree by auto
    qed
  qed
qed

section \<open>Resolving the target\<close>

definition eligible :: "('s, 'rc, 'cl) target_env \<Rightarrow> string \<Rightarrow> DeploymentTarget \<Rightarrow> bool" where
  "eligible E artifactType t \<longleftrightarrow> (artifactType = [] \<or> dtArtifactType t = artifactType) \<and>
     IsStatusConditionTrue (Lib E) (dtConditions t) (DeploymentTargetReadyCondition (Api E))"

lemma ready_loop_filter: "ready_loop E ty ready ts = ready @ filter (eligible E ty) ts"
  by (induction ts arbitrary: ready) (auto simp: eligible_def)

lemma same_loop_iff: "same_loop first ts \<longleftrightarrow> (\<forall>t \<in> set ts. sameConnection first t)"
  by (induction ts) auto

lemma sameConnection_iff: "sameConnection a b \<longleftrightarrow> dtParameters a = dtParameters b \<and> dtParameters a \<noteq> None"
  by (auto simp: sameConnection_def split: option.splits)

text \<open>The reference: one eligible target, or several with one and the same reference to a Secret.\<close>

definition resolvable :: "('s, 'rc, 'cl) target_env \<Rightarrow> string \<Rightarrow> DeploymentTarget list \<Rightarrow> Parameters option \<Rightarrow> bool" where
  "resolvable E ty items conn \<longleftrightarrow>
     (\<exists>t. filter (eligible E ty) items = [t] \<and> dtParameters t = conn) \<or>
     (filter (eligible E ty) items \<noteq> [] \<and> conn \<noteq> None \<and> (\<forall>t \<in> set (filter (eligible E ty) items). dtParameters t = conn))"

lemma resolveTarget_list:
  assumes "fst (ListTargets E ns s) = Inr items"
  shows "(\<exists>t. fst (resolveTarget E ns ty \<lparr>srv = s, trace = []\<rparr>) = Inr t \<and> dtParameters t = conn \<and> t \<in> set items \<and> eligible E ty t) \<longleftrightarrow>
    resolvable E ty items conn"
proof -
  obtain w1 where l: "call (ListTargets E ns) (EvListTargets ns) \<lparr>srv = s, trace = []\<rparr> = (Inr items, w1)"
    using assms by (cases "ListTargets E ns s") (auto simp: call_def)
  let ?ready = "filter (eligible E ty) items"
  have res: "fst (resolveTarget E ns ty \<lparr>srv = s, trace = []\<rparr>) = Inr t \<longleftrightarrow>
      (\<exists>rest. ?ready = t # rest \<and> (\<forall>u \<in> set rest. sameConnection t u))" for t
    using l by (auto simp: resolveTarget_def ready_loop_filter same_loop_iff split: list.splits)
  have mem: "t \<in> set items \<and> eligible E ty t" if "?ready = t # rest" for t rest
    using that by (metis (mono_tags) list.set_intros(1) mem_Collect_eq set_filter)
  show ?thesis
  proof
    assume "\<exists>t. fst (resolveTarget E ns ty \<lparr>srv = s, trace = []\<rparr>) = Inr t \<and> dtParameters t = conn \<and> t \<in> set items \<and> eligible E ty t"
    then obtain t rest where t: "?ready = t # rest" "\<forall>u \<in> set rest. sameConnection t u" "dtParameters t = conn" using res by blast
    then show "resolvable E ty items conn"
      by (cases rest) (auto simp: resolvable_def sameConnection_iff)
  next
    assume "resolvable E ty items conn"
    then obtain t rest where t: "?ready = t # rest" "\<forall>u \<in> set rest. sameConnection t u" "dtParameters t = conn"
      by (cases ?ready) (auto simp: resolvable_def sameConnection_iff simp del: filter_eq_Cons_iff filter_empty_conv)
    then show "\<exists>t. fst (resolveTarget E ns ty \<lparr>srv = s, trace = []\<rparr>) = Inr t \<and> dtParameters t = conn \<and> t \<in> set items \<and> eligible E ty t"
      using res mem by blast
  qed
qed

text \<open>
  Resolution answers with a listed target that is ready and of the requested type exactly when
  there is one eligible target, or several that refer to one and the same Secret; which connection
  it is does not depend on the order of the list. Two eligible targets for the local cluster, which
  have no parameters, are refused.
\<close>

theorem resolveTarget_correct:
  assumes "fst (ListTargets E ns s) = Inr items" and "mset items' = mset items" and "fst (ListTargets E ns s') = Inr items'"
  shows "((\<exists>t. fst (resolveTarget E ns ty \<lparr>srv = s, trace = []\<rparr>) = Inr t \<and> dtParameters t = conn \<and> t \<in> set items \<and> eligible E ty t) \<longleftrightarrow>
      resolvable E ty items conn) \<and>
    (resolvable E ty items conn \<longleftrightarrow>
      (\<exists>t. fst (resolveTarget E ns ty \<lparr>srv = s', trace = []\<rparr>) = Inr t \<and> dtParameters t = conn \<and> t \<in> set items' \<and> eligible E ty t)) \<and>
    (\<forall>t u. t \<in> set items \<and> u \<in> set items \<and> t \<noteq> u \<and> eligible E ty t \<and> eligible E ty u \<and> dtParameters t = None \<longrightarrow>
       \<not> resolvable E ty items conn)"
proof -
  have perm: "mset (filter (eligible E ty) items') = mset (filter (eligible E ty) items)" using assms(2) by simp
  have one: "filter (eligible E ty) items' = [t] \<longleftrightarrow> filter (eligible E ty) items = [t]" for t
    using perm by (metis mset_single_iff)
  have "resolvable E ty items conn \<longleftrightarrow> resolvable E ty items' conn"
    unfolding resolvable_def one using perm by (metis mset_eq_setD mset_zero_iff)
  moreover have "\<not> resolvable E ty items conn"
    if "t \<in> set items" "u \<in> set items" "t \<noteq> u" "eligible E ty t" "eligible E ty u" "dtParameters t = None" for t u
  proof
    assume "resolvable E ty items conn"
    moreover have "t \<in> set (filter (eligible E ty) items)" "u \<in> set (filter (eligible E ty) items)" using that by auto
    ultimately show False using that(3,6) unfolding resolvable_def by (metis empty_iff empty_set set_ConsD)
  qed
  ultimately show ?thesis using resolveTarget_list [OF assms(1)] resolveTarget_list [OF assms(3)] by blast
qed

section \<open>A sample landscape\<close>

definition sample_secret :: Secret where
  "sample_secret = ObjectMeta.extend ((new_meta ''land'' ''remote'')\<lparr>ResourceVersion := ''41''\<rparr>)
     (Secret.fields [(''value.yaml'', ''cluster'')])"

definition sample_target :: "string \<Rightarrow> DeploymentTarget" where
  "sample_target n = ObjectMeta.extend (new_meta ''land'' n)
     (DeploymentTarget.fields ArtifactTypeHelm (Some \<lparr>pAPIGroup = [], pKind = ''Secret'', pName = ''remote''\<rparr>)
       [\<lparr>cType = ''Ready'', cStatus = ConditionTrue, cReason = [], cMessage = [], cObservedGeneration = 0,
         cLastTransitionTime = None\<rparr>])"

definition sample_target_env :: "(DeploymentTarget list, string, string) target_env" where
  "sample_target_env = base_env.extend \<lparr>Lib = plain_lib, Api = plain_api, Now = \<lambda>s. (0, s)\<rparr>
     (target_env.fields
       (\<lambda>k s. (if k = nsname ''land'' ''remote'' then Inr sample_secret else Inl (ErrApi ReasonNotFound ''not found''), s))
       (\<lambda>ns s. (Inr s, s)) (\<lambda>d. if d = [] then Inl (ErrMsg ''empty'') else Inr d) Inr)"

lemma sample_list_targets: "fst (ListTargets sample_target_env ''land'' s) = Inr s"
  by (simp add: sample_target_env_def base_env.extend_def target_env.fields_def)

theorem remoteClient_equivalent_witness:
  "fst (remoteClient sample_target_env ''land/remote'' sample_secret
      [(''land/remote'', \<lparr>ccResourceVersion = ''40'', ccClient = ''old''\<rparr>)]) = Inr ''cluster'' \<and>
   fst (remoteClient sample_target_env ''land/remote'' sample_secret []) = build_client sample_target_env sample_secret"
proof -
  have "fst (remoteClient sample_target_env ''land/remote'' sample_secret
      [(''land/remote'', \<lparr>ccResourceVersion = ''40'', ccClient = ''old''\<rparr>)]) = Inr ''cluster''" by code_simp
  moreover have "fst (remoteClient sample_target_env ''land/remote'' sample_secret []) = build_client sample_target_env sample_secret"
    using remoteClient_equivalent [of sample_target_env "\<lambda>_ _. sample_secret" "[]" sample_secret, OF _ refl prod.collapse [symmetric]]
    by (simp add: clients_coherent_def)
  ultimately show ?thesis by simp
qed

theorem validate_correct_witness:
  "fst (validate sample_target_env (sample_target ''a'') \<lparr>srv = [], trace = []\<rparr>) = Inr ValidationSuccess \<and>
   (\<exists>p. dtParameters (sample_target ''a'') = Some p \<and> pKind p = ''Secret'')"
proof -
  have ok: "fst (validate sample_target_env (sample_target ''a'') \<lparr>srv = [], trace = []\<rparr>) = Inr ValidationSuccess" by code_simp
  have params: "dtParameters (sample_target ''a'') \<noteq> None" by code_simp
  have "\<exists>p. dtParameters (sample_target ''a'') = Some p \<and> pKind p = ''Secret''"
    using validate_correct [of sample_target_env "sample_target ''a''" "[]", OF prod.collapse [symmetric],
        THEN conjunct1, THEN iffD1, OF ok] params
    by (elim disjE exE conjE) auto
  with ok show ?thesis ..
qed

theorem resolveTarget_correct_witness:
  "resolvable sample_target_env [] [sample_target ''a'', sample_target ''b'']
     (Some \<lparr>pAPIGroup = [], pKind = ''Secret'', pName = ''remote''\<rparr>) \<and>
   (\<exists>t. fst (resolveTarget sample_target_env ''land'' [] \<lparr>srv = [sample_target ''b'', sample_target ''a''], trace = []\<rparr>) = Inr t)"
proof -
  let ?conn = "Some \<lparr>pAPIGroup = [], pKind = ''Secret'', pName = ''remote''\<rparr>"
  have ok: "resolvable sample_target_env [] [sample_target ''a'', sample_target ''b''] ?conn"
    by (simp add: resolvable_def eligible_def sample_target_env_def base_env.extend_def target_env.fields_def
        sample_target_def ObjectMeta.extend_def new_meta_def DeploymentTarget.fields_def plain_lib_def plain_api_def)
  with resolveTarget_correct [OF sample_list_targets _ sample_list_targets,
      of "[sample_target ''b'', sample_target ''a'']" "[sample_target ''a'', sample_target ''b'']" "[]" ?conn]
  show ?thesis by (auto simp: add_mset_commute)
qed

end
