(* ===== verification/Flux_Deployer.thy ===== *)
theory Flux_Deployer
  imports Flux_Names Deployment_Target
begin

text \<open>
  The Flux reconcilers of \<^verbatim>\<open>internal/fluxdeployer/internal/fluxcd/reconciler\<close> and the configuration
  provider of \<^verbatim>\<open>internal/fluxdeployer/internal/controller/config_provider.go\<close>: an artifact deployment
  becomes a HelmRepository and a HelmRelease, or an OCIRepository and a Kustomization, and the
  conditions of these objects are carried over to the deployment.

  The specifications of the Flux objects keep the fields the sources set. \<^verbatim>\<open>CreateOrUpdate\<close> loads
  the object, or takes a new one with nothing but its key, applies the change and stores the result: a
  pair of client calls \<open>Load\<close> and \<open>Store\<close> for every kind. Pure parts of third-party modules
  (reading a host name, the API's annotation names and kinds) are fields of \<open>flux_env\<close>.
\<close>

section \<open>Data\<close>

record ArtifactDeployment = ObjectMeta +
  adArtifactType :: string
  adResources :: "OCMResource list"
  adConditions :: "Condition list"
  adResults :: "DeploymentResult list option"

record HelmRepositorySpec =
  hrsInterval :: duration
  hrsURL :: string
  hrsInsecure :: bool
  hrsSecretRef :: "string option"
  hrsType :: string

record HelmRepository = ObjectMeta +
  hrepSpec :: HelmRepositorySpec

record OCIRepositorySpec =
  osInterval :: duration
  osURL :: string
  osInsecure :: bool
  osSecretRef :: "string option"
  osTag :: string

record OCIRepository = ObjectMeta +
  ociSpec :: OCIRepositorySpec
  ociConditions :: "Condition list"

record SourceRef =
  srKind :: string
  srNamespace :: string
  srName :: string

record HelmReleaseSpec =
  rsInterval :: duration
  rsSourceRef :: SourceRef
  rsChart :: string
  rsVersion :: string
  rsReleaseName :: string
  rsKubeConfig :: "string option"
  rsTargetNamespace :: string
  rsStorageNamespace :: string
  rsDriftDetection :: string
  rsInstallTimeout :: duration
  rsCommonLabels :: "string gomap"

record HelmRelease = ObjectMeta +
  hrelSpec :: HelmReleaseSpec
  hrelConditions :: "Condition list"

record HelmChart = ObjectMeta +
  hchConditions :: "Condition list"

record KustomizationSpec =
  ksInterval :: duration
  ksSourceRef :: SourceRef
  ksPath :: string
  ksKubeConfig :: "string option"
  ksTargetNamespace :: string
  ksNameSuffix :: string
  ksPrune :: bool
  ksWait :: bool
  ksCommonLabels :: "string gomap"

record Kustomization = ObjectMeta +
  kusSpec :: KustomizationSpec
  kusConditions :: "Condition list"

record Service = ObjectMeta +
  svcPorts :: "ServicePort list"

definition HelmRepositoryControllerName :: string where
  "HelmRepositoryControllerName = ''flux-helm-repository-controller''"

definition OCIRepositoryControllerName :: string where
  "OCIRepositoryControllerName = ''flux-oci-repository-reconciler''"

definition KustomizationControllerName :: string where
  "KustomizationControllerName = ''flux-kustomization-controller''"

definition DefaultConfigMapName :: string where
  "DefaultConfigMapName = ''flux-deployer-configuration''"

definition conditionTypeReady :: string where
  "conditionTypeReady = ''Ready''"

definition maxKustomizationNameSuffixLength :: nat where
  "maxKustomizationNameSuffixLength = 36"

section \<open>Environment\<close>

text \<open>
  \<open>SetOwner\<close> is \<^verbatim>\<open>controllerutil.SetControllerReference\<close>: the owner references of the object after
  it. \<open>FindReady\<close> is the target lookup of the konfidence module.
\<close>

record 's flux_env = "'s base_env" +
  FluxJson :: json_env
  Refs :: ref_lib
  LowerTable :: "nat \<Rightarrow> nat"
  ArtifactVersionAnnotation :: string
  ArtifactHashAnnotation :: string
  HelmRepositoryTypeOCI :: string
  HelmRepositoryKind :: string
  OCIRepositoryKind :: string
  DriftDetectionEnabled :: string
  FluxTCP :: string
  ArtifactTypeOf :: "ArtifactDeployment \<Rightarrow> string"
  ExtractHostname :: "string \<Rightarrow> string result"
  SanitizeResourceName :: "string \<Rightarrow> string"
  SetOwner :: "ArtifactDeployment \<Rightarrow> ObjectMeta \<Rightarrow> OwnerReference list result"
  EncodePorts :: "ServicePort list \<Rightarrow> json result"
  LabelSelectorAsSelector :: "string gomap \<Rightarrow> string gomap result"
  GetDeployment :: "NamespacedName \<Rightarrow> 's \<Rightarrow> ArtifactDeployment result \<times> 's"
  PatchDeploymentStatus :: "ArtifactDeployment \<Rightarrow> ArtifactDeployment \<Rightarrow> 's \<Rightarrow> unit result \<times> 's"
  LoadHelmRepository :: "NamespacedName \<Rightarrow> 's \<Rightarrow> HelmRepository result \<times> 's"
  StoreHelmRepository :: "HelmRepository \<Rightarrow> 's \<Rightarrow> (HelmRepository \<times> string) result \<times> 's"
  LoadOCIRepository :: "NamespacedName \<Rightarrow> 's \<Rightarrow> OCIRepository result \<times> 's"
  StoreOCIRepository :: "OCIRepository \<Rightarrow> 's \<Rightarrow> (OCIRepository \<times> string) result \<times> 's"
  LoadHelmRelease :: "NamespacedName \<Rightarrow> 's \<Rightarrow> HelmRelease result \<times> 's"
  StoreHelmRelease :: "HelmRelease \<Rightarrow> 's \<Rightarrow> (HelmRelease \<times> string) result \<times> 's"
  LoadKustomization :: "NamespacedName \<Rightarrow> 's \<Rightarrow> Kustomization result \<times> 's"
  StoreKustomization :: "Kustomization \<Rightarrow> 's \<Rightarrow> (Kustomization \<times> string) result \<times> 's"
  GetHelmChart :: "NamespacedName \<Rightarrow> 's \<Rightarrow> HelmChart result \<times> 's"
  FindReady :: "string \<Rightarrow> string \<Rightarrow> 's \<Rightarrow> DeploymentTarget result \<times> 's"
  GetSecretByConfigMap :: "string \<Rightarrow> string \<Rightarrow> 's \<Rightarrow> string result \<times> 's"
  GetPullSecret :: "NamespacedName \<Rightarrow> 's \<Rightarrow> unit result \<times> 's"
  ListServices :: "string \<Rightarrow> string gomap \<Rightarrow> 's \<Rightarrow> Service list result \<times> 's"

datatype flux_event =
    EvGetDeployment NamespacedName "ArtifactDeployment result"
  | EvPatchDeploymentStatus ArtifactDeployment ArtifactDeployment "unit result"
  | EvLoadHelmRepository NamespacedName "HelmRepository result"
  | EvStoreHelmRepository HelmRepository "(HelmRepository \<times> string) result"
  | EvLoadOCIRepository NamespacedName "OCIRepository result"
  | EvStoreOCIRepository OCIRepository "(OCIRepository \<times> string) result"
  | EvLoadHelmRelease NamespacedName "HelmRelease result"
  | EvStoreHelmRelease HelmRelease "(HelmRelease \<times> string) result"
  | EvLoadKustomization NamespacedName "Kustomization result"
  | EvStoreKustomization Kustomization "(Kustomization \<times> string) result"
  | EvGetHelmChart NamespacedName "HelmChart result"
  | EvFindReady string string "DeploymentTarget result"
  | EvSecretByConfigMap string string "string result"
  | EvGetPullSecret NamespacedName "unit result"
  | EvListServices string "string gomap" "Service list result"
  | EvFluxRecorded string string

type_synonym 's flux_world = "('s, flux_event) world"

abbreviation dep_key :: "ArtifactDeployment \<Rightarrow> NamespacedName" where
  "dep_key dep \<equiv> nsname (Namespace dep) (Name dep)"

definition CreateOrUpdate ::
  "('s \<Rightarrow> 'o result \<times> 's) \<Rightarrow> ('o result \<Rightarrow> 'e) \<Rightarrow> ('o \<Rightarrow> 's \<Rightarrow> ('o \<times> string) result \<times> 's) \<Rightarrow>
   ('o \<Rightarrow> ('o \<times> string) result \<Rightarrow> 'e) \<Rightarrow> ('o \<Rightarrow> ('s, 'e) world \<Rightarrow> 'o result \<times> ('s, 'e) world) \<Rightarrow>
   ('s, 'e) world \<Rightarrow> ('o \<times> string) result \<times> ('s, 'e) world" where
  "CreateOrUpdate load ev_load store ev_store mutateFn w =
     (let (l, w1) = call load ev_load w
      in case l of
           Inl e \<Rightarrow> (Inl e, w1)
         | Inr obj \<Rightarrow>
             (let (m, w2) = mutateFn obj w1
              in case m of
                   Inl e \<Rightarrow> (Inl e, w2)
                 | Inr obj' \<Rightarrow> call (store obj') (ev_store obj') w2))"

section \<open>Configuration\<close>

definition GetReconcileInterval :: "string \<Rightarrow> duration" where
  "GetReconcileInterval landscape = 10 * Second"

definition GetHelmInstallConfig :: "string \<Rightarrow> duration" where
  "GetHelmInstallConfig landscape = 5 * Minute"

definition GetHelmDriftDetectionMode :: "'s flux_env \<Rightarrow> string \<Rightarrow> string" where
  "GetHelmDriftDetectionMode E landscape = DriftDetectionEnabled E"

definition GetKubeConfigRef ::
  "'s flux_env \<Rightarrow> string \<Rightarrow> string \<Rightarrow> 's flux_world \<Rightarrow> string option result \<times> 's flux_world" where
  "GetKubeConfigRef E landscape artifactType w =
     (let (t, w1) = call (FindReady E landscape artifactType) (EvFindReady landscape artifactType) w
      in case t of
           Inl e \<Rightarrow> (Inl e, w1)
         | Inr target \<Rightarrow>
             (case dtParameters target of
                None \<Rightarrow> (Inr None, w1)
              | Some params \<Rightarrow>
                  if pAPIGroup params \<noteq> [] \<or> pKind params \<noteq> ''Secret'' \<or> pName params = []
                  then (Inl (ErrMsg (''DeploymentTarget '' @ go_quote (Name target)
                    @ '' has invalid KLO kubeconfig parameters'')), w1)
                  else (Inr (Some (pName params)), w1)))"

definition GetTargetNamespace :: "string \<Rightarrow> string" where
  "GetTargetNamespace landscape = landscape"

definition buildKustomizationNameSuffix :: "'s flux_env \<Rightarrow> ArtifactDeployment \<Rightarrow> string" where
  "buildKustomizationNameSuffix E dep =
     (let version = go_index (Annotations dep) (ArtifactVersionAnnotation E);
          hash = go_index (Annotations dep) (ArtifactHashAnnotation E);
          full = version @ ''-'' @ hash
      in if length full + 1 \<le> maxKustomizationNameSuffixLength
         then ''-'' @ SanitizeK8sResourceName (LowerTable E) full
         else ''-'' @ SanitizeK8sResourceName (LowerTable E) hash)"

definition isInsecure :: "ArtifactDeployment \<Rightarrow> bool" where
  "isInsecure dep =
     (case GetKonfidenceLabel (Labels dep) ''registry-insecure'' of
        Inl _ \<Rightarrow> False
      | Inr label \<Rightarrow> (case ParseBool label of None \<Rightarrow> False | Some b \<Rightarrow> b))"

definition getSecretRef ::
  "'s flux_env \<Rightarrow> ArtifactDeployment \<Rightarrow> string \<Rightarrow> 's flux_world \<Rightarrow> string option result \<times> 's flux_world" where
  "getSecretRef E dep repositoryString w =
     (let skipAuth = (case GetKonfidenceLabel (Labels dep) ''registry-skip-auth'' of
                        Inl _ \<Rightarrow> False
                      | Inr label \<Rightarrow> ParseBool label = Some True)
      in if skipAuth then (Inr None, w)
         else case ExtractHostname E repositoryString of
           Inl e \<Rightarrow> (Inl (ErrWrap ''failed to extract domain from registry url: '' e), w)
         | Inr domain \<Rightarrow>
             if domain = [] then (Inr None, w)
             else
               (let (c, w1) = call (GetSecretByConfigMap E DefaultConfigMapName domain)
                      (EvSecretByConfigMap DefaultConfigMapName domain) w
                in case c of
                     Inl e \<Rightarrow> (Inl e, w1)
                   | Inr configured \<Rightarrow>
                       if configured \<noteq> [] then (Inr (Some configured), w1)
                       else
                         (let secretName = SanitizeResourceName E domain;
                              key = nsname (Namespace dep) secretName;
                              (g, w2) = call (GetPullSecret E key) (EvGetPullSecret key) w1
                          in case g of
                               Inl e \<Rightarrow>
                                 if IsNotFound e then (Inr None, w2)
                                 else (Inl (ErrWrap (''failed to get pull secret '' @ go_quote secretName @ '': '') e), w2)
                             | Inr _ \<Rightarrow> (Inr (Some secretName), w2))))"

text \<open>The owner reference every \<^verbatim>\<open>mutate\<close> function sets on a new object.\<close>

definition own_if_new :: "'s flux_env \<Rightarrow> ArtifactDeployment \<Rightarrow> ObjectMeta \<Rightarrow> OwnerReference list result" where
  "own_if_new E dep meta =
     (if CreationTimestamp meta = None then SetOwner E dep meta else Inr (OwnerReferences meta))"

section \<open>Conditions\<close>

text \<open>The loop of the four functions that carry conditions over; \<open>[]\<close> means no counterpart.\<close>

fun map_conditions ::
  "'s flux_env \<Rightarrow> (string \<Rightarrow> string) \<Rightarrow> Condition list \<Rightarrow> ArtifactDeployment \<Rightarrow> 's flux_world \<Rightarrow>
   ArtifactDeployment \<times> 's flux_world" where
  "map_conditions E conv [] dep w = (dep, w)"
| "map_conditions E conv (c # cs) dep w =
     (if conv (cType c) \<noteq> []
      then let (conds, w1) = set_condition E (adConditions dep) (conv (cType c)) (cStatus c) (cReason c) (cMessage c)
                 (Generation dep) w
           in map_conditions E conv cs (dep\<lparr>adConditions := conds\<rparr>) w1
      else map_conditions E conv cs dep w)"

definition mapHelmChartConditionType :: "konf_api \<Rightarrow> string \<Rightarrow> string" where
  "mapHelmChartConditionType K t = (if t = conditionTypeReady then ArtifactFetchedCondition K else '''')"

definition mapHelmReleaseConditionType :: "konf_api \<Rightarrow> string \<Rightarrow> string" where
  "mapHelmReleaseConditionType K t =
     (if t = conditionTypeReady then ArtifactDeployedCondition K
      else if t = ''Released'' then AppHealthyCondition K else '''')"

definition mapOCIRepositoryConditionType :: "konf_api \<Rightarrow> string \<Rightarrow> string" where
  "mapOCIRepositoryConditionType K t = (if t = conditionTypeReady then ArtifactFetchedCondition K else '''')"

definition mapKustomizationConditionType :: "konf_api \<Rightarrow> string \<Rightarrow> string" where
  "mapKustomizationConditionType K t =
     (if t = conditionTypeReady then ArtifactDeployedCondition K
      else if t = ''Healthy'' then AppHealthyCondition K else '''')"

section \<open>The reconcilers\<close>

text \<open>
  A reconciler returns whether the object is ready or an error, with the deployment, whose
  conditions it may have changed.
\<close>

definition mutateHelmRepository ::
  "'s flux_env \<Rightarrow> ArtifactDeployment \<Rightarrow> HelmChartResource \<Rightarrow> HelmRepository \<Rightarrow> 's flux_world \<Rightarrow>
   HelmRepository result \<times> 's flux_world" where
  "mutateHelmRepository E dep res repo w =
     (case own_if_new E dep (ObjectMeta.truncate repo) of
        Inl e \<Rightarrow> (Inl (ErrWrap ''failed to set owner reference on HelmRepository: '' e), w)
      | Inr refs \<Rightarrow>
          (let (s, w1) = getSecretRef E dep (hcRepository res) w
           in case s of
                Inl e \<Rightarrow> (Inl (ErrWrap ''failed to resolve secretRef for Helm Repository: '' e), w1)
              | Inr secretRef \<Rightarrow>
                  (Inr (repo\<lparr>OwnerReferences := refs,
                     hrepSpec := \<lparr>hrsInterval = GetReconcileInterval (Namespace dep), hrsURL = hcRepository res,
                       hrsInsecure = isInsecure dep \<or> hcInsecure res, hrsSecretRef = secretRef,
                       hrsType = (if HasPrefix (hcRepository res) ''oci://'' then HelmRepositoryTypeOCI E else '''')\<rparr>\<rparr>), w1)))"

definition HelmRepository_Reconcile ::
  "'s flux_env \<Rightarrow> ArtifactDeployment \<Rightarrow> HelmChartResource \<Rightarrow> 's flux_world \<Rightarrow>
   (bool result \<times> ArtifactDeployment) \<times> 's flux_world" where
  "HelmRepository_Reconcile E dep res w =
     (let (r, w1) = CreateOrUpdate (LoadHelmRepository E (dep_key dep)) (EvLoadHelmRepository (dep_key dep))
            (StoreHelmRepository E) EvStoreHelmRepository (mutateHelmRepository E dep res) w
      in case r of
           Inl e \<Rightarrow> ((Inl (ErrWrap ''failed to reconcile HelmRepository: '' e), dep), w1)
         | Inr (repo, operationResult) \<Rightarrow>
             ((Inr True, dep), emit (EvFluxRecorded ''HelmRepositoryReconciled''
               (''HelmRepository '' @ Name repo @ '' '' @ operationResult)) w1))"

definition mutateOCIRepository ::
  "'s flux_env \<Rightarrow> ArtifactDeployment \<Rightarrow> KustomizeResource \<Rightarrow> OCIRepository \<Rightarrow> 's flux_world \<Rightarrow>
   OCIRepository result \<times> 's flux_world" where
  "mutateOCIRepository E dep res repo w =
     (case own_if_new E dep (ObjectMeta.truncate repo) of
        Inl e \<Rightarrow> (Inl (ErrWrap ''failed to set owner reference on OCIRepository: '' e), w)
      | Inr refs \<Rightarrow>
          (let (s, w1) = getSecretRef E dep (kzRepository res) w
           in case s of
                Inl e \<Rightarrow> (Inl (ErrWrap ''failed to resolve secretRef for OCI Repository: '' e), w1)
              | Inr secretRef \<Rightarrow>
                  (Inr (repo\<lparr>OwnerReferences := refs,
                     ociSpec := \<lparr>osInterval = GetReconcileInterval (Namespace dep), osURL = kzRepository res,
                       osInsecure = isInsecure dep \<or> kzInsecure res, osSecretRef = secretRef, osTag = kzTag res\<rparr>\<rparr>), w1)))"

definition OCIRepository_Reconcile ::
  "'s flux_env \<Rightarrow> ArtifactDeployment \<Rightarrow> KustomizeResource \<Rightarrow> 's flux_world \<Rightarrow>
   (bool result \<times> ArtifactDeployment) \<times> 's flux_world" where
  "OCIRepository_Reconcile E dep res w =
     (let (r, w1) = CreateOrUpdate (LoadOCIRepository E (dep_key dep)) (EvLoadOCIRepository (dep_key dep))
            (StoreOCIRepository E) EvStoreOCIRepository (mutateOCIRepository E dep res) w
      in case r of
           Inl e \<Rightarrow> ((Inl (ErrWrap ''failed to reconcile OCIRepository: '' e), dep), w1)
         | Inr (repo, operationResult) \<Rightarrow>
             (let w2 = emit (EvFluxRecorded ''OCIRepositoryReconciled''
                    (''OCIRepository '' @ Name repo @ '' '' @ operationResult)) w1;
                  (dep', w3) = map_conditions E (mapOCIRepositoryConditionType (Api E)) (ociConditions repo) dep w2
              in ((Inr (IsStatusConditionTrue (Lib E) (ociConditions repo) ''Ready''), dep'), w3)))"

definition mutateHelmRelease ::
  "'s flux_env \<Rightarrow> ArtifactDeployment \<Rightarrow> HelmChartResource \<Rightarrow> HelmRelease \<Rightarrow> 's flux_world \<Rightarrow>
   HelmRelease result \<times> 's flux_world" where
  "mutateHelmRelease E dep res release w =
     (case own_if_new E dep (ObjectMeta.truncate release) of
        Inl e \<Rightarrow> (Inl (ErrWrap ''failed to set owner reference on HelmRelease: '' e), w)
      | Inr refs \<Rightarrow>
          (let (k, w1) = GetKubeConfigRef E (Namespace dep) (adArtifactType dep) w
           in case k of
                Inl e \<Rightarrow> (Inl e, w1)
              | Inr kubeConfig \<Rightarrow>
                  (Inr (release\<lparr>OwnerReferences := refs,
                     hrelSpec := \<lparr>rsInterval = GetReconcileInterval (Namespace dep),
                       rsSourceRef = \<lparr>srKind = HelmRepositoryKind E, srNamespace = Namespace dep, srName = Name dep\<rparr>,
                       rsChart = hcChartName res, rsVersion = hcVersion res, rsReleaseName = Name dep,
                       rsKubeConfig = kubeConfig, rsTargetNamespace = GetTargetNamespace (Namespace dep),
                       rsStorageNamespace = GetTargetNamespace (Namespace dep),
                       rsDriftDetection = GetHelmDriftDetectionMode E (Namespace dep),
                       rsInstallTimeout = GetHelmInstallConfig (Namespace dep),
                       rsCommonLabels = [(''konfidence.cloud/artifact-deployment'', Name dep)]\<rparr>\<rparr>), w1)))"

definition getHelmChart :: "'s flux_env \<Rightarrow> ArtifactDeployment \<Rightarrow> 's flux_world \<Rightarrow> HelmChart option \<times> 's flux_world" where
  "getHelmChart E dep w =
     (let key = nsname (Namespace dep) (Namespace dep @ ''-'' @ Name dep);
          (g, w1) = call (GetHelmChart E key) (EvGetHelmChart key) w
      in (case g of Inl _ \<Rightarrow> None | Inr chart \<Rightarrow> Some chart, w1))"

definition mapStatusConditionsFromHelmChart ::
  "'s flux_env \<Rightarrow> HelmChart \<Rightarrow> ArtifactDeployment \<Rightarrow> 's flux_world \<Rightarrow> (bool \<times> ArtifactDeployment) \<times> 's flux_world" where
  "mapStatusConditionsFromHelmChart E chart dep w =
     (let (dep', w1) = map_conditions E (mapHelmChartConditionType (Api E)) (hchConditions chart) dep w
      in ((IsStatusConditionTrue (Lib E) (hchConditions chart) conditionTypeReady, dep'), w1))"

definition HelmRelease_Reconcile ::
  "'s flux_env \<Rightarrow> ArtifactDeployment \<Rightarrow> HelmChartResource \<Rightarrow> 's flux_world \<Rightarrow>
   (bool result \<times> ArtifactDeployment) \<times> 's flux_world" where
  "HelmRelease_Reconcile E dep res w =
     (let (r, w1) = CreateOrUpdate (LoadHelmRelease E (dep_key dep)) (EvLoadHelmRelease (dep_key dep))
            (StoreHelmRelease E) EvStoreHelmRelease (mutateHelmRelease E dep res) w
      in case r of
           Inl e \<Rightarrow> ((Inl (ErrWrap ''failed to reconcile HelmRelease: '' e), dep), w1)
         | Inr (release, _) \<Rightarrow>
             (let (c, w2) = getHelmChart E dep w1;
                  (dep', w3) =
                    (case c of
                       None \<Rightarrow> (dep, w2)
                     | Some chart \<Rightarrow>
                         (let ((isReady, dep1), w4) = mapStatusConditionsFromHelmChart E chart dep w2
                          in if isReady
                             then map_conditions E (mapHelmReleaseConditionType (Api E)) (hrelConditions release) dep1 w4
                             else (dep1, w4)))
              in ((Inr (IsStatusConditionTrue (Lib E) (hrelConditions release) conditionTypeReady), dep'), w3)))"

definition mutateKustomization ::
  "'s flux_env \<Rightarrow> ArtifactDeployment \<Rightarrow> KustomizeResource \<Rightarrow> Kustomization \<Rightarrow> 's flux_world \<Rightarrow>
   Kustomization result \<times> 's flux_world" where
  "mutateKustomization E dep res kustomization w =
     (case own_if_new E dep (ObjectMeta.truncate kustomization) of
        Inl e \<Rightarrow> (Inl (ErrWrap ''failed to set owner reference on Kustomization: '' e), w)
      | Inr refs \<Rightarrow>
          (let (k, w1) = GetKubeConfigRef E (Namespace dep) (adArtifactType dep) w
           in case k of
                Inl e \<Rightarrow> (Inl e, w1)
              | Inr kubeConfig \<Rightarrow>
                  (Inr (kustomization\<lparr>OwnerReferences := refs,
                     kusSpec := \<lparr>ksInterval = GetReconcileInterval (Namespace dep),
                       ksSourceRef = \<lparr>srKind = OCIRepositoryKind E, srNamespace = Namespace dep, srName = Name dep\<rparr>,
                       ksPath = kzPath res, ksKubeConfig = kubeConfig,
                       ksTargetNamespace = GetTargetNamespace (Namespace dep),
                       ksNameSuffix = buildKustomizationNameSuffix E dep, ksPrune = True, ksWait = True,
                       ksCommonLabels = [(''konfidence.cloud/artifact-deployment'', Name dep)]\<rparr>\<rparr>), w1)))"

definition Kustomization_Reconcile ::
  "'s flux_env \<Rightarrow> ArtifactDeployment \<Rightarrow> KustomizeResource \<Rightarrow> 's flux_world \<Rightarrow>
   (bool result \<times> ArtifactDeployment) \<times> 's flux_world" where
  "Kustomization_Reconcile E dep res w =
     (let (r, w1) = CreateOrUpdate (LoadKustomization E (dep_key dep)) (EvLoadKustomization (dep_key dep))
            (StoreKustomization E) EvStoreKustomization (mutateKustomization E dep res) w
      in case r of
           Inl e \<Rightarrow> ((Inl (ErrWrap ''failed to reconcile Kustomization: '' e), dep), w1)
         | Inr (kustomization, operationResult) \<Rightarrow>
             (let w2 = emit (EvFluxRecorded ''ReconciledKustomization''
                    (''Kustomization '' @ Name kustomization @ '' '' @ operationResult)) w1;
                  (dep', w3) = map_conditions E (mapKustomizationConditionType (Api E)) (kusConditions kustomization) dep w2
              in ((Inr (IsStatusConditionTrue (Lib E) (kusConditions kustomization) conditionTypeReady), dep'), w3)))"

end
