(* ===== verification/Flux_Status.thy ===== *)
theory Flux_Status
  imports Flux_Deployer Route_Rules
begin

text \<open>
  The status updaters of the Flux deployer
  (\<^verbatim>\<open>internal/fluxdeployer/internal/controller/deployment_result_status_updater.go\<close> and
  \<^verbatim>\<open>ready_condition_status_updater.go\<close>): the Services of a deployed artifact are checked and published
  as deployment results, and the deployment becomes ready.

  The lemmas connect this end of the wire format to the other one: what a deployment publishes is
  what the activation controller decodes and routes.
\<close>

section \<open>Constants\<close>

definition ocmResourceTypeHelmChart :: string where
  "ocmResourceTypeHelmChart = ''helmChart''"

definition ocmResourceTypeKustomize :: string where
  "ocmResourceTypeKustomize = ''kustomize''"

definition labelArtifactDeployment :: string where
  "labelArtifactDeployment = ''konfidence.cloud/artifact-deployment''"

definition annotationDeploymentResult :: string where
  "annotationDeploymentResult = ''konfidence.cloud/deployment-result''"

definition fluxAnnotationExposedPortName :: string where
  "fluxAnnotationExposedPortName = ''konfidence.cloud/exposed-port-name''"

definition stalledReasonExposePortNotFound :: string where
  "stalledReasonExposePortNotFound = ''ExposePortNotFound''"

definition stalledReasonExposePortUnsupportedProtocol :: string where
  "stalledReasonExposePortUnsupportedProtocol = ''ExposePortUnsupportedProtocol''"

section \<open>Checking and publishing Services\<close>

record exposureValidationError =
  evReason :: string
  evMessage :: string

definition hasDeploymentResultName :: "Service \<Rightarrow> bool" where
  "hasDeploymentResultName service \<longleftrightarrow> go_index (Annotations service) annotationDeploymentResult \<noteq> []"

definition formatAvailablePorts :: "ServicePort list \<Rightarrow> string" where
  "formatAvailablePorts ports =
     (if ports = [] then ''none''
      else Join (map (\<lambda>p. go_quote (spName p) @ ''/'' @ spProtocol p) ports) '', '')"

fun validateExposePorts :: "string \<Rightarrow> Service list \<Rightarrow> exposureValidationError option" where
  "validateExposePorts tcp [] = None"
| "validateExposePorts tcp (service # services) =
     (if \<not> hasDeploymentResultName service then validateExposePorts tcp services
      else
        (let selectedPort = go_index (Annotations service) fluxAnnotationExposedPortName
         in if selectedPort = [] then validateExposePorts tcp services
            else case find (\<lambda>p. spName p = selectedPort) (svcPorts service) of
              None \<Rightarrow> Some \<lparr>evReason = stalledReasonExposePortNotFound,
                evMessage = ''Service '' @ go_quote (Name service) @ '': annotation ''
                  @ go_quote fluxAnnotationExposedPortName @ '' names port '' @ go_quote selectedPort
                  @ '', but no Service port has that name (available ports: '' @ formatAvailablePorts (svcPorts service) @ '')''\<rparr>
            | Some matchedPort \<Rightarrow>
                if spProtocol matchedPort \<noteq> tcp
                then Some \<lparr>evReason = stalledReasonExposePortUnsupportedProtocol,
                  evMessage = ''Service '' @ go_quote (Name service) @ '': annotation ''
                    @ go_quote fluxAnnotationExposedPortName @ '' names port '' @ go_quote selectedPort
                    @ '', which uses unsupported protocol '' @ go_quote (spProtocol matchedPort) @ '' (only TCP is supported)''\<rparr>
                else validateExposePorts tcp services))"

definition service_spec :: "Service \<Rightarrow> ServiceSpec" where
  "service_spec service = \<lparr>ssNamespace = Namespace service, ssK8sName = Name service, ssServicePorts = svcPorts service,
     ssIngressExposedPortName = go_index (Annotations service) fluxAnnotationExposedPortName\<rparr>"

text \<open>\<^verbatim>\<open>json.Marshal\<close> of the specification; it fails where encoding the ports fails.\<close>

definition marshal_spec :: "(ServicePort list \<Rightarrow> json result) \<Rightarrow> ServiceSpec \<Rightarrow> string result" where
  "marshal_spec enc spec =
     (case enc (ssServicePorts spec) of
        Inl e \<Rightarrow> Inl e
      | Inr ports \<Rightarrow> Inr (json_print (encode_ServiceSpec (\<lambda>_. ports) spec)))"

fun results_loop ::
  "(ServicePort list \<Rightarrow> json result) \<Rightarrow> string gomap \<Rightarrow> DeploymentResult list \<Rightarrow> Service list \<Rightarrow> DeploymentResult list result" where
  "results_loop enc seen results [] = Inr results"
| "results_loop enc seen results (service # services) =
     (if \<not> hasDeploymentResultName service then results_loop enc seen results services
      else
        (let resultName = go_index (Annotations service) annotationDeploymentResult;
             key = resultName @ [CHR 0x00] @ TypeHTTPK8sService
         in case map_of seen key of
              Some first \<Rightarrow> Inl (ErrMsg (''services '' @ go_quote first @ '' and '' @ go_quote (Name service)
                @ '' both declare deployment result (name='' @ go_quote resultName @ '', type='' @ go_quote TypeHTTPK8sService
                @ ''); the pair must be unique''))
            | None \<Rightarrow>
                (case marshal_spec enc (service_spec service) of
                   Inl e \<Rightarrow> Inl (ErrWrap ''failed to marshal deploymentResultServiceSpec: '' e)
                 | Inr raw \<Rightarrow>
                     results_loop enc (AList.update key (Name service) seen)
                       (results @ [\<lparr>drName = resultName, drType = TypeHTTPK8sService, drSpec = raw\<rparr>]) services)))"

definition mapServicesToDeploymentResults ::
  "(ServicePort list \<Rightarrow> json result) \<Rightarrow> Service list \<Rightarrow> DeploymentResult list result" where
  "mapServicesToDeploymentResults enc services = results_loop enc [] [] services"

section \<open>The updaters\<close>

definition fetchExposableServices ::
  "'s flux_env \<Rightarrow> ArtifactDeployment \<Rightarrow> 's flux_world \<Rightarrow> Service list result \<times> 's flux_world" where
  "fetchExposableServices E dep w =
     (case LabelSelectorAsSelector E [(labelArtifactDeployment, SanitizeK8sResourceName (LowerTable E) (Name dep))] of
        Inl e \<Rightarrow> (Inl (ErrWrap ''failed to create Selector: '' e), w)
      | Inr selector \<Rightarrow>
          (let (l, w1) = call (ListServices E (Namespace dep) selector) (EvListServices (Namespace dep) selector) w
           in case l of
                Inl e \<Rightarrow> (Inl (ErrWrap ''failed to list services by label selector: '' e), w1)
              | Inr services \<Rightarrow> (Inr services, w1)))"

definition hasExposureValidationFailure :: "'s flux_env \<Rightarrow> ArtifactDeployment \<Rightarrow> bool" where
  "hasExposureValidationFailure E dep =
     (case FindStatusCondition (Lib E) (adConditions dep) (StalledCondition (Api E)) of
        None \<Rightarrow> False
      | Some stalled \<Rightarrow>
          if cStatus stalled \<noteq> ConditionTrue then False
          else cReason stalled = stalledReasonExposePortNotFound \<or> cReason stalled = stalledReasonExposePortUnsupportedProtocol)"

definition setExposureValidationFailure ::
  "'s flux_env \<Rightarrow> exposureValidationError \<Rightarrow> ArtifactDeployment \<Rightarrow> 's flux_world \<Rightarrow> ArtifactDeployment \<times> 's flux_world" where
  "setExposureValidationFailure E err dep w =
     (let (now, w1) = silent (Now E) w;
          cs = fold (\<lambda>(ty, status) cs. SetStatusCondition (Lib E) now cs
                 \<lparr>cType = ty, cStatus = status, cReason = evReason err, cMessage = evMessage err,
                  cObservedGeneration = Generation dep, cLastTransitionTime = Some now\<rparr>)
            [(DeploymentResultCreatedCondition (Api E), ConditionFalse),
             (ArtifactDeploymentReadyCondition (Api E), ConditionFalse),
             (StalledCondition (Api E), ConditionTrue)] (adConditions dep)
      in (dep\<lparr>adResults := None, adConditions := cs\<rparr>, w1))"

definition DeploymentResult_MutateStatus ::
  "'s flux_env \<Rightarrow> ArtifactDeployment \<Rightarrow> 's flux_world \<Rightarrow> (go_error option \<times> ArtifactDeployment) \<times> 's flux_world" where
  "DeploymentResult_MutateStatus E dep w =
     (if hasExposureValidationFailure E dep then ((None, dep), w)
      else if \<not> IsStatusConditionTrue (Lib E) (adConditions dep) (ArtifactDeployedCondition (Api E)) then ((None, dep), w)
      else
        (let (l, w1) = fetchExposableServices E dep w
         in case l of
              Inl e \<Rightarrow> ((Some e, dep), w1)
            | Inr services \<Rightarrow>
                (case validateExposePorts (FluxTCP E) services of
                   Some err \<Rightarrow> (let (dep', w2) = setExposureValidationFailure E err dep w1 in ((None, dep'), w2))
                 | None \<Rightarrow>
                     (case mapServicesToDeploymentResults (EncodePorts E) services of
                        Inl e \<Rightarrow> ((Some e, dep), w1)
                      | Inr results \<Rightarrow>
                          (let (cs, w2) = set_condition E (adConditions dep) (DeploymentResultCreatedCondition (Api E))
                                 ConditionTrue (DeploymentResultCreatedCondition (Api E))
                                 ''Successfully created DeploymentResult'' (Generation dep) w1
                           in ((None, dep\<lparr>adResults := Some results, adConditions := cs\<rparr>), w2))))))"

definition Ready_MutateStatus ::
  "'s flux_env \<Rightarrow> ArtifactDeployment \<Rightarrow> 's flux_world \<Rightarrow> (go_error option \<times> ArtifactDeployment) \<times> 's flux_world" where
  "Ready_MutateStatus E dep w =
     (if IsStatusConditionTrue (Lib E) (adConditions dep) (StalledCondition (Api E)) then ((None, dep), w)
      else if IsStatusConditionTrue (Lib E) (adConditions dep) (AppHealthyCondition (Api E)) \<and>
              IsStatusConditionTrue (Lib E) (adConditions dep) (DeploymentResultCreatedCondition (Api E))
      then (let (cs, w1) = set_condition E (adConditions dep) (ArtifactDeploymentReadyCondition (Api E)) ConditionTrue
                  (ArtifactDeploymentReadyCondition (Api E)) ''Successfully reconciled ArtifactDeployment'' (Generation dep) w
            in ((None, dep\<lparr>adConditions := cs\<rparr>), w1))
      else ((None, dep), w))"

section \<open>The wire format\<close>

text \<open>
  What both ends rely on of the codec of a list of ports: an encoded list is well-formed JSON that
  nests no deeper than the decoder allows inside a specification, and decoding it gives the list back.
\<close>

definition port_codec_ok :: "json_env \<Rightarrow> (ServicePort list \<Rightarrow> json result) \<Rightarrow> bool" where
  "port_codec_ok J enc \<longleftrightarrow>
     (\<forall>ps j. enc ps = Inr j \<longrightarrow> json_wf j \<and> json_depth j < maxNestingDepth \<and> DecodeServicePorts J [] j = Some ps)"

definition spec_strings_valid :: "ServiceSpec \<Rightarrow> bool" where
  "spec_strings_valid s \<longleftrightarrow>
     ValidString (ssNamespace s) \<and> ValidString (ssK8sName s) \<and> ValidString (ssIngressExposedPortName s)"

lemma field_fold_ascii:
  assumes "list_all (\<lambda>c. byte c < 0x80) s" and "list_all (\<lambda>c. byte c < 0x80) t"
  shows "EqualFold foldU s t \<longleftrightarrow> map (fold_rune (\<lambda>r. r)) (map byte s) = map (fold_rune (\<lambda>r. r)) (map byte t)"
proof -
  have "map (fold_rune foldU) (map byte u) = map (fold_rune (\<lambda>r. r)) (map byte u)"
    if "list_all (\<lambda>c. byte c < 0x80) u" for u
    using that by (induction u) (auto simp: fold_rune_def)
  then show ?thesis using assms by (simp only: EqualFold_def runes_ascii)
qed

lemma spec_fields:
  "EqualFold foldU ''Namespace'' ''Namespace''"
  "\<not> EqualFold foldU ''K8sName'' ''Namespace''" "EqualFold foldU ''K8sName'' ''K8sName''"
  "\<not> EqualFold foldU ''ServicePorts'' ''Namespace''" "\<not> EqualFold foldU ''ServicePorts'' ''K8sName''"
  "EqualFold foldU ''ServicePorts'' ''ServicePorts''"
  "\<not> EqualFold foldU ''IngressExposedPortName'' ''Namespace''" "\<not> EqualFold foldU ''IngressExposedPortName'' ''K8sName''"
  "\<not> EqualFold foldU ''IngressExposedPortName'' ''ServicePorts''"
  "EqualFold foldU ''IngressExposedPortName'' ''IngressExposedPortName''"
  by (subst field_fold_ascii; simp add: byte_def fold_rune_def)+

lemma field_names_plain:
  "unquote ''Namespace'' = ''Namespace''" "unquote ''K8sName'' = ''K8sName''"
  "unquote ''ServicePorts'' = ''ServicePorts''" "unquote ''IngressExposedPortName'' = ''IngressExposedPortName''"
  "raw_ok ''Namespace''" "raw_ok ''K8sName''" "raw_ok ''ServicePorts''" "raw_ok ''IngressExposedPortName''"
  by (simp_all add: unquote_plain byte_def bslash_def raw_ok_def dquote_def)

lemma encode_ServiceSpec_parse:
  assumes "json_wf ports" and "json_depth ports < maxNestingDepth"
  shows "json_parse (json_print (encode_ServiceSpec (\<lambda>_. ports) s)) = Some (encode_ServiceSpec (\<lambda>_. ports) s)"
proof (rule parse_print)
  show "json_wf (encode_ServiceSpec (\<lambda>_. ports) s)"
    using assms(1) by (simp add: encode_ServiceSpec_def field_names_plain raw_ok_quote_string)
  show "json_depth (encode_ServiceSpec (\<lambda>_. ports) s) \<le> maxNestingDepth"
    using assms(2) by (simp add: encode_ServiceSpec_def maxNestingDepth_def)
qed

lemma decode_encode_ServiceSpec:
  assumes "port_codec_ok J enc" and "spec_strings_valid s" and "marshal_spec enc s = Inr raw"
  shows "unmarshal_ServiceSpec J raw = Inr s"
proof -
  obtain ports where ports: "enc (ssServicePorts s) = Inr ports"
    and raw: "raw = json_print (encode_ServiceSpec (\<lambda>_. ports) s)"
    using assms(3) by (auto simp: marshal_spec_def split: sum.splits)
  have codec: "json_wf ports" "json_depth ports < maxNestingDepth" "DecodeServicePorts J [] ports = Some (ssServicePorts s)"
    using assms(1) ports unfolding port_codec_ok_def by auto
  have "decode_members (set_ServiceSpec J) zero_ServiceSpec (case encode_ServiceSpec (\<lambda>_. ports) s of JObj kvs \<Rightarrow> kvs) = Some s"
    using assms(2) codec(3)
    by (simp add: encode_ServiceSpec_def field_names_plain set_ServiceSpec_def spec_fields decode_string_def
        zero_ServiceSpec_def unquote_quote_valid spec_strings_valid_def)
  then show ?thesis
    by (simp add: unmarshal_ServiceSpec_def unmarshal_struct_def raw encode_ServiceSpec_parse [OF codec(1,2)])
      (simp add: encode_ServiceSpec_def)
qed

text \<open>
  C30. Encoding and decoding a service specification: what a deployment publishes for a Service
  whose names are valid UTF-8 is read back by the activation controller as the same specification.
\<close>

theorem ServiceSpec_roundtrip:
  assumes "port_codec_ok J enc" and "spec_strings_valid s" and "marshal_spec enc s = Inr raw"
  shows "unmarshal_ServiceSpec J raw = Inr s"
  using assms by (rule decode_encode_ServiceSpec)

section \<open>From Services to routes\<close>

abbreviation result_name :: "Service \<Rightarrow> string" where
  "result_name service \<equiv> go_index (Annotations service) annotationDeploymentResult"

abbreviation exposed_port :: "Service \<Rightarrow> string" where
  "exposed_port service \<equiv> go_index (Annotations service) fluxAnnotationExposedPortName"

lemma validateExposePorts_None:
  "validateExposePorts tcp services = None \<longleftrightarrow>
     (\<forall>s \<in> set services. hasDeploymentResultName s \<and> exposed_port s \<noteq> [] \<longrightarrow>
        (\<exists>p. find (\<lambda>p. spName p = exposed_port s) (svcPorts s) = Some p \<and> spProtocol p = tcp))"
  by (induction services) (auto simp: Let_def split: option.splits)

definition result_of :: "(ServicePort list \<Rightarrow> json result) \<Rightarrow> Service \<Rightarrow> DeploymentResult \<Rightarrow> bool" where
  "result_of enc s r \<longleftrightarrow> drName r = result_name s \<and> drType r = TypeHTTPK8sService \<and>
     marshal_spec enc (service_spec s) = Inr (drSpec r)"

abbreviation seen_key :: "string \<Rightarrow> string" where
  "seen_key n \<equiv> n @ [CHR 0x00] @ TypeHTTPK8sService"

lemma results_loop_Inr:
  "results_loop enc seen acc services = Inr rs \<longleftrightarrow>
     (\<exists>new. rs = acc @ new \<and> list_all2 (result_of enc) (filter hasDeploymentResultName services) new \<and>
        distinct (map drName new) \<and> (\<forall>r \<in> set new. map_of seen (seen_key (drName r)) = None))"
proof (induction services arbitrary: seen acc)
  case Nil
  then show ?case by auto
next
  case (Cons s ss)
  show ?case
  proof (cases "hasDeploymentResultName s")
    case False
    with Cons show ?thesis by simp
  next
    case True
    show ?thesis
    proof (cases "map_of seen (seen_key (result_name s)) = None \<and> (\<exists>raw. marshal_spec enc (service_spec s) = Inr raw)")
      case False
      with True show ?thesis
        by (auto simp: Let_def result_of_def list_all2_Cons1 split: option.splits sum.splits)
    next
      case fresh: True
      then obtain raw where raw: "map_of seen (seen_key (result_name s)) = None"
        "marshal_spec enc (service_spec s) = Inr raw" by blast
      let ?r = "\<lparr>drName = result_name s, drType = TypeHTTPK8sService, drSpec = raw\<rparr>"
      have r: "result_of enc s r \<longleftrightarrow> r = ?r" for r using raw(2) by (auto simp: result_of_def)
      have step: "results_loop enc seen acc (s # ss) =
          results_loop enc (AList.update (seen_key (result_name s)) (Name s) seen) (acc @ [?r]) ss"
        using True raw by (simp add: Let_def)
      have "map_of (AList.update (seen_key (result_name s)) (Name s) seen) (seen_key n) = None \<longleftrightarrow>
          n \<noteq> result_name s \<and> map_of seen (seen_key n) = None" for n
        by (simp add: update_conv)
      then show ?thesis unfolding step Cons.IH
        using True raw(1) by (auto simp: list_all2_Cons1 r image_iff) metis+
    qed
  qed
qed

lemma mapServices_Inr:
  "mapServicesToDeploymentResults enc services = Inr rs \<longleftrightarrow>
     list_all2 (result_of enc) (filter hasDeploymentResultName services) rs \<and> distinct (map drName rs)"
  by (simp add: mapServicesToDeploymentResults_def results_loop_Inr)

text \<open>
  C29. The type of published results: one result per Service that opted in, in order, each an HTTP
  service with a non-empty name that no other result of the deployment has, and a well-formed
  specification. Publishing fails exactly when two Services share a name or a port list cannot be
  encoded.
\<close>

theorem mapServicesToDeploymentResults_correct:
  assumes "port_codec_ok J enc"
  shows "(\<forall>rs. mapServicesToDeploymentResults enc services = Inr rs \<longrightarrow>
      map drName rs = map result_name (filter hasDeploymentResultName services) \<and> distinct (map drName rs) \<and>
      (\<forall>r \<in> set rs. drName r \<noteq> [] \<and> drType r = TypeHTTPK8sService \<and> Valid (drSpec r))) \<and>
    ((\<exists>rs. mapServicesToDeploymentResults enc services = Inr rs) \<longleftrightarrow>
      distinct (map result_name (filter hasDeploymentResultName services)) \<and>
      (\<forall>s \<in> set services. hasDeploymentResultName s \<longrightarrow> (\<exists>j. enc (svcPorts s) = Inr j)))"
proof -
  let ?ss = "filter hasDeploymentResultName services"
  have names: "map drName rs = map result_name ss" if "list_all2 (result_of enc) ss rs" for ss rs
    using that by (induction rule: list_all2_induct) (auto simp: result_of_def)
  have sources: "\<forall>r \<in> set rs. \<exists>s \<in> set ss. result_of enc s r" if "list_all2 (result_of enc) ss rs" for ss rs
    using that by (induction rule: list_all2_induct) auto
  have valid: "Valid raw" if "marshal_spec enc (service_spec s) = Inr raw" for s raw
    using that assms by (auto simp: marshal_spec_def port_codec_ok_def Valid_def encode_ServiceSpec_parse split: sum.splits)
  have good: "map drName rs = map result_name ?ss \<and> distinct (map drName rs) \<and>
      (\<forall>r \<in> set rs. drName r \<noteq> [] \<and> drType r = TypeHTTPK8sService \<and> Valid (drSpec r))"
    if "mapServicesToDeploymentResults enc services = Inr rs" for rs
  proof (intro conjI ballI)
    note rs = that [unfolded mapServices_Inr]
    show "map drName rs = map result_name ?ss" by (rule names [OF rs [THEN conjunct1]])
    show "distinct (map drName rs)" by (rule rs [THEN conjunct2])
    fix r
    assume "r \<in> set rs"
    then obtain s where "s \<in> set ?ss" "result_of enc s r" using sources [OF rs [THEN conjunct1]] by blast
    then show "drName r \<noteq> []" "drType r = TypeHTTPK8sService" "Valid (drSpec r)"
      using valid [of s] by (simp_all add: result_of_def hasDeploymentResultName_def)
  qed
  have encodable: "(\<exists>raw. marshal_spec enc (service_spec s) = Inr raw) \<longleftrightarrow> (\<exists>j. enc (svcPorts s) = Inr j)" for s
    by (auto simp: marshal_spec_def service_spec_def split: sum.splits)
  have exists: "(\<exists>rs. list_all2 (result_of enc) ss rs) \<longleftrightarrow> (\<forall>s \<in> set ss. \<exists>j. enc (svcPorts s) = Inr j)" for ss
  proof (induction ss)
    case (Cons s ss)
    have "(\<exists>r. result_of enc s r) \<longleftrightarrow> (\<exists>j. enc (svcPorts s) = Inr j)"
      unfolding result_of_def encodable [symmetric] by (metis DeploymentResult.select_convs)
    with Cons show ?case by (auto simp: list_all2_Cons1)
  qed simp
  have "(\<exists>rs. mapServicesToDeploymentResults enc services = Inr rs) \<longleftrightarrow>
      distinct (map result_name ?ss) \<and> (\<forall>s \<in> set services. hasDeploymentResultName s \<longrightarrow> (\<exists>j. enc (svcPorts s) = Inr j))"
    unfolding mapServices_Inr using names exists [of ?ss]
    by (metis (no_types, lifting) mem_Collect_eq set_filter)
  with good show ?thesis by blast
qed

text \<open>The target a Service asks for.\<close>

definition service_target :: "Service \<Rightarrow> routeTarget option" where
  "service_target s =
     (if hasDeploymentResultName s \<and> exposed_port s \<noteq> []
      then map_option (\<lambda>p. \<lparr>tgName = result_name s, tgService = Name s, tgPort = spPort p\<rparr>)
        (find (\<lambda>p. spName p = exposed_port s) (svcPorts s))
      else None)"

text \<open>A list of results as the status updater publishes it for a list of Services.\<close>

definition published ::
  "string \<Rightarrow> (ServicePort list \<Rightarrow> json result) \<Rightarrow> Service list \<Rightarrow> DeploymentResult list \<Rightarrow> bool" where
  "published tcp enc services rs \<longleftrightarrow>
     validateExposePorts tcp services = None \<and> mapServicesToDeploymentResults enc services = Inr rs \<and>
     (\<forall>s \<in> set services. hasDeploymentResultName s \<longrightarrow> spec_strings_valid (service_spec s))"

lemma published_targets:
  assumes "port_codec_ok (Json R) enc" and "published (ProtocolTCP (Net R)) enc services rs"
  shows "list_all (\<lambda>r. \<not> isl (result_target R r)) rs" and
    "List.map_filter (routable R) rs = List.map_filter service_target services"
proof -
  let ?ok = "\<lambda>s. exposed_port s \<noteq> [] \<longrightarrow>
    (\<exists>p. find (\<lambda>p. spName p = exposed_port s) (svcPorts s) = Some p \<and> spProtocol p = ProtocolTCP (Net R))"
  have all: "list_all2 (result_of enc) (filter hasDeploymentResultName services) rs"
    "\<forall>s \<in> set (filter hasDeploymentResultName services). hasDeploymentResultName s \<and> ?ok s \<and> spec_strings_valid (service_spec s)"
    using assms(2) by (auto simp: published_def mapServices_Inr validateExposePorts_None)
  have one: "result_target R r = Inr (service_target s)"
    if "result_of enc s r" "hasDeploymentResultName s" "?ok s" "spec_strings_valid (service_spec s)" for s r
    using decode_encode_ServiceSpec [OF assms(1) that(4)] that(1,2,3)
    by (auto simp: result_of_def result_target_def service_target_def service_spec_def Let_def split: option.splits)
  have "list_all (\<lambda>r. \<not> isl (result_target R r)) rs \<and> List.map_filter (routable R) rs = List.map_filter service_target ss"
    if "list_all2 (result_of enc) ss rs"
      "\<forall>s \<in> set ss. hasDeploymentResultName s \<and> ?ok s \<and> spec_strings_valid (service_spec s)" for ss
    using that
  proof (induction rule: list_all2_induct)
    case (Cons s ss r rs)
    then have "result_target R r = Inr (service_target s)" by (intro one) auto
    then have "\<not> isl (result_target R r)" "routable R r = service_target s" by (simp_all add: routable_def)
    with Cons show ?case by (simp split: option.split)
  qed simp
  note both = this [OF all]
  then show "list_all (\<lambda>r. \<not> isl (result_target R r)) rs" by blast
  have "List.map_filter service_target (filter hasDeploymentResultName ss) = List.map_filter service_target ss" for ss
    by (induction ss) (auto simp: service_target_def split: option.split)
  with both show "List.map_filter (routable R) rs = List.map_filter service_target services" by simp
qed

text \<open>
  C26. From a Service to its route, across the two controllers: when every component of a vector
  published its results through the status updater, the activation controller never rejects them.
  It builds exactly one rule for every Service that opted in and names a port to expose, leading to
  that Service and port under the name of its result, and no other rule.
\<close>

theorem published_services_routed:
  assumes "port_codec_ok (Json R) enc" and "sort_slice_ok (SortSlice R)"
    and "\<forall>(component, rs) \<in> set (vdepDeploymentResults d). published (ProtocolTCP (Net R)) enc (services component) rs"
  shows "\<exists>rules. buildRouteRules R stage d = Inr rules \<and>
    mset rules = mset (map (route_rule (Net R) stage (Name d))
      (List.map_filter service_target (concat (map (\<lambda>(component, _). services component) (vdepDeploymentResults d)))))"
proof -
  have "list_all (\<lambda>r. \<not> isl (result_target R r)) (concat (map snd m)) \<and>
      List.map_filter (routable R) (concat (map snd m)) =
        List.map_filter service_target (concat (map (\<lambda>(component, _). services component) m))"
    if "\<forall>(component, rs) \<in> set m. published (ProtocolTCP (Net R)) enc (services component) rs" for m
    using that
  proof (induction m)
    case (Cons x m)
    obtain c rs where x: "x = (c, rs)" by (rule prod.exhaust)
    with Cons published_targets [OF assms(1), of "services c" rs] show ?case by simp
  qed simp
  from this [OF assms(3)] have "list_all (\<lambda>r. \<not> isl (result_target R r)) (all_results d)"
    and targets: "List.map_filter (routable R) (all_results d) =
      List.map_filter service_target (concat (map (\<lambda>(component, _). services component) (vdepDeploymentResults d)))"
    by (simp_all add: all_results_def)
  then have "buildRouteRules R stage d =
      Inr (map (route_rule (Net R) stage (Name d)) (SortSlice R (List.map_filter (routable R) (all_results d))))"
    by (simp add: buildRouteRules_Inr)
  moreover have "mset (SortSlice R ts) = mset ts" for ts using assms(2) by (simp add: sort_slice_ok_def)
  ultimately show ?thesis unfolding targets by (metis mset_map)
qed

end
