(* ===== verification/Flux_Controller.thy ===== *)
theory Flux_Controller
  imports Flux_Status
begin

text \<open>
  The two artifact deployment controllers of the Flux deployer,
  \<^verbatim>\<open>helm_artifactdeployment_controller.go\<close> and \<^verbatim>\<open>kustomize_artifactdeployment_controller.go\<close>.

  They are written against two interfaces, \<^verbatim>\<open>StatusUpdater\<close> and the pair \<^verbatim>\<open>FluxHelmReconciler\<close> and
  \<^verbatim>\<open>FluxKustomizeReconciler\<close>; the locales \<open>status_updater\<close> and \<open>flux_reconciler\<close> are the contracts
  behind them, and every implementation of the repository is an interpretation.
\<close>

section \<open>The controllers\<close>

definition artifactDeploymentRequeueInterval :: duration where
  "artifactDeploymentRequeueInterval = Minute"

fun matches_loop :: "string \<Rightarrow> OCMResource list \<Rightarrow> OCMResource list \<Rightarrow> OCMResource list" where
  "matches_loop ty acc [] = acc"
| "matches_loop ty acc (r # rs) = matches_loop ty (if ocmType r = ty then acc @ [r] else acc) rs"

text \<open>The status patch both controllers end with: nothing is sent when the status is unchanged.\<close>

definition patch_status ::
  "'s flux_env \<Rightarrow> ArtifactDeployment \<Rightarrow> ArtifactDeployment \<Rightarrow> 's flux_world \<Rightarrow> go_error option \<times> 's flux_world" where
  "patch_status E original dep w =
     (if (adConditions dep, adResults dep) \<noteq> (adConditions original, adResults original)
      then let (p, w1) = call (PatchDeploymentStatus E original dep) (EvPatchDeploymentStatus original dep) w
           in (case p of Inl e \<Rightarrow> (Some (ErrWrap ''unable to patch artifact deployment status: '' e), w1) | Inr _ \<Rightarrow> (None, w1))
      else (None, w))"

text \<open>More than one resource of the type: the deployment is refused.\<close>

definition refuse_message :: "string \<Rightarrow> nat \<Rightarrow> string" where
  "refuse_message ty n = ''expected exactly one OCM resource of type '' @ go_quote ty @ '', found '' @ nat_dec n
     @ ''; refusing to reconcile''"

definition refuse_multiple ::
  "'s flux_env \<Rightarrow> string \<Rightarrow> string \<Rightarrow> nat \<Rightarrow> ArtifactDeployment \<Rightarrow> 's flux_world \<Rightarrow> reconcile_ret \<times> 's flux_world" where
  "refuse_multiple E ty reason n dep w =
     (let msg = refuse_message ty n;
          (cs, w1) = set_condition E (adConditions dep) (ArtifactDeploymentReadyCondition (Api E)) ConditionFalse reason msg
            (Generation dep) w;
          (p, w2) = patch_status E dep (dep\<lparr>adConditions := cs\<rparr>) w1
      in case p of Some e \<Rightarrow> ((noResult, Some e), w2) | None \<Rightarrow> ((noResult, Some (ErrMsg msg)), w2))"

text \<open>The status updates and the patch after the Flux objects have been reconciled.\<close>

definition finish_status ::
  "'s flux_env \<Rightarrow> ArtifactDeployment \<Rightarrow> ArtifactDeployment \<Rightarrow> 's flux_world \<Rightarrow> reconcile_ret \<times> 's flux_world" where
  "finish_status E original dep w =
     (let ((_, dep1), w1) = DeploymentResult_MutateStatus E dep w;
          ((_, dep2), w2) = Ready_MutateStatus E dep1 w1;
          (p, w3) = patch_status E original dep2 w2
      in case p of
           Some e \<Rightarrow> ((noResult, Some e), w3)
         | None \<Rightarrow> ((\<lparr>RequeueAfter = artifactDeploymentRequeueInterval\<rparr>, None), w3))"

definition reconcile_chart ::
  "'s flux_env \<Rightarrow> OCMResource \<Rightarrow> ArtifactDeployment \<Rightarrow> 's flux_world \<Rightarrow> ArtifactDeployment \<times> 's flux_world" where
  "reconcile_chart E ocmResource dep w =
     (case ToHelm (FluxJson E) (Refs E) ocmResource of
        Inl _ \<Rightarrow> (dep, w)
      | Inr res \<Rightarrow>
          (let ((r, dep1), w1) = HelmRepository_Reconcile E dep res w
           in case r of
                Inl _ \<Rightarrow> (dep1, w1)
              | Inr _ \<Rightarrow> (let ((_, dep2), w2) = HelmRelease_Reconcile E dep1 res w1 in (dep2, w2))))"

definition reconcile_kustomize ::
  "'s flux_env \<Rightarrow> OCMResource \<Rightarrow> ArtifactDeployment \<Rightarrow> 's flux_world \<Rightarrow> ArtifactDeployment \<times> 's flux_world" where
  "reconcile_kustomize E ocmResource dep w =
     (case ToKustomize (FluxJson E) (Refs E) ocmResource of
        Inl _ \<Rightarrow> (dep, w)
      | Inr res \<Rightarrow>
          (let ((r, dep1), w1) = OCIRepository_Reconcile E dep res w
           in case r of
                Inl _ \<Rightarrow> (dep1, w1)
              | Inr isReady \<Rightarrow>
                  if isReady then let ((_, dep2), w2) = Kustomization_Reconcile E dep1 res w1 in (dep2, w2)
                  else (dep1, w1)))"

text \<open>
  The two \<^verbatim>\<open>Reconcile\<close> functions have the same shape: \<open>kind\<close> is the artifact type the controller is
  responsible for, \<open>ty\<close> the type of OCM resource it looks for, \<open>reason\<close> the reason it refuses several
  of them with.
\<close>

definition Deployment_Reconcile ::
  "'s flux_env \<Rightarrow> string \<Rightarrow> string \<Rightarrow> string \<Rightarrow>
   (OCMResource \<Rightarrow> ArtifactDeployment \<Rightarrow> 's flux_world \<Rightarrow> ArtifactDeployment \<times> 's flux_world) \<Rightarrow>
   NamespacedName \<Rightarrow> 's flux_world \<Rightarrow> reconcile_ret \<times> 's flux_world" where
  "Deployment_Reconcile E kind ty reason flux req w =
     (let (g, w1) = call (GetDeployment E req) (EvGetDeployment req) w
      in case g of
           Inl e \<Rightarrow>
             if IsNotFound e then ((noResult, None), w1)
             else ((noResult, Some (ErrWrap ''failed to get artifact deployment object: '' e)), w1)
         | Inr dep \<Rightarrow>
             if ArtifactTypeOf E dep \<noteq> kind then ((noResult, None), w1)
             else
               (let matches = matches_loop ty [] (adResources dep)
                in if length matches > 1 then refuse_multiple E ty reason (length matches) dep w1
                   else
                     (let (dep', w2) = (case matches of [] \<Rightarrow> (dep, w1) | m # _ \<Rightarrow> flux m dep w1)
                      in finish_status E dep dep' w2)))"

definition Helm_Reconcile :: "'s flux_env \<Rightarrow> NamespacedName \<Rightarrow> 's flux_world \<Rightarrow> reconcile_ret \<times> 's flux_world" where
  "Helm_Reconcile E = Deployment_Reconcile E ArtifactTypeHelm ocmResourceTypeHelmChart ''MultipleHelmChartResources''
     (reconcile_chart E)"

definition Kustomize_Reconcile :: "'s flux_env \<Rightarrow> NamespacedName \<Rightarrow> 's flux_world \<Rightarrow> reconcile_ret \<times> 's flux_world" where
  "Kustomize_Reconcile E = Deployment_Reconcile E ArtifactTypeKustomize ocmResourceTypeKustomize
     ''MultipleKustomizeResources'' (reconcile_kustomize E)"

section \<open>Frames\<close>

text \<open>Events that neither store a Flux object nor patch a status.\<close>

fun quiet :: "flux_event \<Rightarrow> bool" where
  "quiet (EvPatchDeploymentStatus _ _ _) = False"
| "quiet (EvStoreHelmRepository _ _) = False"
| "quiet (EvStoreOCIRepository _ _) = False"
| "quiet (EvStoreHelmRelease _ _) = False"
| "quiet (EvStoreKustomization _ _) = False"
| "quiet _ = True"

definition extends_by :: "(flux_event \<Rightarrow> bool) \<Rightarrow> 's flux_world \<Rightarrow> 's flux_world \<Rightarrow> bool" where
  "extends_by P w w' \<longleftrightarrow> (\<exists>evs. trace w' = trace w @ evs \<and> list_all P evs)"

lemma extends_by_refl [simp]: "extends_by P w w"
  by (simp add: extends_by_def)

lemma extends_by_trans: "extends_by P w w1 \<Longrightarrow> extends_by P w1 w2 \<Longrightarrow> extends_by P w w2"
  unfolding extends_by_def by (metis append_assoc list_all_append)

lemma extends_by_mono: "extends_by P w w' \<Longrightarrow> (\<And>x. P x \<Longrightarrow> Q x) \<Longrightarrow> extends_by Q w w'"
  unfolding extends_by_def by (metis list.pred_mono_strong)

lemma extends_by_call: "call f ev w = (r, w') \<Longrightarrow> P (ev r) \<Longrightarrow> extends_by P w w'"
  unfolding extends_by_def by (auto dest!: call_traceD)

lemma extends_by_emit: "P e \<Longrightarrow> extends_by P w (emit e w)"
  unfolding extends_by_def by (auto simp: emit_trace)

lemma extends_by_same: "trace w' = trace w \<Longrightarrow> extends_by P w w'"
  by (simp add: extends_by_def)

lemma extends_by_eq: "extends_by P w w1 \<Longrightarrow> trace w' = trace w1 \<Longrightarrow> extends_by P w w'"
  by (simp add: extends_by_def)

lemma extends_by_subset: "extends_by P w w' \<Longrightarrow> set (trace w) \<subseteq> set (trace w')"
  unfolding extends_by_def by auto

lemma guarded_extend:
  assumes "guarded G (trace w)" and "extends_by P w w'"
    and "\<And>x pre. P x \<Longrightarrow> set (trace w) \<subseteq> set pre \<Longrightarrow> G pre x"
  shows "guarded G (trace w')"
proof -
  obtain evs where evs: "trace w' = trace w @ evs" "list_all P evs" using assms(2) by (auto simp: extends_by_def)
  from evs(2) have "guarded G (trace w @ evs)"
  proof (induction evs rule: rev_induct)
    case Nil
    with assms(1) show ?case by simp
  next
    case (snoc x evs)
    then show ?case using assms(3) [of x "trace w @ evs"] by (simp flip: append_assoc)
  qed
  with evs(1) show ?thesis by simp
qed

section \<open>Contracts\<close>

definition only_status :: "ArtifactDeployment \<Rightarrow> ArtifactDeployment \<Rightarrow> bool" where
  "only_status dep dep' \<longleftrightarrow> (\<exists>cs rs. dep' = dep\<lparr>adConditions := cs, adResults := rs\<rparr>)"

lemma only_status_refl [simp]: "only_status dep dep"
  unfolding only_status_def by (intro exI [of _ "adConditions dep"] exI [of _ "adResults dep"]) simp

lemma only_status_trans: "only_status a b \<Longrightarrow> only_status b c \<Longrightarrow> only_status a c"
  unfolding only_status_def by (elim exE) (hypsubst, auto intro!: exI)

lemma only_status_conditions [simp]: "only_status dep (dep\<lparr>adConditions := cs\<rparr>)"
  unfolding only_status_def by (intro exI [of _ cs] exI [of _ "adResults dep"]) simp

lemma only_status_update [simp]: "only_status dep (dep\<lparr>adResults := rs, adConditions := cs\<rparr>)"
  unfolding only_status_def by (intro exI [of _ cs] exI [of _ rs]) simp

text \<open>A \<^verbatim>\<open>StatusUpdater\<close> changes nothing but the status, and only reads from the API server.\<close>

locale status_updater =
  fixes mutate :: "ArtifactDeployment \<Rightarrow> 's flux_world \<Rightarrow> (go_error option \<times> ArtifactDeployment) \<times> 's flux_world"
  assumes frame: "mutate dep w = ((e, dep'), w') \<Longrightarrow> only_status dep dep'"
    and reads: "mutate dep w = ((e, dep'), w') \<Longrightarrow> extends_by quiet w w'"
begin

lemma keeps_guard:
  assumes "mutate dep w = ((e, dep'), w')" and "guarded G (trace w)" and "\<forall>x pre. quiet x \<longrightarrow> G pre x"
  shows "guarded G (trace w') \<and> set (trace w) \<subseteq> set (trace w')"
  using guarded_extend [OF assms(2) reads [OF assms(1)]] assms(3) extends_by_subset [OF reads [OF assms(1)]] by blast

end

text \<open>The condition types that only the status updaters and the controllers themselves set.\<close>

definition verdicts :: "konf_api \<Rightarrow> string set" where
  "verdicts K = {ArtifactDeploymentReadyCondition K, StalledCondition K, DeploymentResultCreatedCondition K}"

text \<open>A change of conditions that leaves these alone.\<close>

definition carried :: "'s flux_env \<Rightarrow> ArtifactDeployment \<Rightarrow> ArtifactDeployment \<Rightarrow> bool" where
  "carried E dep dep' \<longleftrightarrow> (\<exists>cs. dep' = dep\<lparr>adConditions := cs\<rparr>) \<and>
     (meta_lib_ok (Lib E) \<and> konf_api_ok (Api E) \<longrightarrow> (\<forall>ty \<in> verdicts (Api E).
        IsStatusConditionTrue (Lib E) (adConditions dep') ty = IsStatusConditionTrue (Lib E) (adConditions dep) ty))"

lemma carried_refl [simp]: "carried E dep dep"
  unfolding carried_def by (intro conjI exI [of _ "adConditions dep"]) simp_all

lemma carried_trans:
  assumes "carried E a b" and "carried E b c"
  shows "carried E a c"
proof -
  obtain cs cs' where "b = a\<lparr>adConditions := cs\<rparr>" "c = b\<lparr>adConditions := cs'\<rparr>" using assms unfolding carried_def by blast
  then have "\<exists>cs. c = a\<lparr>adConditions := cs\<rparr>" by (intro exI [of _ cs']) simp
  with assms show ?thesis unfolding carried_def by simp
qed

lemma carried_only_status: "carried E a b \<Longrightarrow> only_status a b"
  unfolding carried_def by auto

text \<open>
  A Flux reconciler changes nothing but conditions other than the verdicts, stores nothing but its own object (\<open>own\<close>), and
  when it answers without an error its object has been accepted; \<open>accepted b\<close> are the answers that
  justify reporting \<open>b\<close> as the readiness.
\<close>

locale flux_reconciler =
  fixes E :: "'s flux_env" and reconcile :: "ArtifactDeployment \<Rightarrow> 'res \<Rightarrow> 's flux_world \<Rightarrow> (bool result \<times> ArtifactDeployment) \<times> 's flux_world"
    and own :: "flux_event \<Rightarrow> bool" and accepted :: "bool \<Rightarrow> flux_event \<Rightarrow> bool"
  assumes conditions: "reconcile dep res w = ((r, dep'), w') \<Longrightarrow> carried E dep dep'"
    and stores: "reconcile dep res w = ((r, dep'), w') \<Longrightarrow> extends_by (\<lambda>x. quiet x \<or> own x) w w'"
    and success: "reconcile dep res w = ((Inr b, dep'), w') \<Longrightarrow> \<exists>x \<in> set (trace w'). accepted b x"
begin

lemma reconciled:
  assumes "reconcile dep res w = ((r, dep'), w')" and "guarded G (trace w)"
    and "\<forall>x pre. quiet x \<longrightarrow> G pre x" and "\<forall>x pre. own x \<and> set (trace w) \<subseteq> set pre \<longrightarrow> G pre x"
  shows "guarded G (trace w')" and "set (trace w) \<subseteq> set (trace w')" and "carried E dep dep'"
    and "r = Inr b \<Longrightarrow> \<exists>x \<in> set (trace w'). accepted b x"
proof -
  note ext = stores [OF assms(1)]
  show "guarded G (trace w')" using guarded_extend [OF assms(2) ext] assms(3,4) by blast
  show "set (trace w) \<subseteq> set (trace w')" by (rule extends_by_subset [OF ext])
  show "carried E dep dep'" by (rule conditions [OF assms(1)])
  show "\<exists>x \<in> set (trace w'). accepted b x" if "r = Inr b" using success assms(1) that by blast
qed

end

section \<open>The implementations keep the contracts\<close>

lemma set_condition_extends: "set_condition E cs ty st reason msg gen w = (cs', w') \<Longrightarrow> extends_by P w w'"
  by (rule extends_by_same) (rule set_condition_eqD(1))

lemma map_conditions_frame:
  assumes "\<forall>t. conv t \<noteq> [] \<and> konf_api_ok (Api E) \<longrightarrow> conv t \<notin> verdicts (Api E)"
    and "map_conditions E conv cs dep w = (dep', w')"
  shows "trace w' = trace w \<and> carried E dep dep'"
  using assms(2)
proof (induction cs arbitrary: dep w)
  case (Cons c cs)
  show ?case
  proof (cases "conv (cType c) = []")
    case True
    with Cons show ?thesis by simp
  next
    case False
    obtain conds w1 where s: "set_condition E (adConditions dep) (conv (cType c)) (cStatus c) (cReason c) (cMessage c)
        (Generation dep) w = (conds, w1)" by (rule prod.exhaust)
    have "map_conditions E conv cs (dep\<lparr>adConditions := conds\<rparr>) w1 = (dep', w')" using Cons.prems False s by simp
    from Cons.IH [OF this] have rest: "trace w' = trace w1" "carried E (dep\<lparr>adConditions := conds\<rparr>) dep'" by auto
    have "IsStatusConditionTrue (Lib E) conds ty = IsStatusConditionTrue (Lib E) (adConditions dep) ty"
      if "meta_lib_ok (Lib E)" "konf_api_ok (Api E)" "ty \<in> verdicts (Api E)" for ty
      using is_true_set_condition [OF that(1) s] assms(1) False that(2,3) by auto
    then have "carried E dep (dep\<lparr>adConditions := conds\<rparr>)" unfolding carried_def by auto
    with rest set_condition_eqD(1) [OF s] show ?thesis using carried_trans by auto
  qed
qed simp

lemma mapped_types:
  "\<forall>t. mapHelmChartConditionType K t \<noteq> [] \<and> konf_api_ok K \<longrightarrow> mapHelmChartConditionType K t \<notin> verdicts K"
  "\<forall>t. mapHelmReleaseConditionType K t \<noteq> [] \<and> konf_api_ok K \<longrightarrow> mapHelmReleaseConditionType K t \<notin> verdicts K"
  "\<forall>t. mapOCIRepositoryConditionType K t \<noteq> [] \<and> konf_api_ok K \<longrightarrow> mapOCIRepositoryConditionType K t \<notin> verdicts K"
  "\<forall>t. mapKustomizationConditionType K t \<noteq> [] \<and> konf_api_ok K \<longrightarrow> mapKustomizationConditionType K t \<notin> verdicts K"
  by (auto simp: mapHelmChartConditionType_def mapHelmReleaseConditionType_def mapOCIRepositoryConditionType_def
      mapKustomizationConditionType_def verdicts_def konf_api_ok_def)

lemma CreateOrUpdate_frame:
  assumes "CreateOrUpdate load ev_load store ev_store mutateFn w = (r, w')"
    and "\<And>x. quiet (ev_load x)" and "\<forall>obj v m v'. mutateFn obj v = (m, v') \<longrightarrow> extends_by quiet v v'"
  shows "extends_by (\<lambda>x. quiet x \<or> (\<exists>obj a. x = ev_store obj a)) w w'"
    and "r = Inr a \<Longrightarrow> \<exists>obj. ev_store obj (Inr a) \<in> set (trace w')"
proof -
  let ?P = "\<lambda>x. quiet x \<or> (\<exists>obj a. x = ev_store obj a)"
  obtain l w1 where l: "call load ev_load w = (l, w1)" by (rule prod.exhaust)
  have x1: "extends_by ?P w w1" by (rule extends_by_call [OF l]) (simp add: assms(2))
  have "extends_by ?P w w' \<and> (r = Inr a \<longrightarrow> (\<exists>obj. ev_store obj (Inr a) \<in> set (trace w')))"
  proof (cases l)
    case (Inl e)
    with assms(1) l x1 show ?thesis by (auto simp: CreateOrUpdate_def)
  next
    case (Inr obj)
    obtain m w2 where m: "mutateFn obj w1 = (m, w2)" by (rule prod.exhaust)
    have x2: "extends_by ?P w w2"
      by (rule extends_by_trans [OF x1 extends_by_mono [OF assms(3) [rule_format, OF m]]]) blast
    show ?thesis
    proof (cases m)
      case (Inl e)
      with assms(1) l Inr m x2 show ?thesis by (auto simp: CreateOrUpdate_def)
    next
      case (Inr obj')
      have c: "call (store obj') (ev_store obj') w2 = (r, w')"
        using assms(1) l \<open>l = Inr obj\<close> m Inr by (simp add: CreateOrUpdate_def)
      have "extends_by ?P w2 w'" by (rule extends_by_call [OF c]) blast
      then show ?thesis using extends_by_trans [OF x2] call_traceD [OF c] by auto
    qed
  qed
  then show "extends_by ?P w w'" and "r = Inr a \<Longrightarrow> \<exists>obj. ev_store obj (Inr a) \<in> set (trace w')" by blast+
qed

lemma getSecretRef_quiet: "getSecretRef E dep repo w = (r, w') \<Longrightarrow> extends_by quiet w w'"
  unfolding getSecretRef_def
  by (auto simp: Let_def dest!: extends_by_call [where P = quiet] intro: extends_by_trans
      split: sum.splits prod.splits if_splits)

lemma GetKubeConfigRef_quiet: "GetKubeConfigRef E ns ty w = (r, w') \<Longrightarrow> extends_by quiet w w'"
  unfolding GetKubeConfigRef_def
  by (auto dest!: extends_by_call [where P = quiet] split: sum.splits prod.splits if_splits option.splits)

lemma mutate_quiet:
  "mutateHelmRepository E dep hres repo w = (m, w') \<Longrightarrow> extends_by quiet w w'"
  "mutateOCIRepository E dep kres oci w = (m', w') \<Longrightarrow> extends_by quiet w w'"
  "mutateHelmRelease E dep hres rel w = (m'', w') \<Longrightarrow> extends_by quiet w w'"
  "mutateKustomization E dep kres kus w = (m''', w') \<Longrightarrow> extends_by quiet w w'"
  unfolding mutateHelmRepository_def mutateOCIRepository_def mutateHelmRelease_def mutateKustomization_def
  by (auto dest!: getSecretRef_quiet GetKubeConfigRef_quiet split: sum.splits prod.splits)

lemma getHelmChart_quiet: "getHelmChart E dep w = (c, w') \<Longrightarrow> extends_by quiet w w'"
  unfolding getHelmChart_def by (auto simp: Let_def dest!: extends_by_call [where P = quiet] split: prod.splits)

text \<open>The store events of the four kinds, and the answers that justify a readiness.\<close>

definition stores_chart_repo :: "flux_event \<Rightarrow> bool" where
  "stores_chart_repo x \<longleftrightarrow> (\<exists>obj a. x = EvStoreHelmRepository obj a)"

definition stores_oci_repo :: "flux_event \<Rightarrow> bool" where
  "stores_oci_repo x \<longleftrightarrow> (\<exists>obj a. x = EvStoreOCIRepository obj a)"

definition stores_release :: "flux_event \<Rightarrow> bool" where
  "stores_release x \<longleftrightarrow> (\<exists>obj a. x = EvStoreHelmRelease obj a)"

definition stores_kustomization :: "flux_event \<Rightarrow> bool" where
  "stores_kustomization x \<longleftrightarrow> (\<exists>obj a. x = EvStoreKustomization obj a)"

definition chart_repo_accepted :: "bool \<Rightarrow> flux_event \<Rightarrow> bool" where
  "chart_repo_accepted b x \<longleftrightarrow> b \<and> (\<exists>obj a. x = EvStoreHelmRepository obj (Inr a))"

definition oci_repo_accepted :: "'s flux_env \<Rightarrow> bool \<Rightarrow> flux_event \<Rightarrow> bool" where
  "oci_repo_accepted E b x \<longleftrightarrow>
     (\<exists>obj a op. x = EvStoreOCIRepository obj (Inr (a, op)) \<and> b = IsStatusConditionTrue (Lib E) (ociConditions a) ''Ready'')"

definition release_accepted :: "'s flux_env \<Rightarrow> bool \<Rightarrow> flux_event \<Rightarrow> bool" where
  "release_accepted E b x \<longleftrightarrow>
     (\<exists>obj a op. x = EvStoreHelmRelease obj (Inr (a, op)) \<and> b = IsStatusConditionTrue (Lib E) (hrelConditions a) ''Ready'')"

definition kustomization_accepted :: "'s flux_env \<Rightarrow> bool \<Rightarrow> flux_event \<Rightarrow> bool" where
  "kustomization_accepted E b x \<longleftrightarrow>
     (\<exists>obj a op. x = EvStoreKustomization obj (Inr (a, op)) \<and> b = IsStatusConditionTrue (Lib E) (kusConditions a) ''Ready'')"

lemma quiet_load:
  "quiet (EvLoadHelmRepository k r1)" "quiet (EvLoadOCIRepository k r2)"
  "quiet (EvLoadHelmRelease k r3)" "quiet (EvLoadKustomization k r4)"
  by simp_all

lemma HelmRepository_contract:
  assumes "HelmRepository_Reconcile E dep res w = ((r, dep'), w')"
  shows "carried E dep dep' \<and> extends_by (\<lambda>x. quiet x \<or> stores_chart_repo x) w w' \<and>
    (\<forall>b. r = Inr b \<longrightarrow> (\<exists>x \<in> set (trace w'). chart_repo_accepted b x))"
proof -
  let ?P = "\<lambda>x. quiet x \<or> stores_chart_repo x"
  obtain c w1 where c: "CreateOrUpdate (LoadHelmRepository E (dep_key dep)) (EvLoadHelmRepository (dep_key dep))
      (StoreHelmRepository E) EvStoreHelmRepository (mutateHelmRepository E dep res) w = (c, w1)" by (rule prod.exhaust)
  have quiet: "\<forall>obj v m v'. mutateHelmRepository E dep res obj v = (m, v') \<longrightarrow> extends_by quiet v v'"
    using mutate_quiet(1) by blast
  note frame = CreateOrUpdate_frame [OF c quiet_load(1) quiet, folded stores_chart_repo_def]
  show ?thesis
  proof (cases c)
    case (Inl e)
    with assms c frame(1) show ?thesis by (auto simp: HelmRepository_Reconcile_def)
  next
    case (Inr a)
    have x: "extends_by ?P w w'" using assms c Inr extends_by_trans [OF frame(1) extends_by_emit [of ?P]]
      by (auto simp: HelmRepository_Reconcile_def split: prod.splits)
    have "set (trace w1) \<subseteq> set (trace w')" "dep' = dep" "r = Inr True"
      using assms c Inr by (auto simp: HelmRepository_Reconcile_def emit_trace split: prod.splits)
    then show ?thesis using x frame(2) [OF Inr] carried_refl [of E dep] unfolding chart_repo_accepted_def by blast
  qed
qed

lemma OCIRepository_contract:
  assumes "OCIRepository_Reconcile E dep res w = ((r, dep'), w')"
  shows "carried E dep dep' \<and> extends_by (\<lambda>x. quiet x \<or> stores_oci_repo x) w w' \<and>
    (\<forall>b. r = Inr b \<longrightarrow> (\<exists>x \<in> set (trace w'). oci_repo_accepted E b x))"
proof -
  let ?P = "\<lambda>x. quiet x \<or> stores_oci_repo x"
  obtain c w1 where c: "CreateOrUpdate (LoadOCIRepository E (dep_key dep)) (EvLoadOCIRepository (dep_key dep))
      (StoreOCIRepository E) EvStoreOCIRepository (mutateOCIRepository E dep res) w = (c, w1)" by (rule prod.exhaust)
  have quiet: "\<forall>obj v m v'. mutateOCIRepository E dep res obj v = (m, v') \<longrightarrow> extends_by quiet v v'"
    using mutate_quiet(2) by blast
  note frame = CreateOrUpdate_frame [OF c quiet_load(2) quiet, folded stores_oci_repo_def]
  show ?thesis
  proof (cases c)
    case (Inl e)
    with assms c frame(1) show ?thesis by (auto simp: OCIRepository_Reconcile_def)
  next
    case (Inr a)
    obtain repo op where a: "a = (repo, op)" by (rule prod.exhaust)
    let ?w2 = "emit (EvFluxRecorded ''OCIRepositoryReconciled'' (''OCIRepository '' @ Name repo @ '' '' @ op)) w1"
    have m: "map_conditions E (mapOCIRepositoryConditionType (Api E)) (ociConditions repo) dep ?w2 = (dep', w')"
      and r: "r = Inr (IsStatusConditionTrue (Lib E) (ociConditions repo) ''Ready'')"
      using assms c Inr a by (auto simp: OCIRepository_Reconcile_def split: prod.splits)
    note mapped = map_conditions_frame [OF mapped_types(3) m]
    have "extends_by ?P w w'"
      by (rule extends_by_eq [OF extends_by_trans [OF frame(1) extends_by_emit] mapped [THEN conjunct1]]) simp
    moreover have "set (trace w1) \<subseteq> set (trace w')" using mapped by (auto simp: emit_trace)
    ultimately show ?thesis using frame(2) [OF Inr] mapped r a by (auto simp: oci_repo_accepted_def)
  qed
qed

lemma Kustomization_contract:
  assumes "Kustomization_Reconcile E dep res w = ((r, dep'), w')"
  shows "carried E dep dep' \<and> extends_by (\<lambda>x. quiet x \<or> stores_kustomization x) w w' \<and>
    (\<forall>b. r = Inr b \<longrightarrow> (\<exists>x \<in> set (trace w'). kustomization_accepted E b x))"
proof -
  let ?P = "\<lambda>x. quiet x \<or> stores_kustomization x"
  obtain c w1 where c: "CreateOrUpdate (LoadKustomization E (dep_key dep)) (EvLoadKustomization (dep_key dep))
      (StoreKustomization E) EvStoreKustomization (mutateKustomization E dep res) w = (c, w1)" by (rule prod.exhaust)
  have quiet: "\<forall>obj v m v'. mutateKustomization E dep res obj v = (m, v') \<longrightarrow> extends_by quiet v v'"
    using mutate_quiet(4) by blast
  note frame = CreateOrUpdate_frame [OF c quiet_load(4) quiet, folded stores_kustomization_def]
  show ?thesis
  proof (cases c)
    case (Inl e)
    with assms c frame(1) show ?thesis by (auto simp: Kustomization_Reconcile_def)
  next
    case (Inr a)
    obtain kus op where a: "a = (kus, op)" by (rule prod.exhaust)
    let ?w2 = "emit (EvFluxRecorded ''ReconciledKustomization'' (''Kustomization '' @ Name kus @ '' '' @ op)) w1"
    have m: "map_conditions E (mapKustomizationConditionType (Api E)) (kusConditions kus) dep ?w2 = (dep', w')"
      and r: "r = Inr (IsStatusConditionTrue (Lib E) (kusConditions kus) ''Ready'')"
      using assms c Inr a by (auto simp: Kustomization_Reconcile_def conditionTypeReady_def split: prod.splits)
    note mapped = map_conditions_frame [OF mapped_types(4) m]
    have "extends_by ?P w w'"
      by (rule extends_by_eq [OF extends_by_trans [OF frame(1) extends_by_emit] mapped [THEN conjunct1]]) simp
    moreover have "set (trace w1) \<subseteq> set (trace w')" using mapped by (auto simp: emit_trace)
    ultimately show ?thesis using frame(2) [OF Inr] mapped r a by (auto simp: kustomization_accepted_def)
  qed
qed

lemma HelmRelease_contract:
  assumes "HelmRelease_Reconcile E dep res w = ((r, dep'), w')"
  shows "carried E dep dep' \<and> extends_by (\<lambda>x. quiet x \<or> stores_release x) w w' \<and>
    (\<forall>b. r = Inr b \<longrightarrow> (\<exists>x \<in> set (trace w'). release_accepted E b x))"
proof -
  let ?P = "\<lambda>x. quiet x \<or> stores_release x"
  obtain c w1 where c: "CreateOrUpdate (LoadHelmRelease E (dep_key dep)) (EvLoadHelmRelease (dep_key dep))
      (StoreHelmRelease E) EvStoreHelmRelease (mutateHelmRelease E dep res) w = (c, w1)" by (rule prod.exhaust)
  have quiet: "\<forall>obj v m v'. mutateHelmRelease E dep res obj v = (m, v') \<longrightarrow> extends_by quiet v v'"
    using mutate_quiet(3) by blast
  note frame = CreateOrUpdate_frame [OF c quiet_load(3) quiet, folded stores_release_def]
  show ?thesis
  proof (cases c)
    case (Inl e)
    with assms c frame(1) show ?thesis by (auto simp: HelmRelease_Reconcile_def)
  next
    case (Inr a)
    obtain rel op where a: "a = (rel, op)" by (rule prod.exhaust)
    obtain chart w2 where g: "getHelmChart E dep w1 = (chart, w2)" by (rule prod.exhaust)
    have r: "r = Inr (IsStatusConditionTrue (Lib E) (hrelConditions rel) ''Ready'')"
      using assms c Inr a g by (simp add: HelmRelease_Reconcile_def conditionTypeReady_def split: prod.splits)
    have mapped: "trace w' = trace w2 \<and> carried E dep dep'"
    proof (cases chart)
      case None
      with assms c Inr a g have "dep' = dep" "w' = w2" by (simp_all add: HelmRelease_Reconcile_def)
      then show ?thesis by simp
    next
      case (Some ch)
      obtain dep1 w3 where m: "map_conditions E (mapHelmChartConditionType (Api E)) (hchConditions ch) dep w2 = (dep1, w3)"
        by (rule prod.exhaust)
      obtain dep2 w4 where m': "map_conditions E (mapHelmReleaseConditionType (Api E)) (hrelConditions rel) dep1 w3 = (dep2, w4)"
        by (rule prod.exhaust)
      note m1 = map_conditions_frame [OF mapped_types(1) m] and m2 = map_conditions_frame [OF mapped_types(2) m']
      show ?thesis
      proof (cases "IsStatusConditionTrue (Lib E) (hchConditions ch) conditionTypeReady")
        case True
        then have "dep' = dep2" "w' = w4" using assms c Inr a g Some m m'
          by (simp_all add: HelmRelease_Reconcile_def mapStatusConditionsFromHelmChart_def)
        then show ?thesis using m1 m2 carried_trans by auto
      next
        case False
        then have "dep' = dep1" "w' = w3" using assms c Inr a g Some m m'
          by (simp_all add: HelmRelease_Reconcile_def mapStatusConditionsFromHelmChart_def)
        then show ?thesis using m1 by simp
      qed
    qed
    have "extends_by ?P w1 w2" by (rule extends_by_mono [OF getHelmChart_quiet [OF g]]) simp
    then have x: "extends_by ?P w1 w'" by (rule extends_by_eq) (rule mapped [THEN conjunct1])
    have "extends_by ?P w w'" by (rule extends_by_trans [OF frame(1) x])
    moreover note extends_by_subset [OF x]
    ultimately show ?thesis using frame(2) [OF Inr] mapped r a by (auto simp: release_accepted_def)
  qed
qed

interpretation chart_repo: flux_reconciler E "HelmRepository_Reconcile E" stores_chart_repo chart_repo_accepted for E
  by unfold_locales (use HelmRepository_contract [of E] in blast)+

interpretation chart_release: flux_reconciler E "HelmRelease_Reconcile E" stores_release "release_accepted E" for E
  by unfold_locales (use HelmRelease_contract [of E] in blast)+

interpretation oci_repo: flux_reconciler E "OCIRepository_Reconcile E" stores_oci_repo "oci_repo_accepted E" for E
  by unfold_locales (use OCIRepository_contract [of E] in blast)+

interpretation kustomization: flux_reconciler E "Kustomization_Reconcile E" stores_kustomization "kustomization_accepted E" for E
  by unfold_locales (use Kustomization_contract [of E] in blast)+

lemma fetchExposableServices_quiet: "fetchExposableServices E dep w = (r, w') \<Longrightarrow> extends_by quiet w w'"
  unfolding fetchExposableServices_def
  by (auto dest!: extends_by_call [where P = quiet] split: sum.splits prod.splits)

lemma DeploymentResult_contract:
  assumes "DeploymentResult_MutateStatus E dep w = ((e, dep'), w')"
  shows "only_status dep dep' \<and> extends_by quiet w w'"
proof (cases "hasExposureValidationFailure E dep \<or>
    \<not> IsStatusConditionTrue (Lib E) (adConditions dep) (ArtifactDeployedCondition (Api E))")
  case True
  with assms have "dep' = dep" "w' = w"
    by (cases "hasExposureValidationFailure E dep"; simp add: DeploymentResult_MutateStatus_def)+
  then show ?thesis by simp
next
  case False
  obtain l w1 where l: "fetchExposableServices E dep w = (l, w1)" by (rule prod.exhaust)
  note q = fetchExposableServices_quiet [OF l]
  have "trace w' = trace w1 \<and> only_status dep dep'"
    using assms False l
    by (auto simp: DeploymentResult_MutateStatus_def setExposureValidationFailure_def Let_def
        dest!: silent_traceD set_condition_eqD(1) split: sum.splits option.splits prod.splits)
  then show ?thesis using extends_by_eq [OF q] by blast
qed

lemma Ready_contract:
  assumes "Ready_MutateStatus E dep w = ((e, dep'), w')"
  shows "only_status dep dep' \<and> extends_by quiet w w'"
  using assms by (auto simp: Ready_MutateStatus_def dest: set_condition_extends split: if_splits prod.splits)

interpretation deployment_results: status_updater "DeploymentResult_MutateStatus E" for E
  by unfold_locales (use DeploymentResult_contract [of E] in blast)+

interpretation readiness: status_updater "Ready_MutateStatus E" for E
  by unfold_locales (use Ready_contract [of E] in blast)+

section \<open>What a reconciliation may do\<close>

text \<open>
  A status may say ready only if the status read said so, or the application is healthy, its
  results are published and it is not stalled.
\<close>

definition ready_justified :: "'s flux_env \<Rightarrow> Condition list \<Rightarrow> Condition list \<Rightarrow> bool" where
  "ready_justified E old new \<longleftrightarrow>
     (IsStatusConditionTrue (Lib E) new (ArtifactDeploymentReadyCondition (Api E)) \<longrightarrow>
        IsStatusConditionTrue (Lib E) old (ArtifactDeploymentReadyCondition (Api E)) \<or>
        (IsStatusConditionTrue (Lib E) new (AppHealthyCondition (Api E)) \<and>
         IsStatusConditionTrue (Lib E) new (DeploymentResultCreatedCondition (Api E)) \<and>
         \<not> IsStatusConditionTrue (Lib E) new (StalledCondition (Api E))))"

fun flux_guard :: "'s flux_env \<Rightarrow> NamespacedName \<Rightarrow> flux_event list \<Rightarrow> flux_event \<Rightarrow> bool" where
  "flux_guard E req pre (EvStoreHelmRelease obj r) = (\<exists>repo a. EvStoreHelmRepository repo (Inr a) \<in> set pre)"
| "flux_guard E req pre (EvStoreKustomization obj r) =
     (\<exists>repo a op. EvStoreOCIRepository repo (Inr (a, op)) \<in> set pre \<and>
        IsStatusConditionTrue (Lib E) (ociConditions a) ''Ready'')"
| "flux_guard E req pre (EvPatchDeploymentStatus old new r) =
     (EvGetDeployment req (Inr old) \<in> set pre \<and> only_status old new \<and>
      ready_justified E (adConditions old) (adConditions new))"
| "flux_guard E req pre _ = True"

lemma flux_guard_quiet: "\<forall>x pre. quiet x \<longrightarrow> flux_guard E req pre x"
proof (intro allI impI)
  show "quiet x \<Longrightarrow> flux_guard E req pre x" for x pre by (cases x) auto
qed

lemma flux_guard_repo:
  "\<forall>x pre. stores_chart_repo x \<and> S \<subseteq> set pre \<longrightarrow> flux_guard E req pre x"
  "\<forall>x pre. stores_oci_repo x \<and> S \<subseteq> set pre \<longrightarrow> flux_guard E req pre x"
  by (auto simp: stores_chart_repo_def stores_oci_repo_def)

lemma reconcile_chart_guarded:
  assumes "reconcile_chart E m dep w = (dep', w')" and "guarded (flux_guard E req) (trace w)"
  shows "guarded (flux_guard E req) (trace w') \<and> set (trace w) \<subseteq> set (trace w') \<and> carried E dep dep'"
proof (cases "ToHelm (FluxJson E) (Refs E) m")
  case (Inl e)
  with assms show ?thesis by (simp add: reconcile_chart_def)
next
  case (Inr res)
  obtain r dep1 w1 where 1: "HelmRepository_Reconcile E dep res w = ((r, dep1), w1)" by (metis prod.exhaust)
  note repo = chart_repo.reconciled [OF 1 assms(2) flux_guard_quiet flux_guard_repo(1)]
  show ?thesis
  proof (cases r)
    case (Inl e)
    with assms(1) Inr 1 repo(1-3) show ?thesis by (simp add: reconcile_chart_def)
  next
    case inr: (Inr b)
    obtain r' dep2 w2 where 2: "HelmRelease_Reconcile E dep1 res w1 = ((r', dep2), w2)" by (metis prod.exhaust)
    obtain repo' a where "EvStoreHelmRepository repo' (Inr a) \<in> set (trace w1)"
      using repo(4) [OF inr] unfolding chart_repo_accepted_def by blast
    then have "\<forall>x pre. stores_release x \<and> set (trace w1) \<subseteq> set pre \<longrightarrow> flux_guard E req pre x"
      unfolding stores_release_def by (metis flux_guard.simps(1) subsetD)
    note release = chart_release.reconciled [OF 2 repo(1) flux_guard_quiet this]
    have "(dep', w') = (dep2, w2)" using assms(1) Inr 1 inr 2 by (simp add: reconcile_chart_def)
    then show ?thesis using repo(2,3) release(1-3) carried_trans by blast
  qed
qed

lemma reconcile_kustomize_guarded:
  assumes "reconcile_kustomize E m dep w = (dep', w')" and "guarded (flux_guard E req) (trace w)"
  shows "guarded (flux_guard E req) (trace w') \<and> set (trace w) \<subseteq> set (trace w') \<and> carried E dep dep'"
proof (cases "ToKustomize (FluxJson E) (Refs E) m")
  case (Inl e)
  with assms show ?thesis by (simp add: reconcile_kustomize_def)
next
  case (Inr res)
  obtain r dep1 w1 where 1: "OCIRepository_Reconcile E dep res w = ((r, dep1), w1)" by (metis prod.exhaust)
  note repo = oci_repo.reconciled [OF 1 assms(2) flux_guard_quiet flux_guard_repo(2)]
  show ?thesis
  proof (cases "r = Inr True")
    case False
    then have "(dep', w') = (dep1, w1)" using assms(1) Inr 1 by (auto simp: reconcile_kustomize_def split: sum.splits if_splits)
    with repo(1-3) show ?thesis by simp
  next
    case True
    obtain r' dep2 w2 where 2: "Kustomization_Reconcile E dep1 res w1 = ((r', dep2), w2)" by (metis prod.exhaust)
    obtain repo' a op where "EvStoreOCIRepository repo' (Inr (a, op)) \<in> set (trace w1)"
      "IsStatusConditionTrue (Lib E) (ociConditions a) ''Ready''"
      using repo(4) [OF True] unfolding oci_repo_accepted_def by blast
    then have "\<forall>x pre. stores_kustomization x \<and> set (trace w1) \<subseteq> set pre \<longrightarrow> flux_guard E req pre x"
      unfolding stores_kustomization_def by (metis flux_guard.simps(2) subsetD)
    note kus = kustomization.reconciled [OF 2 repo(1) flux_guard_quiet this]
    have "(dep', w') = (dep2, w2)" using assms(1) Inr 1 True 2 by (simp add: reconcile_kustomize_def)
    then show ?thesis using repo(2,3) kus(1-3) carried_trans by blast
  qed
qed

end
