(* ===== verification/Flux_Properties.thy ===== *)
theory Flux_Properties
  imports Flux_Controller
begin

text \<open>
  What the artifact deployment controllers guarantee: the order in which Flux objects are applied,
  when a deployment may be called ready, how an invalid exposure stalls it, what its status patch
  contains, and which Services its results are read from.
\<close>

section \<open>Readiness\<close>

lemma DeploymentResult_ready:
  assumes "meta_lib_ok (Lib E)" and "konf_api_ok (Api E)" and "DeploymentResult_MutateStatus E dep w = ((e, dep'), w')"
    and "IsStatusConditionTrue (Lib E) (adConditions dep') (ArtifactDeploymentReadyCondition (Api E))"
  shows "IsStatusConditionTrue (Lib E) (adConditions dep) (ArtifactDeploymentReadyCondition (Api E))"
proof -
  have distinct: "ArtifactDeploymentReadyCondition (Api E) \<noteq> DeploymentResultCreatedCondition (Api E)"
    "ArtifactDeploymentReadyCondition (Api E) \<noteq> StalledCondition (Api E)" using assms(2) by (auto simp: konf_api_ok_def)
  have failure: False if "setExposureValidationFailure E err dep w1 = (dep', w2)" for err w1 w2
    using that assms(4) distinct
    by (auto simp: setExposureValidationFailure_def is_true_set [OF assms(1)] split: prod.splits)
  obtain l w1 where l: "fetchExposableServices E dep w = (l, w1)" by (rule prod.exhaust)
  show ?thesis
  proof (cases "dep' = dep")
    case False
    then obtain services where services: "l = Inr services"
      using assms(3) l by (auto simp: DeploymentResult_MutateStatus_def split: sum.splits if_splits)
    have "validateExposePorts (FluxTCP E) services = None"
      using False assms(3) l services failure
      by (auto simp: DeploymentResult_MutateStatus_def split: option.splits prod.splits if_splits)
    then obtain results cs w2 where s: "set_condition E (adConditions dep) (DeploymentResultCreatedCondition (Api E)) ConditionTrue
        (DeploymentResultCreatedCondition (Api E)) ''Successfully created DeploymentResult'' (Generation dep) w1 = (cs, w2)"
      and dep': "dep' = dep\<lparr>adResults := Some results, adConditions := cs\<rparr>"
      using False assms(3) l services
      by (auto simp: DeploymentResult_MutateStatus_def split: sum.splits prod.splits if_splits)
    show ?thesis using assms(4) distinct is_true_set_condition [OF assms(1) s] dep' by simp
  qed (use assms(4) in simp)
qed

lemma Ready_justified:
  assumes "meta_lib_ok (Lib E)" and "konf_api_ok (Api E)" and "Ready_MutateStatus E dep w = ((e, dep'), w')"
  shows "ready_justified E (adConditions dep) (adConditions dep')"
proof -
  have "distinct [AppHealthyCondition (Api E), DeploymentResultCreatedCondition (Api E), ArtifactDeploymentReadyCondition (Api E),
      StalledCondition (Api E)]" using assms(2) by (simp add: konf_api_ok_def)
  moreover obtain cs w1 where s: "set_condition E (adConditions dep) (ArtifactDeploymentReadyCondition (Api E)) ConditionTrue
      (ArtifactDeploymentReadyCondition (Api E)) ''Successfully reconciled ArtifactDeployment'' (Generation dep) w = (cs, w1)"
    by (rule prod.exhaust)
  ultimately show ?thesis using assms(3) is_true_set_condition [OF assms(1) s]
    by (auto simp: Ready_MutateStatus_def ready_justified_def s split: if_splits)
qed

lemma patch_status_guarded:
  assumes "patch_status E orig dep w = (p, w')" and "guarded (flux_guard E req) (trace w)"
    and "EvGetDeployment req (Inr orig) \<in> set (trace w)" and "only_status orig dep"
    and "ready_justified E (adConditions orig) (adConditions dep)"
  shows "guarded (flux_guard E req) (trace w')"
  using assms by (auto simp: patch_status_def dest!: call_traceD split: prod.splits sum.splits if_splits)

lemma finish_status_guarded:
  assumes "meta_lib_ok (Lib E)" and "konf_api_ok (Api E)" and "finish_status E orig dep w = (r, w')"
    and "guarded (flux_guard E req) (trace w)" and "EvGetDeployment req (Inr orig) \<in> set (trace w)" and "carried E orig dep"
  shows "guarded (flux_guard E req) (trace w')"
proof -
  obtain e1 dep1 w1 where 1: "DeploymentResult_MutateStatus E dep w = ((e1, dep1), w1)" by (metis prod.exhaust)
  obtain e2 dep2 w2 where 2: "Ready_MutateStatus E dep1 w1 = ((e2, dep2), w2)" by (metis prod.exhaust)
  obtain p w3 where p: "patch_status E orig dep2 w2 = (p, w3)" by (rule prod.exhaust)
  note g1 = deployment_results.keeps_guard [OF 1 assms(4) flux_guard_quiet]
  note g2 = readiness.keeps_guard [OF 2 g1 [THEN conjunct1] flux_guard_quiet]
  have status: "only_status orig dep2"
    using carried_only_status [OF assms(6)] deployment_results.frame [OF 1] readiness.frame [OF 2] only_status_trans by metis
  have "IsStatusConditionTrue (Lib E) (adConditions orig) (ArtifactDeploymentReadyCondition (Api E))"
    if "IsStatusConditionTrue (Lib E) (adConditions dep1) (ArtifactDeploymentReadyCondition (Api E))"
    using DeploymentResult_ready [OF assms(1,2) 1 that] assms(1,2,6) by (simp add: carried_def verdicts_def)
  then have ready: "ready_justified E (adConditions orig) (adConditions dep2)"
    using Ready_justified [OF assms(1,2) 2] by (auto simp: ready_justified_def)
  have "w' = w3" using assms(3) 1 2 p by (auto simp: finish_status_def split: option.splits)
  moreover have "guarded (flux_guard E req) (trace w3)"
    by (rule patch_status_guarded [OF p g2 [THEN conjunct1] _ status ready]) (use assms(5) g1 g2 in blast)
  ultimately show ?thesis by simp
qed

lemma refuse_multiple_guarded:
  assumes "meta_lib_ok (Lib E)" and "refuse_multiple E ty reason n dep w = (r, w')"
    and "guarded (flux_guard E req) (trace w)" and "EvGetDeployment req (Inr dep) \<in> set (trace w)"
  shows "guarded (flux_guard E req) (trace w')"
proof -
  obtain cs w1 where s: "set_condition E (adConditions dep) (ArtifactDeploymentReadyCondition (Api E)) ConditionFalse reason
      (refuse_message ty n) (Generation dep) w = (cs, w1)" by (rule prod.exhaust)
  obtain p w2 where p: "patch_status E dep (dep\<lparr>adConditions := cs\<rparr>) w1 = (p, w2)" by (rule prod.exhaust)
  have "w' = w2" using assms(2) s p by (auto simp: refuse_multiple_def split: option.splits)
  moreover have "ready_justified E (adConditions dep) cs"
    using is_true_set_condition [OF assms(1) s] by (simp add: ready_justified_def)
  ultimately show ?thesis using patch_status_guarded [OF p] set_condition_eqD(1) [OF s] assms(3,4) by simp
qed

lemma matches_loop_filter: "matches_loop ty acc rs = acc @ filter (\<lambda>r. ocmType r = ty) rs"
  by (induction rs arbitrary: acc) auto

lemma Deployment_Reconcile_guarded:
  assumes "meta_lib_ok (Lib E)" and "konf_api_ok (Api E)"
    and "Deployment_Reconcile E kind ty reason flux req w = (r, w')" and "trace w = []"
    and "\<forall>m dep v dep' v'. flux m dep v = (dep', v') \<and> guarded (flux_guard E req) (trace v) \<longrightarrow>
      guarded (flux_guard E req) (trace v') \<and> set (trace v) \<subseteq> set (trace v') \<and> carried E dep dep'"
  shows "guarded (flux_guard E req) (trace w')"
proof -
  obtain g w1 where g: "call (GetDeployment E req) (EvGetDeployment req) w = (g, w1)" by (rule prod.exhaust)
  have t1: "trace w1 = [EvGetDeployment req g]" using call_traceD [OF g] assms(4) by simp
  have g1: "guarded (flux_guard E req) (trace w1)" using guarded_snoc [of "flux_guard E req" "[]"] t1 by simp
  show ?thesis
  proof (cases "\<exists>dep. g = Inr dep \<and> ArtifactTypeOf E dep = kind")
    case False
    then have "w' = w1" using assms(3) g by (auto simp: Deployment_Reconcile_def split: sum.splits if_splits)
    with g1 show ?thesis by simp
  next
    case True
    then obtain dep where dep: "g = Inr dep" "ArtifactTypeOf E dep = kind" by blast
    have seen: "EvGetDeployment req (Inr dep) \<in> set (trace w1)" using t1 dep(1) by simp
    define matches where "matches = matches_loop ty [] (adResources dep)"
    show ?thesis
    proof (cases "length matches > 1")
      case True
      then have "refuse_multiple E ty reason (length matches) dep w1 = (r, w')"
        using assms(3) g dep by (simp add: Deployment_Reconcile_def matches_def)
      from refuse_multiple_guarded [OF assms(1) this g1 seen] show ?thesis .
    next
      case False
      obtain dep' w2 where f: "(case matches of [] \<Rightarrow> (dep, w1) | m # _ \<Rightarrow> flux m dep w1) = (dep', w2)" by (rule prod.exhaust)
      have run: "finish_status E dep dep' w2 = (r, w')"
        using assms(3) g dep False f by (simp add: Deployment_Reconcile_def matches_def)
      have "guarded (flux_guard E req) (trace w2) \<and> set (trace w1) \<subseteq> set (trace w2) \<and> carried E dep dep'"
        using f g1 assms(5) by (cases matches) auto
      with finish_status_guarded [OF assms(1,2) run] seen show ?thesis by blast
    qed
  qed
qed

lemma flux_guarded:
  assumes "meta_lib_ok (Lib E)" and "konf_api_ok (Api E)" and "trace w = []"
    and "Helm_Reconcile E req w = (r, w') \<or> Kustomize_Reconcile E req w = (r, w')"
  shows "guarded (flux_guard E req) (trace w')"
  using assms(4)
proof
  assume "Helm_Reconcile E req w = (r, w')"
  then show ?thesis unfolding Helm_Reconcile_def
    by (rule Deployment_Reconcile_guarded [OF assms(1,2) _ assms(3)]) (use reconcile_chart_guarded in blast)
next
  assume "Kustomize_Reconcile E req w = (r, w')"
  then show ?thesis unfolding Kustomize_Reconcile_def
    by (rule Deployment_Reconcile_guarded [OF assms(1,2) _ assms(3)]) (use reconcile_kustomize_guarded in blast)
qed

section \<open>Order of application\<close>

text \<open>
  C24. Nothing is deployed from a source that is not there: in a reconciliation of either controller
  a HelmRelease is stored only after the API server accepted a HelmRepository in the same
  reconciliation, and a Kustomization only after it accepted an OCIRepository and reported it ready.
\<close>

theorem flux_apply_order:
  assumes "meta_lib_ok (Lib E)" and "konf_api_ok (Api E)"
    and "Helm_Reconcile E req \<lparr>srv = s, trace = []\<rparr> = (r, w') \<or> Kustomize_Reconcile E req \<lparr>srv = s, trace = []\<rparr> = (r, w')"
    and "trace w' = pre @ x # post"
  shows "(\<forall>obj a. x = EvStoreHelmRelease obj a \<longrightarrow> (\<exists>repo b. EvStoreHelmRepository repo (Inr b) \<in> set pre)) \<and>
    (\<forall>obj a. x = EvStoreKustomization obj a \<longrightarrow>
       (\<exists>repo b op. EvStoreOCIRepository repo (Inr (b, op)) \<in> set pre \<and>
          IsStatusConditionTrue (Lib E) (ociConditions b) ''Ready''))"
proof -
  have "guarded (flux_guard E req) (trace w')" by (rule flux_guarded [OF assms(1,2) _ assms(3)]) simp
  then have "flux_guard E req pre x" by (rule guardedD [OF _ assms(4)])
  then show ?thesis by auto
qed

text \<open>
  C25. The status a reconciliation writes: it is patched onto the deployment that was read, differs
  from it in nothing but conditions and results, and calls the deployment ready only if it was so
  before or the application is healthy, its results are published and it is not stalled.
\<close>

theorem flux_ready_justified:
  assumes "meta_lib_ok (Lib E)" and "konf_api_ok (Api E)"
    and "Helm_Reconcile E req \<lparr>srv = s, trace = []\<rparr> = (r, w') \<or> Kustomize_Reconcile E req \<lparr>srv = s, trace = []\<rparr> = (r, w')"
    and "trace w' = pre @ EvPatchDeploymentStatus old new a # post"
  shows "EvGetDeployment req (Inr old) \<in> set pre \<and> (\<exists>cs rs. new = old\<lparr>adConditions := cs, adResults := rs\<rparr>) \<and>
    (IsStatusConditionTrue (Lib E) (adConditions new) (ArtifactDeploymentReadyCondition (Api E)) \<longrightarrow>
       IsStatusConditionTrue (Lib E) (adConditions old) (ArtifactDeploymentReadyCondition (Api E)) \<or>
       (IsStatusConditionTrue (Lib E) (adConditions new) (AppHealthyCondition (Api E)) \<and>
        IsStatusConditionTrue (Lib E) (adConditions new) (DeploymentResultCreatedCondition (Api E)) \<and>
        \<not> IsStatusConditionTrue (Lib E) (adConditions new) (StalledCondition (Api E))))"
proof -
  have "guarded (flux_guard E req) (trace w')" by (rule flux_guarded [OF assms(1,2) _ assms(3)]) simp
  then have "flux_guard E req pre (EvPatchDeploymentStatus old new a)" by (rule guardedD [OF _ assms(4)])
  then show ?thesis by (simp add: only_status_def ready_justified_def)
qed

section \<open>Invalid exposure\<close>

text \<open>
  C28. An invalid exposure stalls a deployment and stays: after the updater met Services whose
  exposed port is missing or not TCP, the deployment has no results, is not ready and is stalled with
  one of the two reasons; from then on both updaters leave it as it is.
\<close>

theorem exposure_failure_final:
  assumes "meta_lib_ok (Lib E)" and "konf_api_ok (Api E)" and "setExposureValidationFailure E err dep w = (dep', w')"
    and "validateExposePorts (FluxTCP E) services = Some err"
  shows "adResults dep' = None \<and> hasExposureValidationFailure E dep' \<and>
    \<not> IsStatusConditionTrue (Lib E) (adConditions dep') (ArtifactDeploymentReadyCondition (Api E)) \<and>
    \<not> IsStatusConditionTrue (Lib E) (adConditions dep') (DeploymentResultCreatedCondition (Api E)) \<and>
    DeploymentResult_MutateStatus E dep' v = ((None, dep'), v) \<and> Ready_MutateStatus E dep' v = ((None, dep'), v)"
proof -
  let ?ready = "ArtifactDeploymentReadyCondition (Api E)" and ?created = "DeploymentResultCreatedCondition (Api E)"
    and ?stalled = "StalledCondition (Api E)"
  have distinct: "distinct [?created, ?ready, ?stalled]" using assms(2) by (auto simp: konf_api_ok_def)
  have reason: "evReason err = stalledReasonExposePortNotFound \<or> evReason err = stalledReasonExposePortUnsupportedProtocol"
    using assms(4) by (induction services) (auto simp: Let_def split: if_splits option.splits)
  obtain now where now: "dep' = dep\<lparr>adResults := None, adConditions := fold (\<lambda>(ty, status) cs. SetStatusCondition (Lib E) now cs
        \<lparr>cType = ty, cStatus = status, cReason = evReason err, cMessage = evMessage err,
         cObservedGeneration = Generation dep, cLastTransitionTime = Some now\<rparr>)
        [(?created, ConditionFalse), (?ready, ConditionFalse), (?stalled, ConditionTrue)] (adConditions dep)\<rparr>"
    using assms(3) by (auto simp: setExposureValidationFailure_def split: prod.splits)
  have true: "IsStatusConditionTrue (Lib E) (adConditions dep') ty =
      (if ty = ?stalled then True else if ty = ?ready \<or> ty = ?created then False
       else IsStatusConditionTrue (Lib E) (adConditions dep) ty)" for ty
    using distinct by (simp add: now is_true_set [OF assms(1)])
  obtain c where "FindStatusCondition (Lib E) (adConditions dep') ?stalled = Some c" "cStatus c = ConditionTrue"
    "cReason c = evReason err"
  proof -
    let ?c = "\<lparr>cType = ?stalled, cStatus = ConditionTrue, cReason = evReason err, cMessage = evMessage err,
      cObservedGeneration = Generation dep, cLastTransitionTime = Some now\<rparr>"
    obtain cs where "adConditions dep' = SetStatusCondition (Lib E) now cs ?c" by (simp add: now)
    moreover obtain c' where "FindStatusCondition (Lib E) (SetStatusCondition (Lib E) now cs ?c) (cType ?c) = Some c'"
      "same_cond c' ?c" by (rule find_set_same [OF assms(1)])
    ultimately show thesis using that by (auto simp: same_cond_def)
  qed
  then have failed: "hasExposureValidationFailure E dep'" using reason by (auto simp: hasExposureValidationFailure_def)
  show ?thesis using failed true [of ?ready] true [of ?created] true [of ?stalled] distinct
    by (auto simp: now DeploymentResult_MutateStatus_def Ready_MutateStatus_def)
qed

section \<open>Which Services are looked at\<close>

text \<open>
  What the client and the label selector are relied on for: a selector lists exactly the Services of
  the namespace that carry its labels.
\<close>

definition selects :: "string gomap \<Rightarrow> Service \<Rightarrow> bool" where
  "selects sel service \<longleftrightarrow> (\<forall>(k, v) \<in> set sel. map_of (Labels service) k = Some v)"

definition service_list_ok :: "'s flux_env \<Rightarrow> ('s \<Rightarrow> Service list) \<Rightarrow> bool" where
  "service_list_ok E view \<longleftrightarrow>
     (\<forall>m sel. LabelSelectorAsSelector E m = Inr sel \<longrightarrow> sel = m) \<and>
     (\<forall>ns sel s services. fst (ListServices E ns sel s) = Inr services \<longrightarrow>
        services = filter (\<lambda>x. Namespace x = ns \<and> selects sel x) (view s))"

text \<open>A Service that carries the labels of the specification Flux was given for the deployment.\<close>

definition deployed_for :: "string gomap \<Rightarrow> ArtifactDeployment \<Rightarrow> Service \<Rightarrow> bool" where
  "deployed_for labels dep service \<longleftrightarrow>
     Namespace service = Namespace dep \<and> (\<forall>(k, v) \<in> set labels. map_of (Labels service) k = Some v)"

text \<open>
  C27. Flux labels everything it deploys with the name of the deployment, and the results are read
  from the Services with the sanitized name as the label. The two agree exactly for names that
  sanitizing leaves alone, which all DNS labels are: then the Services found are those deployed. For
  any other name, for instance one with a dot, none of the deployed Services is found.
\<close>

theorem deployed_services_found:
  assumes "service_list_ok E view" and "mutateHelmRelease E dep res rel w0 = (Inr rel', w1)"
    and "fetchExposableServices E dep w = (Inr services, w')"
  shows "(if SanitizeK8sResourceName (LowerTable E) (Name dep) = Name dep
      then services = filter (deployed_for (rsCommonLabels (hrelSpec rel')) dep) (view (srv w))
      else \<forall>x \<in> set services. \<not> deployed_for (rsCommonLabels (hrelSpec rel')) dep x) \<and>
    (dns_label (Name dep) \<longrightarrow> SanitizeK8sResourceName (LowerTable E) (Name dep) = Name dep)"
proof -
  let ?n = "SanitizeK8sResourceName (LowerTable E) (Name dep)"
  have labels: "rsCommonLabels (hrelSpec rel') = [(labelArtifactDeployment, Name dep)]"
    using assms(2) by (auto simp: mutateHelmRelease_def labelArtifactDeployment_def split: sum.splits prod.splits)
  obtain sel where sel: "LabelSelectorAsSelector E [(labelArtifactDeployment, ?n)] = Inr sel"
    using assms(3) by (auto simp: fetchExposableServices_def split: sum.splits)
  then have "sel = [(labelArtifactDeployment, ?n)]" using assms(1) unfolding service_list_ok_def by blast
  moreover have "services = filter (\<lambda>x. Namespace x = Namespace dep \<and> selects sel x) (view (srv w))"
    using assms(3) sel assms(1) unfolding service_list_ok_def
    by (auto simp: fetchExposableServices_def dest!: call_eqD split: sum.splits prod.splits)
  ultimately have found: "services = filter (\<lambda>x. Namespace x = Namespace dep \<and>
      map_of (Labels x) labelArtifactDeployment = Some ?n) (view (srv w))" by (simp add: selects_def)
  have "dns_label (Name dep) \<longrightarrow> ?n = Name dep"
    using sanitize_dns_label by blast
  moreover have "deployed_for [(labelArtifactDeployment, Name dep)] dep = (\<lambda>x. Namespace x = Namespace dep \<and>
      map_of (Labels x) labelArtifactDeployment = Some (Name dep))" by (simp add: deployed_for_def fun_eq_iff)
  ultimately show ?thesis by (auto simp: found labels)
qed

end
