(* ===== verification/Flux_Examples.thy ===== *)
theory Flux_Examples
  imports Flux_Properties
begin

text \<open>
  A small cluster in which the theorems on the Flux deployer apply: one artifact deployment of type
  Kustomize, whose OCIRepository and Kustomization are ready at once, and one Service deployed by it.
\<close>

section \<open>The cluster\<close>

definition ready_conditions :: "Condition list" where
  "ready_conditions =
     [\<lparr>cType = ''Ready'', cStatus = ConditionTrue, cReason = ''Ok'', cMessage = [], cObservedGeneration = 1, cLastTransitionTime = None\<rparr>,
      \<lparr>cType = ''Healthy'', cStatus = ConditionTrue, cReason = ''Ok'', cMessage = [], cObservedGeneration = 1, cLastTransitionTime = None\<rparr>]"

definition sample_content :: string where
  "sample_content = ''{'' @ [dquote] @ ''type'' @ [dquote] @ '':'' @ [dquote] @ ''ociArtifact'' @ [dquote] @ '',''
     @ [dquote] @ ''imageReference'' @ [dquote] @ '':'' @ [dquote] @ ''http://reg/shop:1'' @ [dquote] @ ''}''"

definition sample_deployment :: ArtifactDeployment where
  "sample_deployment = ObjectMeta.extend (new_meta ''land'' ''shop'')
     (ArtifactDeployment.fields ArtifactTypeKustomize
       [\<lparr>ocmName = ''manifests'', ocmType = ''kustomize'', ocmContent = sample_content\<rparr>] [] None)"

definition sample_port :: ServicePort where
  "sample_port = \<lparr>spName = ''http'', spProtocol = ''TCP'', spPort = 80, spOther = []\<rparr>"

definition flux_sample_service :: Service where
  "flux_sample_service = ObjectMeta.extend ((new_meta ''land'' ''shop-v1'')
     \<lparr>Labels := [(labelArtifactDeployment, ''shop'')],
      Annotations := [(annotationDeploymentResult, ''shop''), (fluxAnnotationExposedPortName, ''http'')]\<rparr>)
     (Service.fields [sample_port])"

text \<open>A codec for ports that is good enough for the lists that occur.\<close>

definition sample_encode :: "ServicePort list \<Rightarrow> json result" where
  "sample_encode ps = (if ps = [sample_port] then Inr (JArr []) else if ps = [] then Inr JNull else Inl (ErrMsg ''port''))"

definition flux_sample_json :: json_env where
  "flux_sample_json =
     \<lparr>DecodeServicePorts = (\<lambda>_ j. if j = JArr [] then Some [sample_port] else if j = JNull then Some [] else None),
      FieldFold = (\<lambda>r. r), UnmarshalErrorText = (\<lambda>_. ''invalid'')\<rparr>"

definition sample_flux :: "Service list flux_env" where
  "sample_flux = base_env.extend \<lparr>Lib = plain_lib, Api = plain_api, Now = \<lambda>s. (7, s)\<rparr>
     (flux_env.fields flux_sample_json
       \<lparr>ParseReference = (\<lambda>_. Inr \<lparr>refDomain = ''reg'', refPath = ''shop'', refTag = Some ''1''\<rparr>)\<rparr> (\<lambda>r. r)
       ''version'' ''hash'' ''oci'' ''HelmRepository'' ''OCIRepository'' ''enabled'' ''TCP'' adArtifactType
       Inr (\<lambda>n. n) (\<lambda>_ m. Inr (OwnerReferences m)) sample_encode Inr
       (\<lambda>k s. (if k = nsname ''land'' ''shop'' then Inr sample_deployment else Inl (ErrApi ReasonNotFound ''not found''), s))
       (\<lambda>_ _ s. (Inr (), s))
       (\<lambda>k s. (Inr (ObjectMeta.extend (new_meta (nnNamespace k) (nnName k)) (HelmRepository.fields
          \<lparr>hrsInterval = 0, hrsURL = [], hrsInsecure = False, hrsSecretRef = None, hrsType = []\<rparr>)), s))
       (\<lambda>obj s. (Inr (obj, ''created''), s))
       (\<lambda>k s. (Inr (ObjectMeta.extend (new_meta (nnNamespace k) (nnName k)) (OCIRepository.fields
          \<lparr>osInterval = 0, osURL = [], osInsecure = False, osSecretRef = None, osTag = []\<rparr> ready_conditions)), s))
       (\<lambda>obj s. (Inr (obj, ''created''), s))
       (\<lambda>k s. (Inl (ErrMsg ''helm''), s)) (\<lambda>obj s. (Inr (obj, ''created''), s))
       (\<lambda>k s. (Inr (ObjectMeta.extend (new_meta (nnNamespace k) (nnName k)) (Kustomization.fields
          \<lparr>ksInterval = 0, ksSourceRef = \<lparr>srKind = [], srNamespace = [], srName = []\<rparr>, ksPath = [], ksKubeConfig = None,
            ksTargetNamespace = [], ksNameSuffix = [], ksPrune = False, ksWait = False, ksCommonLabels = []\<rparr> ready_conditions)), s))
       (\<lambda>obj s. (Inr (obj, ''created''), s))
       (\<lambda>k s. (Inl (ErrMsg ''chart''), s))
       (\<lambda>ns ty s. (Inr (ObjectMeta.extend (new_meta ns ''local'') (DeploymentTarget.fields ty None [])), s))
       (\<lambda>cm d s. (Inr [], s)) (\<lambda>k s. (Inl (ErrApi ReasonNotFound ''not found''), s))
       (\<lambda>ns sel s. (Inr (filter (\<lambda>x. Namespace x = ns \<and> selects sel x) s), s)))"

lemma sample_flux_ok: "meta_lib_ok (Lib sample_flux)" "konf_api_ok (Api sample_flux)"
  by (simp_all add: sample_flux_def base_env.extend_def flux_env.fields_def plain_lib_ok plain_api_ok)

lemma sample_codec_ok: "port_codec_ok flux_sample_json sample_encode"
  by (auto simp: port_codec_ok_def sample_encode_def flux_sample_json_def maxNestingDepth_def)

abbreviation sample_flux_run :: "reconcile_ret \<times> Service list flux_world" where
  "sample_flux_run \<equiv> Kustomize_Reconcile sample_flux (nsname ''land'' ''shop'') \<lparr>srv = [flux_sample_service], trace = []\<rparr>"

lemma sample_kustomize:
  "ToKustomize flux_sample_json \<lparr>ParseReference = (\<lambda>_. Inr \<lparr>refDomain = ''reg'', refPath = ''shop'', refTag = Some ''1''\<rparr>)\<rparr>
     \<lparr>ocmName = ''manifests'', ocmType = ''kustomize'', ocmContent = sample_content\<rparr> =
   Inr \<lparr>kzOCMResource = \<lparr>ocmName = ''manifests'', ocmType = ''kustomize'', ocmContent = sample_content\<rparr>,
     kzRepository = ''oci://reg/shop'', kzPath = ''./'', kzTag = ''1'', kzInsecure = True\<rparr>"
  by (simp add: ToKustomize_def decode_access_def unmarshal_struct_def sample_content_def json_eval set_ociContent_def
      field_fold_ascii flux_sample_json_def fold_rune_def decode_string_def zero_access_def unquote_plain tagged_reference_def
      splitScheme_def HasPrefix_def TrimPrefix_def)

lemma sample_name: "SanitizeK8sResourceName lowerU ''shop'' = ''shop''"
  by (rule sanitize_dns_label) (simp add: dns_label_def name_rune_def alnum_def byte_def)

lemmas flux_eval = sample_flux_def base_env.extend_def flux_env.fields_def call_def silent_def emit_def
  sample_deployment_def ObjectMeta.extend_def new_meta_def ArtifactDeployment.fields_def OCIRepository.fields_def
  Kustomization.fields_def DeploymentTarget.fields_def Service.fields_def ready_conditions_def plain_lib_def plain_api_def
  set_condition_def own_if_new_def ObjectMeta.truncate_def conditionTypeReady_def plain_stamp_def

lemmas flux_code = Kustomize_Reconcile_def Deployment_Reconcile_def reconcile_kustomize_def OCIRepository_Reconcile_def
  Kustomization_Reconcile_def CreateOrUpdate_def mutateOCIRepository_def mutateKustomization_def getSecretRef_def
  GetKubeConfigRef_def GetKonfidenceLabel_def go_index_def IsNotFound_def mapOCIRepositoryConditionType_def
  mapKustomizationConditionType_def finish_status_def DeploymentResult_MutateStatus_def hasExposureValidationFailure_def
  fetchExposableServices_def Ready_MutateStatus_def patch_status_def ocmResourceTypeKustomize_def

text \<open>The run ends with the deployment ready, after the Kustomization was stored.\<close>

lemma sample_service_found:
  "selects [(labelArtifactDeployment, ''shop'')] flux_sample_service" "Namespace flux_sample_service = ''land''"
  "validateExposePorts ''TCP'' [flux_sample_service] = None"
  by (simp_all add: selects_def flux_sample_service_def ObjectMeta.extend_def new_meta_def Service.fields_def go_index_def
      hasDeploymentResultName_def annotationDeploymentResult_def fluxAnnotationExposedPortName_def sample_port_def Let_def)

lemma sample_results:
  "\<exists>raw. mapServicesToDeploymentResults sample_encode [flux_sample_service] =
     Inr [\<lparr>drName = ''shop'', drType = TypeHTTPK8sService, drSpec = raw\<rparr>]"
  by (simp add: mapServicesToDeploymentResults_def marshal_spec_def sample_encode_def flux_sample_service_def service_spec_def
      ObjectMeta.extend_def new_meta_def Service.fields_def go_index_def hasDeploymentResultName_def
      annotationDeploymentResult_def fluxAnnotationExposedPortName_def Let_def)

lemma sample_flux_result:
  "fst sample_flux_run = (\<lparr>RequeueAfter = Minute\<rparr>, None) \<and>
   (\<exists>obj a. EvStoreKustomization obj a \<in> set (trace (snd sample_flux_run))) \<and>
   (\<exists>old new a. EvPatchDeploymentStatus old new a \<in> set (trace (snd sample_flux_run)) \<and>
      IsStatusConditionTrue plain_lib (adConditions new) ''Ready'')"
proof -
  obtain raw where "mapServicesToDeploymentResults sample_encode [flux_sample_service] =
     Inr [\<lparr>drName = ''shop'', drType = TypeHTTPK8sService, drSpec = raw\<rparr>]" using sample_results by blast
  then show ?thesis
    by (simp add: flux_code flux_eval sample_kustomize sample_name sample_service_found ParseBool_def
        artifactDeploymentRequeueInterval_def Let_def del: validateExposePorts.simps)
qed

section \<open>The theorems at work\<close>

theorem flux_apply_order_witness:
  "\<exists>repo b op. EvStoreOCIRepository repo (Inr (b, op)) \<in> set (trace (snd sample_flux_run)) \<and>
     IsStatusConditionTrue (Lib sample_flux) (ociConditions b) ''Ready''"
proof -
  obtain obj a where "EvStoreKustomization obj a \<in> set (trace (snd sample_flux_run))" using sample_flux_result by blast
  then obtain pre post where split: "trace (snd sample_flux_run) = pre @ EvStoreKustomization obj a # post"
    by (auto dest: split_list)
  from flux_apply_order [OF sample_flux_ok disjI2 [OF prod.collapse [symmetric]] split] obtain repo b op where
    "EvStoreOCIRepository repo (Inr (b, op)) \<in> set pre" "IsStatusConditionTrue (Lib sample_flux) (ociConditions b) ''Ready''"
    by blast
  then show ?thesis unfolding split by auto
qed

theorem flux_ready_justified_witness:
  "\<exists>old new a. EvPatchDeploymentStatus old new a \<in> set (trace (snd sample_flux_run)) \<and>
     EvGetDeployment (nsname ''land'' ''shop'') (Inr old) \<in> set (trace (snd sample_flux_run)) \<and> Name new = Name old"
proof -
  obtain old new a where "EvPatchDeploymentStatus old new a \<in> set (trace (snd sample_flux_run))" using sample_flux_result by blast
  then obtain pre post where split: "trace (snd sample_flux_run) = pre @ EvPatchDeploymentStatus old new a # post"
    by (auto dest: split_list)
  from flux_ready_justified [OF sample_flux_ok disjI2 [OF prod.collapse [symmetric]] split]
  have "EvGetDeployment (nsname ''land'' ''shop'') (Inr old) \<in> set pre" "Name new = Name old" by auto
  then show ?thesis unfolding split by (intro exI [of _ old] exI [of _ new] exI [of _ a]) simp
qed

abbreviation flux_sample_udp_service :: Service where
  "flux_sample_udp_service \<equiv> flux_sample_service\<lparr>svcPorts := [sample_port\<lparr>spProtocol := ''UDP''\<rparr>]\<rparr>"

theorem exposure_failure_final_witness:
  "\<exists>err. validateExposePorts (FluxTCP sample_flux) [flux_sample_udp_service] = Some err \<and>
     hasExposureValidationFailure sample_flux
       (fst (setExposureValidationFailure sample_flux err sample_deployment \<lparr>srv = [], trace = []\<rparr>))"
proof -
  obtain err where err: "validateExposePorts (FluxTCP sample_flux) [flux_sample_udp_service] = Some err"
    by (simp add: flux_sample_service_def sample_port_def flux_eval hasDeploymentResultName_def go_index_def
        annotationDeploymentResult_def fluxAnnotationExposedPortName_def)
  from exposure_failure_final [OF sample_flux_ok prod.collapse [symmetric] err]
  show ?thesis using err by blast
qed

lemma sample_flux_lists: "service_list_ok sample_flux (\<lambda>s. s)"
  by (simp add: service_list_ok_def sample_flux_def base_env.extend_def flux_env.fields_def)

abbreviation sample_release :: HelmRelease where
  "sample_release \<equiv> ObjectMeta.extend (new_meta ''land'' ''shop'') (HelmRelease.fields
     \<lparr>rsInterval = 0, rsSourceRef = \<lparr>srKind = [], srNamespace = [], srName = []\<rparr>, rsChart = [], rsVersion = [], rsReleaseName = [],
       rsKubeConfig = None, rsTargetNamespace = [], rsStorageNamespace = [], rsDriftDetection = [], rsInstallTimeout = 0,
       rsCommonLabels = []\<rparr> [])"

abbreviation sample_chart :: HelmChartResource where
  "sample_chart \<equiv> \<lparr>hcOCMResource = \<lparr>ocmName = [], ocmType = [], ocmContent = []\<rparr>, hcRepository = ''oci://reg'',
     hcChartName = ''shop'', hcVersion = ''1'', hcInsecure = False\<rparr>"

lemma pair_of_fst: "fst p = a \<Longrightarrow> p = (a, snd p)"
  by (cases p) simp

theorem deployed_services_found_witness:
  "\<exists>labels w'. fetchExposableServices sample_flux sample_deployment \<lparr>srv = [flux_sample_service], trace = []\<rparr> =
     (Inr (filter (deployed_for labels sample_deployment) [flux_sample_service]), w') \<and>
   filter (deployed_for labels sample_deployment) [flux_sample_service] = [flux_sample_service]"
proof -
  let ?w = "\<lparr>srv = [flux_sample_service], trace = []\<rparr>"
  have name: "SanitizeK8sResourceName (LowerTable sample_flux) (Name sample_deployment) = Name sample_deployment"
    by (simp add: flux_eval sample_name)
  have found: "fst (fetchExposableServices sample_flux sample_deployment ?w) = Inr [flux_sample_service]"
    by (simp add: fetchExposableServices_def flux_eval sample_name sample_service_found)
  note fetch = pair_of_fst [OF found]
  have "\<exists>rel. fst (mutateHelmRelease sample_flux sample_deployment sample_chart sample_release ?w) = Inr rel"
    by (simp add: mutateHelmRelease_def GetKubeConfigRef_def flux_eval HelmRelease.fields_def)
  then obtain rel where "fst (mutateHelmRelease sample_flux sample_deployment sample_chart sample_release ?w) = Inr rel" ..
  note rel = pair_of_fst [OF this]
  let ?F = "filter (deployed_for (rsCommonLabels (hrelSpec rel)) sample_deployment) [flux_sample_service]"
  have F: "[flux_sample_service] = ?F"
    using deployed_services_found [OF sample_flux_lists rel fetch, THEN conjunct1] by (simp only: name refl if_True world.select_convs)
  have "fetchExposableServices sample_flux sample_deployment ?w =
      (Inr ?F, snd (fetchExposableServices sample_flux sample_deployment ?w))" unfolding F [symmetric] by (rule fetch)
  with F [symmetric] show ?thesis by blast
qed

lemma sample_spec_valid: "spec_strings_valid (service_spec flux_sample_service)"
  by (simp add: spec_strings_valid_def service_spec_def flux_sample_service_def ObjectMeta.extend_def new_meta_def go_index_def
      annotationDeploymentResult_def fluxAnnotationExposedPortName_def ValidString_def runes_ascii byte_def encode_runes_def
      EncodeRune_def valid_rune_def enc_rune_def, code_simp)

theorem ServiceSpec_roundtrip_witness:
  "\<exists>raw. marshal_spec sample_encode (service_spec flux_sample_service) = Inr raw \<and>
     unmarshal_ServiceSpec flux_sample_json raw = Inr (service_spec flux_sample_service)"
proof -
  obtain raw where raw: "marshal_spec sample_encode (service_spec flux_sample_service) = Inr raw"
    by (simp add: marshal_spec_def sample_encode_def service_spec_def flux_sample_service_def ObjectMeta.extend_def Service.fields_def)
  with ServiceSpec_roundtrip [OF sample_codec_ok sample_spec_valid raw] show ?thesis by blast
qed

theorem mapServicesToDeploymentResults_correct_witness:
  "\<exists>rs. mapServicesToDeploymentResults sample_encode [flux_sample_service] = Inr rs \<and> distinct (map drName rs) \<and> rs \<noteq> []"
  using mapServicesToDeploymentResults_correct [OF sample_codec_ok, of "[flux_sample_service]"] sample_results by blast

definition sample_route_env :: route_env where
  "sample_route_env = \<lparr>Json = flux_sample_json,
     Net = \<lparr>RoutabilityCluster = ''Cluster'', GatewayConditionAccepted = ''Accepted'', GatewayConditionProgrammed = ''Programmed'',
       HTTPProtocolType = ''HTTP'', FilterRequestHeaderModifier = ''RequestHeaderModifier'', ProtocolTCP = ''TCP''\<rparr>,
     SortSlice = sort_key tgName\<rparr>"

theorem published_services_routed_witness:
  "\<exists>raw rules. buildRouteRules sample_route_env ''prod'' (ObjectMeta.extend (new_meta ''land'' ''v1'')
      (VectorDeployment.fields [(''shop'', [\<lparr>drName = ''shop'', drType = TypeHTTPK8sService, drSpec = raw\<rparr>])])) = Inr rules \<and>
     length rules = 1"
proof -
  obtain raw where raw: "mapServicesToDeploymentResults sample_encode [flux_sample_service] =
      Inr [\<lparr>drName = ''shop'', drType = TypeHTTPK8sService, drSpec = raw\<rparr>]" using sample_results by blast
  let ?d = "ObjectMeta.extend (new_meta ''land'' ''v1'')
      (VectorDeployment.fields [(''shop'', [\<lparr>drName = ''shop'', drType = TypeHTTPK8sService, drSpec = raw\<rparr>])])"
  have results: "vdepDeploymentResults ?d = [(''shop'', [\<lparr>drName = ''shop'', drType = TypeHTTPK8sService, drSpec = raw\<rparr>])]"
    by (simp add: ObjectMeta.extend_def VectorDeployment.fields_def)
  have "published (ProtocolTCP (Net sample_route_env)) sample_encode [flux_sample_service]
      [\<lparr>drName = ''shop'', drType = TypeHTTPK8sService, drSpec = raw\<rparr>]"
    using raw sample_service_found(3) sample_spec_valid
    by (simp add: published_def sample_route_env_def del: validateExposePorts.simps)
  then obtain rules where rules: "buildRouteRules sample_route_env ''prod'' ?d = Inr rules"
    "mset rules = mset (map (route_rule (Net sample_route_env) ''prod'' (Name ?d))
      (List.map_filter service_target (concat (map (\<lambda>(component, _). [flux_sample_service]) (vdepDeploymentResults ?d)))))"
    using published_services_routed [of sample_route_env sample_encode ?d "\<lambda>_. [flux_sample_service]" "''prod''"] sample_codec_ok
    by (auto simp: results sample_route_env_def sort_slice_ok_def)
  have "service_target flux_sample_service \<noteq> None"
    by (simp add: service_target_def flux_sample_service_def hasDeploymentResultName_def go_index_def sample_port_def
        ObjectMeta.extend_def new_meta_def Service.fields_def annotationDeploymentResult_def fluxAnnotationExposedPortName_def)
  then have "length rules = 1" using arg_cong [OF rules(2), of size] by (auto simp: results)
  with rules(1) show ?thesis by blast
qed

end
