(* ===== verification/Operator.thy ===== *)
theory Operator
  imports VectorData_Controller Task_Execution Deployment_Target "HOL-Library.Multiset"
begin

text \<open>
  Start-up of the operator process: \<^verbatim>\<open>main.go\<close>, \<^verbatim>\<open>cmd/root.go\<close>, \<^verbatim>\<open>cmd/operator.go\<close>, the
  \<^verbatim>\<open>SetupControllers\<close> functions of the five controller packages and the \<^verbatim>\<open>SetupWithManager\<close> methods of
  their reconcilers.

  The manager, the flag parser of cobra, the scheme builders and the filter for \<^verbatim>\<open>--controllers\<close> are not
  part of the repository: they are the fields of \<open>op_env\<close>. What a reconciler asks the controller
  builder for is a value of type \<open>registration\<close>. \<^verbatim>\<open>controllerSetups\<close> is a Go map; the orders in which its
  keys are collected and its entries are visited are arguments of the model.
\<close>

section \<open>Registrations\<close>

datatype scheme_pkg = Clientgoscheme | Konfidencev1alpha1 | Sourcev1 | Helmv2 | Kustomizev1 | Gatewayv1

datatype kind =
    KArtifactDeployment | KDeploymentTarget | KVectorData | KTaskExecution | KActivationTaskExecution | KStage
  | KHelmRepository | KHelmChart | KOCIRepository | KHelmRelease | KKustomization | KJob | KSecret

text \<open>The package a kind is declared in, which is the one whose scheme builder knows it.\<close>

fun kind_package :: "kind \<Rightarrow> scheme_pkg" where
  "kind_package KHelmRepository = Sourcev1"
| "kind_package KHelmChart = Sourcev1"
| "kind_package KOCIRepository = Sourcev1"
| "kind_package KHelmRelease = Helmv2"
| "kind_package KKustomization = Kustomizev1"
| "kind_package KJob = Clientgoscheme"
| "kind_package KSecret = Clientgoscheme"
| "kind_package _ = Konfidencev1alpha1"

text \<open>
  The predicates the watches are built with. The two event filters and the comparison of deletion
  timestamps are modelled with their controllers.
\<close>

datatype watch_predicate =
    GenerationChangedPredicate | ArtifactTypePredicate string | DeletionTimestampDiffers
  | OrPredicate watch_predicate watch_predicate | TaskExecutionFilter | ActivationTaskExecutionFilter

datatype registration =
    Controller (regName: string) (regFor: kind) (regPredicates: "watch_predicate list")
      (regEventFilter: "watch_predicate option") (regOwns: "kind list") (regWatches: "(kind \<times> watch_predicate list) list")
  | TargetController (regName: string) (regArtifactTypes: "string list") (regTargetWatches: "kind list")

fun reg_kinds :: "registration \<Rightarrow> kind list" where
  "reg_kinds (Controller n k ps f os ws) = k # os @ map fst ws"
| "reg_kinds (TargetController n ts ws) = KDeploymentTarget # ws"

record operator_flags =
  enableLeaderElection :: bool
  probeAddr :: string
  metricsAddr :: string
  controllersSpec :: string
  leaseID :: string

text \<open>
  \<open>BuildVersion\<close> is \<^verbatim>\<open>build.Version\<close>, which the linker may set. \<open>ParseFlags\<close> gives \<open>None\<close> when the
  command line asks for the usage text only, and \<open>GetConfig\<close> says whether a cluster configuration
  was found: without one \<^verbatim>\<open>GetConfigOrDie\<close> ends the process.
\<close>

record 's op_env =
  BuildVersion :: string
  AddToScheme :: "scheme_pkg \<Rightarrow> 's \<Rightarrow> unit result \<times> 's"
  ParseFlags :: "operator_flags \<Rightarrow> string list \<Rightarrow> operator_flags option result"
  GetConfig :: "'s \<Rightarrow> bool \<times> 's"
  NewManager :: "operator_flags \<Rightarrow> 's \<Rightarrow> unit result \<times> 's"
  FilterEnabledControllers :: "string \<Rightarrow> string list \<Rightarrow> (string \<Rightarrow> bool) result"
  IndexField :: "kind \<Rightarrow> string \<Rightarrow> 's \<Rightarrow> unit result \<times> 's"
  Complete :: "registration \<Rightarrow> 's \<Rightarrow> unit result \<times> 's"
  AddHealthzCheck :: "string \<Rightarrow> 's \<Rightarrow> unit result \<times> 's"
  AddReadyzCheck :: "string \<Rightarrow> 's \<Rightarrow> unit result \<times> 's"
  StartManager :: "'s \<Rightarrow> unit result \<times> 's"

datatype op_event =
    EvNewManager operator_flags "unit result"
  | EvIndexField kind string "unit result"
  | EvComplete registration "unit result"
  | EvAddHealthz string "unit result"
  | EvAddReadyz string "unit result"
  | EvStart "unit result"

type_synonym 's op_world = "('s, op_event) world"

section \<open>The reconcilers' registrations\<close>

definition helm_registration :: registration where
  "helm_registration =
     Controller ''helm_artifactdeployment'' KArtifactDeployment
       [GenerationChangedPredicate, ArtifactTypePredicate ArtifactTypeHelm] None
       [KHelmRepository, KHelmChart, KHelmRelease] [(KDeploymentTarget, [ArtifactTypePredicate ArtifactTypeHelm])]"

definition Helm_SetupWithManager :: "'s op_env \<Rightarrow> 's op_world \<Rightarrow> unit result \<times> 's op_world" where
  "Helm_SetupWithManager E = call (Complete E helm_registration) (EvComplete helm_registration)"

definition kustomize_registration :: registration where
  "kustomize_registration =
     Controller ''kustomize_artifactdeployment'' KArtifactDeployment
       [GenerationChangedPredicate, ArtifactTypePredicate ArtifactTypeKustomize] None
       [KOCIRepository, KKustomization] [(KDeploymentTarget, [ArtifactTypePredicate ArtifactTypeKustomize])]"

definition Kustomize_SetupWithManager :: "'s op_env \<Rightarrow> 's op_world \<Rightarrow> unit result \<times> 's op_world" where
  "Kustomize_SetupWithManager E = call (Complete E kustomize_registration) (EvComplete kustomize_registration)"

definition task_registration :: registration where
  "task_registration =
     Controller ''taskExecution'' KTaskExecution [GenerationChangedPredicate] (Some TaskExecutionFilter) [KJob] []"

definition Task_SetupWithManager :: "'s op_env \<Rightarrow> 's op_world \<Rightarrow> unit result \<times> 's op_world" where
  "Task_SetupWithManager E w =
     (let (i, w1) = call (IndexField E KJob taskExecutionOwnerKey) (EvIndexField KJob taskExecutionOwnerKey) w
      in case i of
           Inl e \<Rightarrow> (Inl (ErrWrap ''unable to create index for job owner reference: '' e), w1)
         | Inr _ \<Rightarrow> call (Complete E task_registration) (EvComplete task_registration) w1)"

definition activation_registration :: registration where
  "activation_registration =
     Controller ''activationTaskExecution'' KActivationTaskExecution [GenerationChangedPredicate]
       (Some ActivationTaskExecutionFilter) [] []"

definition Activation_SetupWithManager :: "'s op_env \<Rightarrow> 's op_world \<Rightarrow> unit result \<times> 's op_world" where
  "Activation_SetupWithManager E = call (Complete E activation_registration) (EvComplete activation_registration)"

definition cleanup_registration :: registration where
  "cleanup_registration = Controller ''stageRouteCleanup'' KStage [] None [] []"

definition StageRouteCleanup_SetupWithManager :: "'s op_env \<Rightarrow> 's op_world \<Rightarrow> unit result \<times> 's op_world" where
  "StageRouteCleanup_SetupWithManager E = call (Complete E cleanup_registration) (EvComplete cleanup_registration)"

definition vectordata_registration :: registration where
  "vectordata_registration =
     Controller VectorDataControllerName KVectorData
       [OrPredicate GenerationChangedPredicate DeletionTimestampDiffers] None [] []"

definition VectorData_SetupWithManager :: "'s op_env \<Rightarrow> 's op_world \<Rightarrow> unit result \<times> 's op_world" where
  "VectorData_SetupWithManager E = call (Complete E vectordata_registration) (EvComplete vectordata_registration)"

definition target_registration :: "'s op_env \<Rightarrow> registration" where
  "target_registration E =
     TargetController (ControllerName @ '':'' @ BuildVersion E) SupportedArtifactTypes [KSecret]"

section \<open>Setting up the controllers\<close>

definition fluxdeployer_SetupControllers :: "'s op_env \<Rightarrow> 's op_world \<Rightarrow> go_error option \<times> 's op_world" where
  "fluxdeployer_SetupControllers E w =
     (let (h, w1) = Helm_SetupWithManager E w
      in case h of
           Inl e \<Rightarrow> (Some e, w1)
         | Inr _ \<Rightarrow>
             (let (k, w2) = Kustomize_SetupWithManager E w1
              in case k of Inl e \<Rightarrow> (Some e, w2) | Inr _ \<Rightarrow> (None, w2)))"

definition taskexecution_SetupControllers :: "'s op_env \<Rightarrow> 's op_world \<Rightarrow> go_error option \<times> 's op_world" where
  "taskexecution_SetupControllers E w =
     (let (r, w1) = Task_SetupWithManager E w in case r of Inl e \<Rightarrow> (Some e, w1) | Inr _ \<Rightarrow> (None, w1))"

definition activationexecution_SetupControllers :: "'s op_env \<Rightarrow> 's op_world \<Rightarrow> go_error option \<times> 's op_world" where
  "activationexecution_SetupControllers E w =
     (let (a, w1) = Activation_SetupWithManager E w
      in case a of
           Inl e \<Rightarrow> (Some e, w1)
         | Inr _ \<Rightarrow>
             (let (c, w2) = StageRouteCleanup_SetupWithManager E w1
              in case c of Inl e \<Rightarrow> (Some e, w2) | Inr _ \<Rightarrow> (None, w2)))"

definition vectordata_SetupControllers :: "'s op_env \<Rightarrow> 's op_world \<Rightarrow> go_error option \<times> 's op_world" where
  "vectordata_SetupControllers E w =
     (let (r, w1) = VectorData_SetupWithManager E w in case r of Inl e \<Rightarrow> (Some e, w1) | Inr _ \<Rightarrow> (None, w1))"

definition deploymenttarget_SetupControllers :: "'s op_env \<Rightarrow> 's op_world \<Rightarrow> go_error option \<times> 's op_world" where
  "deploymenttarget_SetupControllers E w =
     (let (r, w1) = call (Complete E (target_registration E)) (EvComplete (target_registration E)) w
      in case r of Inl e \<Rightarrow> (Some e, w1) | Inr _ \<Rightarrow> (None, w1))"

definition fluxdeployer_OperatorFlagName :: string where
  "fluxdeployer_OperatorFlagName = ''FluxDeployer''"

definition taskexecution_OperatorFlagName :: string where
  "taskexecution_OperatorFlagName = ''TaskExecution''"

definition activationexecution_OperatorFlagName :: string where
  "activationexecution_OperatorFlagName = ''ActivationExecution''"

definition vectordata_OperatorFlagName :: string where
  "vectordata_OperatorFlagName = ''VectorData''"

definition deploymenttarget_OperatorFlagName :: string where
  "deploymenttarget_OperatorFlagName = ''DeploymentTarget''"

text \<open>The entries of the map of set-up functions.\<close>

definition controllerSetups :: "'s op_env \<Rightarrow> (string \<times> ('s op_world \<Rightarrow> go_error option \<times> 's op_world)) list" where
  "controllerSetups E =
     [(fluxdeployer_OperatorFlagName, fluxdeployer_SetupControllers E),
      (taskexecution_OperatorFlagName, taskexecution_SetupControllers E),
      (activationexecution_OperatorFlagName, activationexecution_SetupControllers E),
      (vectordata_OperatorFlagName, vectordata_SetupControllers E),
      (deploymenttarget_OperatorFlagName, deploymenttarget_SetupControllers E)]"

fun setup_loop ::
  "(string \<Rightarrow> bool) \<Rightarrow> (string \<times> ('w \<Rightarrow> go_error option \<times> 'w)) list \<Rightarrow> 'w \<Rightarrow> go_error option \<times> 'w" where
  "setup_loop enabled [] w = (None, w)"
| "setup_loop enabled ((name, setup) # entries) w =
     (if \<not> enabled name then setup_loop enabled entries w
      else let (err, w1) = setup w
           in case err of Some e \<Rightarrow> (Some e, w1) | None \<Rightarrow> setup_loop enabled entries w1)"

text \<open>
  \<open>keys\<close> and \<open>entries\<close> are the keys and the entries of the map in the order the run happens to see
  them. The result is \<open>None\<close> when the process ends before the function returns.
\<close>

definition startOperator ::
  "'s op_env \<Rightarrow> operator_flags \<Rightarrow> string list \<Rightarrow> (string \<times> ('s op_world \<Rightarrow> go_error option \<times> 's op_world)) list \<Rightarrow>
   's op_world \<Rightarrow> go_error option option \<times> 's op_world" where
  "startOperator E flags keys entries w =
     (let (config, w0) = silent (GetConfig E) w
      in if \<not> config then (None, w0)
         else let (m, w1) = call (NewManager E flags) (EvNewManager flags) w0
              in case m of
                   Inl e \<Rightarrow> (Some (Some e), w1)
                 | Inr _ \<Rightarrow>
                     case FilterEnabledControllers E (controllersSpec flags) keys of
                       Inl e \<Rightarrow> (Some (Some e), w1)
                     | Inr enabled \<Rightarrow>
                         (let (err, w2) = setup_loop enabled entries w1
                          in case err of
                               Some e \<Rightarrow> (Some (Some e), w2)
                             | None \<Rightarrow>
                                 (let (h, w3) = call (AddHealthzCheck E ''healthz'') (EvAddHealthz ''healthz'') w2
                                  in case h of
                                       Inl e \<Rightarrow> (Some (Some e), w3)
                                     | Inr _ \<Rightarrow>
                                         (let (r, w4) = call (AddReadyzCheck E ''readyz'') (EvAddReadyz ''readyz'') w3
                                          in case r of
                                               Inl e \<Rightarrow> (Some (Some e), w4)
                                             | Inr _ \<Rightarrow>
                                                 (let (s, w5) = call (StartManager E) EvStart w4
                                                  in case s of
                                                       Inl e \<Rightarrow> (Some (Some e), w5)
                                                     | Inr _ \<Rightarrow> (Some None, w5))))))"

section \<open>The process\<close>

text \<open>The scheme is filled and the flags are declared before \<^verbatim>\<open>main\<close> runs; \<^verbatim>\<open>Must\<close> panics.\<close>

definition scheme_packages :: "scheme_pkg list" where
  "scheme_packages = [Clientgoscheme, Konfidencev1alpha1, Sourcev1, Helmv2, Kustomizev1, Gatewayv1]"

fun must_loop :: "'s op_env \<Rightarrow> scheme_pkg list \<Rightarrow> 's op_world \<Rightarrow> unit option \<times> 's op_world" where
  "must_loop E [] w = (Some (), w)"
| "must_loop E (p # ps) w =
     (let (r, w1) = silent (AddToScheme E p) w in case r of Inl _ \<Rightarrow> (None, w1) | Inr _ \<Rightarrow> must_loop E ps w1)"

definition default_flags :: operator_flags where
  "default_flags =
     \<lparr>enableLeaderElection = False, probeAddr = '':8081'', metricsAddr = '':8080'', controllersSpec = ''*'',
      leaseID = ''orchestrator.konfidence.cloud''\<rparr>"

text \<open>The exit status of the process: 1 after an error, 2 after a panic.\<close>

definition Execute ::
  "'s op_env \<Rightarrow> string list \<Rightarrow> string list \<Rightarrow> (string \<times> ('s op_world \<Rightarrow> go_error option \<times> 's op_world)) list \<Rightarrow>
   's op_world \<Rightarrow> nat \<times> 's op_world" where
  "Execute E args keys entries w =
     (case ParseFlags E default_flags args of
        Inl _ \<Rightarrow> (1, w)
      | Inr None \<Rightarrow> (0, w)
      | Inr (Some flags) \<Rightarrow>
          (let (r, w1) = startOperator E flags keys entries w
           in (case r of Some None \<Rightarrow> 0 | _ \<Rightarrow> 1, w1)))"

definition operator_main ::
  "'s op_env \<Rightarrow> string list \<Rightarrow> string list \<Rightarrow> (string \<times> ('s op_world \<Rightarrow> go_error option \<times> 's op_world)) list \<Rightarrow>
   's op_world \<Rightarrow> nat \<times> 's op_world" where
  "operator_main E args keys entries w =
     (let (i, w1) = must_loop E scheme_packages w
      in case i of None \<Rightarrow> (2, w1) | Some _ \<Rightarrow> Execute E args keys entries w1)"

section \<open>What a set-up function does\<close>

text \<open>The registrations each name of the \<^verbatim>\<open>--controllers\<close> flag stands for.\<close>

definition registrations :: "'s op_env \<Rightarrow> string \<Rightarrow> registration list" where
  "registrations E name =
     (if name = ''FluxDeployer'' then [helm_registration, kustomize_registration]
      else if name = ''TaskExecution'' then [task_registration]
      else if name = ''ActivationExecution'' then [activation_registration, cleanup_registration]
      else if name = ''VectorData'' then [vectordata_registration]
      else if name = ''DeploymentTarget'' then [target_registration E] else [])"

definition controller_names :: "string list" where
  "controller_names = [''FluxDeployer'', ''TaskExecution'', ''ActivationExecution'', ''VectorData'', ''DeploymentTarget'']"

fun completed_of :: "op_event \<Rightarrow> registration list" where
  "completed_of (EvComplete reg (Inr _)) = [reg]"
| "completed_of _ = []"

text \<open>The registrations the manager accepted in a trace, in order.\<close>

definition completed :: "op_event list \<Rightarrow> registration list" where
  "completed tr = concat (map completed_of tr)"

lemma completed_simps [simp]:
  "completed [] = []" "completed (x # tr) = completed_of x @ completed tr"
  "completed (tr @ tr') = completed tr @ completed tr'"
  by (simp_all add: completed_def)

fun starts :: "op_event \<Rightarrow> bool" where
  "starts (EvStart _) = True"
| "starts _ = False"

text \<open>What a controller manager may be expected to do, as its documentation says: it refuses a
  controller only when its name is taken or one of its kinds is not in the scheme.\<close>

definition manager_ok :: "'s op_env \<Rightarrow> ('s \<Rightarrow> string set) \<Rightarrow> ('s \<Rightarrow> scheme_pkg set) \<Rightarrow> bool" where
  "manager_ok E names known \<longleftrightarrow>
     (\<forall>p s. \<exists>s'. AddToScheme E p s = (Inr (), s') \<and> names s' = names s \<and> known s' = insert p (known s)) \<and>
     (\<forall>s. \<exists>s'. GetConfig E s = (True, s') \<and> names s' = names s \<and> known s' = known s) \<and>
     (\<forall>f s. \<exists>s'. NewManager E f s = (Inr (), s') \<and> names s' = names s \<and> known s' = known s) \<and>
     (\<forall>k n s. kind_package k \<in> known s \<longrightarrow>
        (\<exists>s'. IndexField E k n s = (Inr (), s') \<and> names s' = names s \<and> known s' = known s)) \<and>
     (\<forall>reg s. regName reg \<notin> names s \<and> kind_package ` set (reg_kinds reg) \<subseteq> known s \<longrightarrow>
        (\<exists>s'. Complete E reg s = (Inr (), s') \<and> names s' = insert (regName reg) (names s) \<and> known s' = known s)) \<and>
     (\<forall>n s. \<exists>s'. AddHealthzCheck E n s = (Inr (), s') \<and> names s' = names s \<and> known s' = known s) \<and>
     (\<forall>n s. \<exists>s'. AddReadyzCheck E n s = (Inr (), s') \<and> names s' = names s \<and> known s' = known s)"

text \<open>
  The contract of a set-up function: it completes its registrations in order, no others, never
  starts the manager, and it succeeds when the manager has no reason to refuse.
\<close>

locale controller_setup =
  fixes E :: "'s op_env" and register :: "'s op_world \<Rightarrow> go_error option \<times> 's op_world" and regs :: "registration list"
  assumes setup_trace: "register w = (err, w') \<Longrightarrow>
      \<exists>evs. trace w' = trace w @ evs \<and> (\<forall>x \<in> set evs. \<not> starts x) \<and>
        (\<forall>reg a. EvComplete reg a \<in> set evs \<longrightarrow> reg \<in> set regs) \<and> (err = None \<longrightarrow> completed evs = regs)"
    and setup_live: "\<lbrakk>manager_ok E names known; names (srv w) \<inter> regName ` set regs = {};
        \<forall>reg \<in> set regs. kind_package ` set (reg_kinds reg) \<subseteq> known (srv w)\<rbrakk> \<Longrightarrow>
      \<exists>w'. register w = (None, w') \<and> names (srv w') = names (srv w) \<union> regName ` set regs \<and> known (srv w') = known (srv w)"

lemma complete_live:
  assumes "manager_ok E names known" and "regName reg \<notin> names (srv w)" and "kind_package ` set (reg_kinds reg) \<subseteq> known (srv w)"
  obtains w' where "call (Complete E reg) (EvComplete reg) w = (Inr (), w')"
    and "names (srv w') = insert (regName reg) (names (srv w))" and "known (srv w') = known (srv w)"
proof -
  obtain s' where "Complete E reg (srv w) = (Inr (), s')" "names s' = insert (regName reg) (names (srv w))" "known s' = known (srv w)"
    using assms unfolding manager_ok_def by meson
  then show ?thesis using that by (simp add: call_def)
qed

lemma index_live:
  assumes "manager_ok E names known" and "kind_package k \<in> known (srv w)"
  obtains w' where "call (IndexField E k n) (EvIndexField k n) w = (Inr (), w')"
    and "names (srv w') = names (srv w)" and "known (srv w') = known (srv w)"
proof -
  obtain s' where "IndexField E k n (srv w) = (Inr (), s')" "names s' = names (srv w)" "known s' = known (srv w)"
    using assms unfolding manager_ok_def by meson
  then show ?thesis using that by (simp add: call_def)
qed

lemma single_setup:
  assumes "\<forall>w. setup w = (let (r, w1) = call (Complete E reg) (EvComplete reg) w
    in case r of Inl e \<Rightarrow> (Some e, w1) | Inr _ \<Rightarrow> (None, w1))"
  shows "controller_setup E setup [reg]"
proof
  show "\<exists>evs. trace w' = trace w @ evs \<and> (\<forall>x \<in> set evs. \<not> starts x) \<and>
      (\<forall>reg' a. EvComplete reg' a \<in> set evs \<longrightarrow> reg' \<in> set [reg]) \<and> (err = None \<longrightarrow> completed evs = [reg])"
    if "setup w = (err, w')" for w err w'
    using that assms by (auto dest!: call_traceD split: prod.splits sum.splits)
  show "\<exists>w'. setup w = (None, w') \<and> names (srv w') = names (srv w) \<union> regName ` set [reg] \<and> known (srv w') = known (srv w)"
    if "manager_ok E names known" "names (srv w) \<inter> regName ` set [reg] = {}"
      "\<forall>reg \<in> set [reg]. kind_package ` set (reg_kinds reg) \<subseteq> known (srv w)" for names known w
  proof -
    note hyps = that
    obtain w1 where "call (Complete E reg) (EvComplete reg) w = (Inr (), w1)"
      "names (srv w1) = insert (regName reg) (names (srv w))" "known (srv w1) = known (srv w)"
      using complete_live [OF hyps(1), of reg w] hyps(2,3) by auto
    with assms show ?thesis by simp
  qed
qed

lemma double_setup:
  assumes "\<forall>w. setup w = (let (r, w1) = call (Complete E reg) (EvComplete reg) w
      in case r of Inl e \<Rightarrow> (Some e, w1)
         | Inr _ \<Rightarrow> (let (q, w2) = call (Complete E reg') (EvComplete reg') w1 in case q of Inl e \<Rightarrow> (Some e, w2) | Inr _ \<Rightarrow> (None, w2)))"
    and "regName reg \<noteq> regName reg'"
  shows "controller_setup E setup [reg, reg']"
proof
  show "\<exists>evs. trace w' = trace w @ evs \<and> (\<forall>x \<in> set evs. \<not> starts x) \<and>
      (\<forall>r a. EvComplete r a \<in> set evs \<longrightarrow> r \<in> set [reg, reg']) \<and> (err = None \<longrightarrow> completed evs = [reg, reg'])"
    if "setup w = (err, w')" for w err w'
    using that assms(1) by (auto dest!: call_traceD split: prod.splits sum.splits)
  show "\<exists>w'. setup w = (None, w') \<and> names (srv w') = names (srv w) \<union> regName ` set [reg, reg'] \<and> known (srv w') = known (srv w)"
    if "manager_ok E names known" "names (srv w) \<inter> regName ` set [reg, reg'] = {}"
      "\<forall>r \<in> set [reg, reg']. kind_package ` set (reg_kinds r) \<subseteq> known (srv w)" for names known w
  proof -
    note hyps = that
    obtain w1 where 1: "call (Complete E reg) (EvComplete reg) w = (Inr (), w1)"
      "names (srv w1) = insert (regName reg) (names (srv w))" "known (srv w1) = known (srv w)"
      using complete_live [OF hyps(1), of reg w] hyps(2,3) by auto
    obtain w2 where "call (Complete E reg') (EvComplete reg') w1 = (Inr (), w2)"
      "names (srv w2) = insert (regName reg') (names (srv w1))" "known (srv w2) = known (srv w1)"
      using complete_live [OF hyps(1), of reg' w1] hyps(2,3) 1 assms(2) by auto
    with assms 1 show ?thesis by auto
  qed
qed

lemma task_controller: "controller_setup E (taskexecution_SetupControllers E) [task_registration]"
proof
  show "\<exists>evs. trace w' = trace w @ evs \<and> (\<forall>x \<in> set evs. \<not> starts x) \<and>
      (\<forall>r a. EvComplete r a \<in> set evs \<longrightarrow> r \<in> set [task_registration]) \<and> (err = None \<longrightarrow> completed evs = [task_registration])"
    if "taskexecution_SetupControllers E w = (err, w')" for w err w'
    using that
    by (auto simp: taskexecution_SetupControllers_def Task_SetupWithManager_def dest!: call_traceD split: prod.splits sum.splits)
  show "\<exists>w'. taskexecution_SetupControllers E w = (None, w') \<and> names (srv w') = names (srv w) \<union> regName ` set [task_registration] \<and>
      known (srv w') = known (srv w)"
    if "manager_ok E names known" "names (srv w) \<inter> regName ` set [task_registration] = {}"
      "\<forall>r \<in> set [task_registration]. kind_package ` set (reg_kinds r) \<subseteq> known (srv w)" for names known w
  proof -
    note hyps = that
    obtain w1 where 1: "call (IndexField E KJob taskExecutionOwnerKey) (EvIndexField KJob taskExecutionOwnerKey) w = (Inr (), w1)"
      "names (srv w1) = names (srv w)" "known (srv w1) = known (srv w)"
      using index_live [OF hyps(1), of KJob w] hyps(3) by (auto simp: task_registration_def)
    obtain w2 where "call (Complete E task_registration) (EvComplete task_registration) w1 = (Inr (), w2)"
      "names (srv w2) = insert (regName task_registration) (names (srv w1))" "known (srv w2) = known (srv w1)"
      using complete_live [OF hyps(1), of task_registration w1] hyps(2,3) 1 by auto
    with 1 show ?thesis by (simp add: taskexecution_SetupControllers_def Task_SetupWithManager_def)
  qed
qed

interpretation flux_setup: controller_setup E "fluxdeployer_SetupControllers E" "[helm_registration, kustomize_registration]" for E
  by (rule double_setup, unfold fluxdeployer_SetupControllers_def Helm_SetupWithManager_def Kustomize_SetupWithManager_def)
    (simp_all add: helm_registration_def kustomize_registration_def)

interpretation task_setup: controller_setup E "taskexecution_SetupControllers E" "[task_registration]" for E
  by (rule task_controller)

interpretation activation_setup: controller_setup E "activationexecution_SetupControllers E"
  "[activation_registration, cleanup_registration]" for E
  by (rule double_setup, unfold activationexecution_SetupControllers_def Activation_SetupWithManager_def
      StageRouteCleanup_SetupWithManager_def)
    (simp_all add: activation_registration_def cleanup_registration_def)

interpretation vectordata_setup: controller_setup E "vectordata_SetupControllers E" "[vectordata_registration]" for E
  by (rule single_setup) (simp add: vectordata_SetupControllers_def VectorData_SetupWithManager_def)

interpretation target_setup: controller_setup E "deploymenttarget_SetupControllers E" "[target_registration E]" for E
  by (rule single_setup) (simp add: deploymenttarget_SetupControllers_def)

lemmas flag_names = fluxdeployer_OperatorFlagName_def taskexecution_OperatorFlagName_def
  activationexecution_OperatorFlagName_def vectordata_OperatorFlagName_def deploymenttarget_OperatorFlagName_def

lemma controllerSetups_names: "map fst (controllerSetups E) = controller_names"
  by (simp add: controllerSetups_def controller_names_def flag_names)

lemma controllerSetups_ok: "(n, f) \<in> set (controllerSetups E) \<Longrightarrow> controller_setup E f (registrations E n)"
  using flux_setup.controller_setup_axioms [of E] task_setup.controller_setup_axioms [of E]
    activation_setup.controller_setup_axioms [of E] vectordata_setup.controller_setup_axioms [of E]
    target_setup.controller_setup_axioms [of E]
  by (auto simp: controllerSetups_def registrations_def flag_names)

section \<open>Starting the manager\<close>

lemma setup_loop_trace:
  assumes "setup_loop en entries w = (err, w')" and "\<forall>(n, f) \<in> set entries. controller_setup E f (registrations E n)"
  shows "\<exists>evs. trace w' = trace w @ evs \<and> (\<forall>x \<in> set evs. \<not> starts x) \<and>
    (\<forall>reg a. EvComplete reg a \<in> set evs \<longrightarrow> (\<exists>n \<in> fst ` set entries. en n \<and> reg \<in> set (registrations E n))) \<and>
    (err = None \<longrightarrow> completed evs = concat (map (registrations E) (filter en (map fst entries))))"
  using assms
proof (induction entries arbitrary: w)
  case (Cons entry entries)
  obtain n f where entry: "entry = (n, f)" by (rule prod.exhaust)
  have IH: "\<exists>evs. trace w' = trace v @ evs \<and> (\<forall>x \<in> set evs. \<not> starts x) \<and>
      (\<forall>reg a. EvComplete reg a \<in> set evs \<longrightarrow> (\<exists>n \<in> fst ` set entries. en n \<and> reg \<in> set (registrations E n))) \<and>
      (err = None \<longrightarrow> completed evs = concat (map (registrations E) (filter en (map fst entries))))"
    if "setup_loop en entries v = (err, w')" for v using Cons.IH [OF that] Cons.prems(2) by simp
  show ?case
  proof (cases "en n")
    case False
    with Cons.prems(1) entry have "setup_loop en entries w = (err, w')" by simp
    from IH [OF this] False entry show ?thesis by auto
  next
    case True
    have ok: "controller_setup E f (registrations E n)" using Cons.prems(2) entry by simp
    obtain e w1 where f: "f w = (e, w1)" by (rule prod.exhaust)
    from controller_setup.setup_trace [OF ok f] obtain evs where evs: "trace w1 = trace w @ evs" "\<forall>x \<in> set evs. \<not> starts x"
      "\<forall>reg a. EvComplete reg a \<in> set evs \<longrightarrow> reg \<in> set (registrations E n)" "e = None \<longrightarrow> completed evs = registrations E n"
      by blast
    show ?thesis
    proof (cases e)
      case (Some x)
      with Cons.prems(1) entry True f have "w' = w1" "err \<noteq> None" by auto
      with evs True entry show ?thesis by (intro exI [of _ evs]) auto
    next
      case None
      with Cons.prems(1) entry True f have "setup_loop en entries w1 = (err, w')" by simp
      from IH [OF this] obtain evs' where "trace w' = trace w1 @ evs'" "\<forall>x \<in> set evs'. \<not> starts x"
        "\<forall>reg a. EvComplete reg a \<in> set evs' \<longrightarrow> (\<exists>n \<in> fst ` set entries. en n \<and> reg \<in> set (registrations E n))"
        "err = None \<longrightarrow> completed evs' = concat (map (registrations E) (filter en (map fst entries)))" by blast
      with evs None True entry show ?thesis by (intro exI [of _ "evs @ evs'"]) auto
    qed
  qed
qed auto

lemma setup_loop_live:
  assumes "manager_ok E names known" and "\<forall>(n, f) \<in> set entries. controller_setup E f (registrations E n)"
    and "names (srv w) \<inter> regName ` set (concat (map (registrations E) (map fst entries))) = {}"
    and "distinct (map regName (concat (map (registrations E) (map fst entries))))"
    and "\<forall>reg \<in> set (concat (map (registrations E) (map fst entries))). kind_package ` set (reg_kinds reg) \<subseteq> known (srv w)"
  shows "\<exists>w'. setup_loop en entries w = (None, w')"
  using assms(2-5)
proof (induction entries arbitrary: w)
  case (Cons entry entries)
  obtain n f where entry: "entry = (n, f)" by (rule prod.exhaust)
  show ?case
  proof (cases "en n")
    case False
    have "\<exists>w'. setup_loop en entries w = (None, w')"
      by (rule Cons.IH) (use Cons.prems entry in auto)
    with False entry show ?thesis by simp
  next
    case True
    have ok: "controller_setup E f (registrations E n)" using Cons.prems(1) entry by simp
    have free: "names (srv w) \<inter> regName ` set (registrations E n) = {}"
      and kinds: "\<forall>reg \<in> set (registrations E n). kind_package ` set (reg_kinds reg) \<subseteq> known (srv w)"
      using Cons.prems(2,4) entry by auto
    obtain w1 where w1: "f w = (None, w1)" "names (srv w1) = names (srv w) \<union> regName ` set (registrations E n)"
      "known (srv w1) = known (srv w)"
      using controller_setup.setup_live [OF ok assms(1) free kinds] by blast
    have "\<exists>w'. setup_loop en entries w1 = (None, w')"
    proof (rule Cons.IH)
      show "names (srv w1) \<inter> regName ` set (concat (map (registrations E) (map fst entries))) = {}"
        using Cons.prems(2,3) entry w1(2) by (simp add: Int_Un_distrib Int_Un_distrib2 image_Un)
    qed (use Cons.prems entry w1(3) in auto)
    with True entry w1(1) show ?thesis by simp
  qed
qed simp

lemma mset_concat_cong: "mset xs = mset ys \<Longrightarrow> mset (concat (map f xs)) = mset (concat (map f ys))"
  by (simp add: mset_concat flip: sum_mset_sum_list)

lemma entries_ok:
  assumes "mset entries = mset (controllerSetups E)"
  shows "\<forall>(n, f) \<in> set entries. controller_setup E f (registrations E n)" and "mset (map fst entries) = mset controller_names"
proof -
  have "set entries = set (controllerSetups E)" using assms by (rule mset_eq_setD)
  then show "\<forall>(n, f) \<in> set entries. controller_setup E f (registrations E n)" using controllerSetups_ok by auto
  show "mset (map fst entries) = mset controller_names"
    using assms controllerSetups_names [of E] by (metis mset_map)
qed

lemma enabled_mset:
  assumes "mset (map fst entries) = mset controller_names"
  shows "mset (concat (map (registrations E) (filter en (map fst entries)))) =
    mset (concat (map (registrations E) (filter en controller_names)))"
  by (rule mset_concat_cong) (metis assms mset_filter)

lemmas registration_defs = helm_registration_def kustomize_registration_def task_registration_def activation_registration_def
  cleanup_registration_def vectordata_registration_def target_registration_def

lemma registrations_distinct: "distinct (map regName (concat (map (registrations E) controller_names)))"
  by (simp add: controller_names_def registrations_def registration_defs VectorDataControllerName_def ControllerName_def)

lemma registrations_known: "reg \<in> set (registrations E n) \<Longrightarrow> kind_package ` set (reg_kinds reg) \<subseteq> set scheme_packages"
  by (auto simp: registrations_def registration_defs scheme_packages_def split: if_splits)

text \<open>The events of a run of \<^verbatim>\<open>startOperator\<close>, whatever the environment answers.\<close>

lemma startOperator_shape:
  assumes "mset entries = mset (controllerSetups E)" and "startOperator E flags keys entries \<lparr>srv = s, trace = []\<rparr> = (r, w')"
  shows "\<exists>evs tl. trace w' = evs @ tl \<and> (\<forall>x \<in> set evs. \<not> starts x) \<and>
    (\<forall>reg a. EvComplete reg a \<in> set evs \<longrightarrow> (\<exists>en. FilterEnabledControllers E (controllersSpec flags) keys = Inr en \<and>
       (\<exists>n \<in> set controller_names. en n \<and> reg \<in> set (registrations E n)))) \<and>
    (tl = [] \<or> (\<exists>h. tl = [EvAddHealthz ''healthz'' h]) \<or> (\<exists>h q. tl = [EvAddHealthz ''healthz'' h, EvAddReadyz ''readyz'' q]) \<or>
     (\<exists>a en. tl = [EvAddHealthz ''healthz'' (Inr ()), EvAddReadyz ''readyz'' (Inr ()), EvStart a] \<and>
        FilterEnabledControllers E (controllersSpec flags) keys = Inr en \<and>
        completed evs = concat (map (registrations E) (filter en (map fst entries)))))"
proof -
  obtain c and w0 :: "'a op_world" where c: "silent (GetConfig E) \<lparr>srv = s, trace = []\<rparr> = (c, w0)" by (rule prod.exhaust)
  obtain m w1 where m: "call (NewManager E flags) (EvNewManager flags) w0 = (m, w1)" by (rule prod.exhaust)
  have t1: "trace w1 = [EvNewManager flags m]" using silent_traceD [OF c] call_traceD [OF m] by simp
  consider "w' = w0" | "w' = w1"
    | en err w2 where "FilterEnabledControllers E (controllersSpec flags) keys = Inr en" "setup_loop en entries w1 = (err, w2)"
        "w' = w2 \<and> err \<noteq> None \<or> err = None \<and> (\<exists>h w3. call (AddHealthzCheck E ''healthz'') (EvAddHealthz ''healthz'') w2 = (h, w3) \<and>
          (w' = w3 \<or> h = Inr () \<and> (\<exists>q w4. call (AddReadyzCheck E ''readyz'') (EvAddReadyz ''readyz'') w3 = (q, w4) \<and>
            (w' = w4 \<or> q = Inr () \<and> (\<exists>a w5. call (StartManager E) EvStart w4 = (a, w5) \<and> w' = w5)))))"
    using assms(2) c m by (auto simp: startOperator_def split: if_splits sum.splits prod.splits option.splits)
  then show ?thesis
  proof cases
    case 1
    then show ?thesis using silent_traceD [OF c] by auto
  next
    case 2
    show ?thesis by (rule exI [of _ "[EvNewManager flags m]"], rule exI [of _ "[]"]) (use 2 t1 in auto)
  next
    case 3
    obtain evs where evs: "trace w2 = trace w1 @ evs" "\<forall>x \<in> set evs. \<not> starts x"
      "\<forall>reg a. EvComplete reg a \<in> set evs \<longrightarrow> (\<exists>n \<in> fst ` set entries. en n \<and> reg \<in> set (registrations E n))"
      "err = None \<longrightarrow> completed evs = concat (map (registrations E) (filter en (map fst entries)))"
      using setup_loop_trace [OF 3(2) entries_ok(1) [OF assms(1)]] by blast
    have names: "fst ` set entries = set controller_names"
      using mset_eq_setD [OF entries_ok(2) [OF assms(1)]] by simp
    from 3(3) have "\<exists>tl. trace w' = trace w2 @ tl \<and> (tl = [] \<or> (\<exists>h. tl = [EvAddHealthz ''healthz'' h]) \<or>
        (\<exists>h q. tl = [EvAddHealthz ''healthz'' h, EvAddReadyz ''readyz'' q]) \<or>
        err = None \<and> (\<exists>a. tl = [EvAddHealthz ''healthz'' (Inr ()), EvAddReadyz ''readyz'' (Inr ()), EvStart a]))"
      by (auto dest!: call_traceD)
    then obtain tl where "trace w' = trace w2 @ tl" "tl = [] \<or> (\<exists>h. tl = [EvAddHealthz ''healthz'' h]) \<or>
        (\<exists>h q. tl = [EvAddHealthz ''healthz'' h, EvAddReadyz ''readyz'' q]) \<or>
        err = None \<and> (\<exists>a. tl = [EvAddHealthz ''healthz'' (Inr ()), EvAddReadyz ''readyz'' (Inr ()), EvStart a])" by blast
    with t1 evs names 3(1) show ?thesis by (intro exI [of _ "EvNewManager flags m # evs"] exI [of _ tl]) auto
  qed
qed

lemma start_guarded:
  assumes "mset entries = mset (controllerSetups E)" and "startOperator E flags keys entries \<lparr>srv = s, trace = []\<rparr> = (r, w')"
    and "trace w' = pre @ x # post"
  shows "(\<forall>reg a. x = EvComplete reg a \<longrightarrow> (\<exists>en. FilterEnabledControllers E (controllersSpec flags) keys = Inr en \<and>
       (\<exists>n \<in> set controller_names. en n \<and> reg \<in> set (registrations E n)))) \<and>
    (\<forall>a. x = EvStart a \<longrightarrow> post = [] \<and> EvAddHealthz ''healthz'' (Inr ()) \<in> set pre \<and> EvAddReadyz ''readyz'' (Inr ()) \<in> set pre \<and>
       (\<exists>en. FilterEnabledControllers E (controllersSpec flags) keys = Inr en \<and>
          mset (completed pre) = mset (concat (map (registrations E) (filter en controller_names)))))"
proof (intro conjI allI impI)
  obtain evs tl where shape: "trace w' = evs @ tl" "\<forall>x \<in> set evs. \<not> starts x"
    "\<forall>reg a. EvComplete reg a \<in> set evs \<longrightarrow> (\<exists>en. FilterEnabledControllers E (controllersSpec flags) keys = Inr en \<and>
       (\<exists>n \<in> set controller_names. en n \<and> reg \<in> set (registrations E n)))"
    "tl = [] \<or> (\<exists>h. tl = [EvAddHealthz ''healthz'' h]) \<or> (\<exists>h q. tl = [EvAddHealthz ''healthz'' h, EvAddReadyz ''readyz'' q]) \<or>
     (\<exists>a en. tl = [EvAddHealthz ''healthz'' (Inr ()), EvAddReadyz ''readyz'' (Inr ()), EvStart a] \<and>
        FilterEnabledControllers E (controllersSpec flags) keys = Inr en \<and>
        completed evs = concat (map (registrations E) (filter en (map fst entries))))"
    using startOperator_shape [OF assms(1,2)] by blast
  have x: "x \<in> set evs \<or> x \<in> set tl" using assms(3) shape(1) by (metis in_set_conv_decomp Un_iff set_append)
  show "\<exists>en. FilterEnabledControllers E (controllersSpec flags) keys = Inr en \<and>
      (\<exists>n \<in> set controller_names. en n \<and> reg \<in> set (registrations E n))" if "x = EvComplete reg a" for reg a
    using x shape(3,4) that by auto
  fix a assume start: "x = EvStart a"
  have "x \<notin> set evs" using shape(2) start by auto
  then obtain a' en where tl: "tl = [EvAddHealthz ''healthz'' (Inr ()), EvAddReadyz ''readyz'' (Inr ()), EvStart a']"
    and en: "FilterEnabledControllers E (controllersSpec flags) keys = Inr en"
      "completed evs = concat (map (registrations E) (filter en (map fst entries)))"
    using x shape(4) start by auto
  let ?pre = "evs @ [EvAddHealthz ''healthz'' (Inr ()), EvAddReadyz ''readyz'' (Inr ())]"
  have split: "pre @ x # post = ?pre @ [EvStart a']" using assms(3) shape(1) tl by simp
  obtain zs where "pre = ?pre @ zs" "[EvStart a'] = zs @ x # post"
    by (rule event_after [OF split]) (use \<open>x \<notin> set evs\<close> start in auto)
  then have pre: "pre = ?pre" and post: "post = []" by (auto simp: Cons_eq_append_conv)
  show "post = []" by (rule post)
  show "EvAddHealthz ''healthz'' (Inr ()) \<in> set pre" "EvAddReadyz ''readyz'' (Inr ()) \<in> set pre" by (simp_all add: pre)
  show "\<exists>en. FilterEnabledControllers E (controllersSpec flags) keys = Inr en \<and>
      mset (completed pre) = mset (concat (map (registrations E) (filter en controller_names)))"
    using en enabled_mset [OF entries_ok(2) [OF assms(1)], of E en] by (simp add: pre)
qed

text \<open>
  C37. The operator never runs half configured: in every run a controller is only registered when
  the filter selected the package it belongs to, and the manager is started, as the last call, only
  after both health checks were added and it accepted every registration of every selected package,
  each exactly once, in whichever order the map of packages was visited.
\<close>

theorem operator_start_guarded:
  assumes "mset entries = mset (controllerSetups E)" and "startOperator E flags keys entries \<lparr>srv = s, trace = []\<rparr> = (r, w')"
    and "trace w' = pre @ x # post"
  shows "(\<forall>reg a. x = EvComplete reg a \<longrightarrow> (\<exists>en. FilterEnabledControllers E (controllersSpec flags) keys = Inr en \<and>
       (\<exists>n \<in> set controller_names. en n \<and> reg \<in> set (registrations E n)))) \<and>
    (\<forall>a. x = EvStart a \<longrightarrow> post = [] \<and> EvAddHealthz ''healthz'' (Inr ()) \<in> set pre \<and> EvAddReadyz ''readyz'' (Inr ()) \<in> set pre \<and>
       (\<exists>en. FilterEnabledControllers E (controllersSpec flags) keys = Inr en \<and>
          mset (completed pre) = mset (concat (map (registrations E) (filter en controller_names)))))"
  using assms by (rule start_guarded)

lemma must_loop_live:
  assumes "manager_ok E names known"
  shows "\<exists>w'. must_loop E ps w = (Some (), w') \<and> trace w' = trace w \<and> names (srv w') = names (srv w) \<and>
    known (srv w') = known (srv w) \<union> set ps"
proof (induction ps arbitrary: w)
  case (Cons p ps)
  obtain s' where s': "AddToScheme E p (srv w) = (Inr (), s')" "names s' = names (srv w)" "known s' = insert p (known (srv w))"
    using assms unfolding manager_ok_def by meson
  then have "silent (AddToScheme E p) w = (Inr (), w\<lparr>srv := s'\<rparr>)" by (simp add: silent_def)
  with Cons.IH [of "w\<lparr>srv := s'\<rparr>"] s' show ?case by auto
qed simp

text \<open>With a manager that has no reason to refuse, \<^verbatim>\<open>startOperator\<close> gets to the start.\<close>

lemma startOperator_live:
  assumes "manager_ok E names known" and "names s = {}" and "set scheme_packages \<subseteq> known s"
    and "mset entries = mset (controllerSetups E)" and "FilterEnabledControllers E (controllersSpec flags) keys = Inr en"
  shows "\<exists>pre a w'. startOperator E flags keys entries \<lparr>srv = s, trace = []\<rparr> = (Some (case a of Inr _ \<Rightarrow> None | Inl e \<Rightarrow> Some e), w') \<and>
    trace w' = pre @ [EvStart a]"
proof -
  obtain s0 where c: "GetConfig E s = (True, s0)" "names s0 = {}" "known s0 = known s"
    using assms(1,2) unfolding manager_ok_def by metis
  obtain s1 where m: "NewManager E flags s0 = (Inr (), s1)" "names s1 = {}" "known s1 = known s"
    using assms(1) c unfolding manager_ok_def by metis
  let ?w1 = "\<lparr>srv = s1, trace = [EvNewManager flags (Inr ())]\<rparr>"
  have names: "mset (concat (map (registrations E) (map fst entries))) = mset (concat (map (registrations E) controller_names))"
    by (rule mset_concat_cong [OF entries_ok(2) [OF assms(4)]])
  have "\<exists>w'. setup_loop en entries ?w1 = (None, w')"
  proof (rule setup_loop_live [OF assms(1) entries_ok(1) [OF assms(4)]])
    show "distinct (map regName (concat (map (registrations E) (map fst entries))))"
      using registrations_distinct [of E] mset_eq_imp_distinct_iff names by (metis mset_map)
  qed (use m assms(3) registrations_known [of _ E] in fastforce)+
  then obtain w2 where w2: "setup_loop en entries ?w1 = (None, w2)" by blast
  obtain s3 where h: "AddHealthzCheck E ''healthz'' (srv w2) = (Inr (), s3)" using assms(1) unfolding manager_ok_def by meson
  obtain s4 where q: "AddReadyzCheck E ''readyz'' s3 = (Inr (), s4)" using assms(1) unfolding manager_ok_def by meson
  obtain a s5 where a: "StartManager E s4 = (a, s5)" by (rule prod.exhaust)
  show ?thesis
    by (cases a) (simp_all add: startOperator_def silent_def call_def c m assms(5) w2 h q a)
qed


section \<open>A sample process\<close>

text \<open>
  A manager whose state is the names in use and the packages in the scheme, and a filter that reads
  its argument as the one controller to leave out.
\<close>

definition sample_operator :: "(string list \<times> scheme_pkg list) op_env" where
  "sample_operator =
     \<lparr>BuildVersion = ''dev'', AddToScheme = (\<lambda>p (ns, ps). (Inr (), (ns, p # ps))),
      ParseFlags = (\<lambda>fl args. Inr (Some (fl\<lparr>controllersSpec := concat args\<rparr>))), GetConfig = (\<lambda>s. (True, s)),
      NewManager = (\<lambda>_ s. (Inr (), s)), FilterEnabledControllers = (\<lambda>spec _. Inr (\<lambda>n. n \<noteq> spec)),
      IndexField = (\<lambda>k _ (ns, ps). (if kind_package k \<in> set ps then Inr () else Inl (ErrMsg ''refused''), (ns, ps))),
      Complete = (\<lambda>reg (ns, ps).
        if regName reg \<notin> set ns \<and> list_all (\<lambda>k. kind_package k \<in> set ps) (reg_kinds reg)
        then (Inr (), (regName reg # ns, ps)) else (Inl (ErrMsg ''refused''), (ns, ps))),
      AddHealthzCheck = (\<lambda>_ s. (Inr (), s)), AddReadyzCheck = (\<lambda>_ s. (Inr (), s)), StartManager = (\<lambda>s. (Inr (), s))\<rparr>"

lemma sample_operator_ok: "manager_ok sample_operator (set \<circ> fst) (set \<circ> snd)"
  unfolding manager_ok_def by (auto simp: sample_operator_def list_all_iff split: prod.splits)


lemma sample_operator_run:
  "trace (snd (startOperator sample_operator default_flags [] (rev (controllerSetups sample_operator))
     \<lparr>srv = ([], scheme_packages), trace = []\<rparr>)) =
   [EvNewManager default_flags (Inr ()), EvComplete (target_registration sample_operator) (Inr ()),
    EvComplete vectordata_registration (Inr ()), EvComplete activation_registration (Inr ()),
    EvComplete cleanup_registration (Inr ()), EvIndexField KJob taskExecutionOwnerKey (Inr ()),
    EvComplete task_registration (Inr ()), EvComplete helm_registration (Inr ()),
    EvComplete kustomize_registration (Inr ()), EvAddHealthz ''healthz'' (Inr ()), EvAddReadyz ''readyz'' (Inr ())] @
   EvStart (Inr ()) # []"
  by code_simp

theorem operator_start_guarded_witness:
  "\<exists>en. FilterEnabledControllers sample_operator ''*'' [] = Inr en \<and>
     mset [target_registration sample_operator, vectordata_registration, activation_registration, cleanup_registration,
       task_registration, helm_registration, kustomize_registration] =
     mset (concat (map (registrations sample_operator) (filter en controller_names)))"
proof -
  obtain r w' where run: "startOperator sample_operator default_flags [] (rev (controllerSetups sample_operator))
      \<lparr>srv = ([], scheme_packages), trace = []\<rparr> = (r, w')" by (rule prod.exhaust)
  have "mset (rev (controllerSetups sample_operator)) = mset (controllerSetups sample_operator)" by simp
  from operator_start_guarded [OF this run sample_operator_run [unfolded run snd_conv]] show ?thesis
    by (simp add: default_flags_def add_mset_commute)
qed

end
