(* ===== verification/Spec2Isabelle.thy ===== *)
theory Spec2Isabelle
  imports VectorData_EndToEnd Cache_Coherence VectorData_Main Activation_Examples Task_Properties Flux_Examples
    Operator
begin

text \<open>
  A verification development of the Kubernetes landscape orchestrator.

  \<^bold>\<open>The program.\<close> The repository builds two processes. The operator (\<^verbatim>\<open>main.go\<close>, \<^verbatim>\<open>cmd/root.go\<close>,
  \<^verbatim>\<open>cmd/operator.go\<close>) runs five groups of controllers that turn objects of the Konfidence API into
  Kubernetes, Flux and Gateway API objects. The vector-data service (\<^verbatim>\<open>cmd/vectordata\<close>) serves the
  feature flags and the configuration of a vector over HTTP. The groups interact through objects:

  \<^item> an ArtifactDeployment is deployed through Flux, and the Services it exposes are published as
    deployment results in its status (\<^verbatim>\<open>internal/fluxdeployer\<close>);
  \<^item> an ActivationTaskExecution turns the deployment results of a vector into the HTTPRoute of a
    stage (\<^verbatim>\<open>internal/activationexecution\<close>);
  \<^item> a TaskExecution runs a Job and reports its verdict (\<^verbatim>\<open>internal/taskexecution\<close>);
  \<^item> a VectorData object is materialized as a ConfigMap (\<^verbatim>\<open>internal/vectordata\<close>), which the
    vector-data service reads;
  \<^item> a DeploymentTarget is validated (\<^verbatim>\<open>internal/deploymenttarget\<close>) and says where to deploy.

  \<^bold>\<open>How it is modelled.\<close> A Go struct is a record, an error a value of \<open>go_error\<close>, a fallible
  function returns \<open>'a result\<close> (\<open>Inl\<close> the error), a map is an association list, a panic is \<open>None\<close>.
  A handler takes a world, the state of the server together with the trace of calls made so far, and returns it
  updated. The API server, the client libraries and everything else that is not in the repository
  are fields of an environment record (\<open>vd_env\<close>, \<open>svc_env\<close>, \<open>act_env\<close>, \<open>te_env\<close>, \<open>target_env\<close>,
  \<open>flux_env\<close>, \<open>op_env\<close>); the type of the server's state is a type variable, so that a theorem without a
  hypothesis on the server holds whatever it answers and whoever else changes it between two calls. What a
  theorem needs of such code is a named predicate (\<open>meta_lib_ok\<close>, \<open>konf_api_ok\<close>, \<open>job_store_ok\<close>,
  \<open>port_codec_ok\<close>, \<open>service_list_ok\<close>, \<open>manager_ok\<close> and others), and the witness of the theorem has an
  environment that satisfies it. Safety properties are stated on the trace: every event
  satisfies a guard over the events before it (\<open>guarded\<close>).

  \<^bold>\<open>Theories.\<close>

  \<^item> \<open>Prelude\<close>: errors, results, worlds and calls, guarded traces, string functions. \<open>Kube\<close>: object
    metadata, conditions, finalizers, requeue results. \<open>Go_Strings\<close>, \<open>JSON\<close>, \<open>Sha1\<close>: what the sources use
    of Go's standard library; the JSON scanner is a push-down automaton on bytes with Go's nesting limit
    of 10000, and parsing inverts printing.
  \<^item> \<open>VectorData_Controller\<close> (\<^verbatim>\<open>vectordata_controller.go\<close>: \<open>renderData\<close>, \<open>materialize\<close>,
    \<open>handleDeletion\<close>, \<open>VectorData_Reconcile\<close>): the data is rendered as documented and independently
    of the order of a Go map; reconciliation converges, creates behind the finalizer and releases
    it only after the ConfigMap is gone.
  \<^item> \<open>Config_Cache\<close> (\<^verbatim>\<open>cache.go\<close>, \<^verbatim>\<open>in_memory_cache.go\<close>, \<^verbatim>\<open>informer.go\<close>): the cache contract as the
    locale \<open>cache_contract\<close>, interpreted on the in-memory cache, and the handlers of the informer.
    \<open>Cache_Coherence\<close>: requests and notifications as interleaved steps, and what a cached entry is
    worth.
  \<^item> \<open>VectorData_Service\<close> (\<^verbatim>\<open>vector_data_service.go\<close>): decoding, building and caching of configurations, flag
    evaluation, entity tags and both endpoints. \<open>VectorData_EndToEnd\<close>: what the controller writes is what the
    service serves. \<open>VectorData_Main\<close> (\<^verbatim>\<open>cmd/vectordata/main.go\<close>): the process as a transition
    system, its error channel, its exit.
  \<^item> \<open>Activation_Data\<close>, \<open>Router_Gateway\<close> (\<^verbatim>\<open>router_gateway.go\<close>), \<open>Route_Rules\<close> (\<^verbatim>\<open>buildRouteRules\<close>),
    \<open>Activation_Controller\<close> (\<^verbatim>\<open>activation_task_execution_controller.go\<close>,
    \<^verbatim>\<open>stage_route_cleanup_controller.go\<close>), \<open>Activation_Properties\<close>, \<open>Activation_Examples\<close>: routes are applied
    and Gateways deleted only under the stated conditions, a finished activation leaves exactly
    the desired route (a refinement), waiting for a Gateway is bounded, a stage is released after its route is gone.
  \<^item> \<open>Task_Execution\<close> (\<^verbatim>\<open>taskexecution_controller.go\<close>) and \<open>Task_Properties\<close>: bounded Job names, at most one
    Job over any sequence of reconciliations, faithful and complete reporting, no panic.
  \<^item> \<open>Deployment_Target\<close> (\<^verbatim>\<open>deploymenttarget/setup.go\<close>, \<^verbatim>\<open>landscape_client.go\<close>): validation, resolution
    of a target and the cache of remote clients, which is invisible. The two readers of a
    kubeconfig Secret share the locale \<open>kubeconfig_source\<close>.
  \<^item> \<open>Flux_Names\<close> (\<^verbatim>\<open>fluxcd/utils\<close>, \<^verbatim>\<open>mapper.go\<close>), \<open>Flux_Deployer\<close> (\<^verbatim>\<open>fluxcd/reconciler\<close>,
    \<^verbatim>\<open>config_provider.go\<close>), \<open>Flux_Status\<close> (the status updaters), \<open>Flux_Controller\<close> (both reconcilers),
    \<open>Flux_Properties\<close>, \<open>Flux_Examples\<close>: order of application, justified readiness, final exposure failures,
    well-formed results, and that every published Service is routed by the activation controller. The
    four Flux reconcilers share the locale \<open>flux_reconciler\<close>, the two updaters \<open>status_updater\<close>.
  \<^item> \<open>Operator\<close> (\<^verbatim>\<open>main.go\<close>, \<^verbatim>\<open>cmd/root.go\<close>, \<^verbatim>\<open>cmd/operator.go\<close>, the \<^verbatim>\<open>setup.go\<close> files and the
    \<^verbatim>\<open>SetupWithManager\<close> methods): the manager is started last, with exactly the selected controllers,
    and every selection of controllers fits together. The set-up functions share the locale
    \<open>controller_setup\<close>.

  \<^bold>\<open>Bounds and termination.\<close> Every definition is a total function and every loop of the sources a
  structural recursion over the list it ranges over, so no fuel is needed. Polling is a requeue: the bound
  on waiting is stated on the verdict about a Gateway. Integers are unbounded where the sources cannot overflow; flag
  values check the range of an int64, SHA-1 works on 32-bit words. Strings are lists of bytes.

  \<^bold>\<open>Not modelled.\<close>

  \<^item> The network: the HTTP server, the Kubernetes client and cache, the watch machinery and the work queue.
    They are parameters; the predicates that filter watch events are modelled where the repository defines them.
  \<^item> Logging, metrics and the contents of Kubernetes events beyond reason and message.
  \<^item> Conversion between decimal literals and float64, Unicode case tables, the parser of image references,
    and the codecs of Kubernetes types are parameters.
  \<^item> Mutexes and contexts: the cache operations and the client cache run under a lock and are single steps;
    cancellation is an error a call may return.
  \<^item> Generated mocks, helpers of the tests, and the two variables of \<^verbatim>\<open>pkg/build\<close> that the linker sets.
\<close>

end
